(* ===== verification/Prelude.thy ===== *)
theory Prelude
  imports Main "HOL-Library.AList" "HOL-Library.Word" "HOL-Library.Sublist"
begin

text \<open>
  Shared material of the development: the 64-bit unsigned sizes of the code with their
  saturating arithmetic, the two containers the master's books are kept in (a Rust
  \<^verbatim>\<open>HashMap\<close> as an association list with distinct keys, a Rust \<^verbatim>\<open>BTreeSet\<close> as a strictly
  sorted list), and the interfaces several components implement: an ordered set, a byte
  ledger (sizes per key and their running total), a life cycle with terminal states, and a
  transition system with an invariant.
\<close>

named_theorems hmap_simps \<open>look-ups in updated hash maps\<close>
named_theorems bts_simps \<open>membership in updated ordered sets\<close>

section \<open>Machine integers\<close>

text \<open>
  \<^verbatim>\<open>usize\<close> and \<^verbatim>\<open>u64\<close> values are natural numbers; \<^verbatim>\<open>saturating_add\<close> is cut at the
  largest 64-bit value, \<^verbatim>\<open>saturating_sub\<close> is the subtraction of \<^typ>\<open>nat\<close>, which stops at 0.
\<close>

definition usize_max :: nat where
  "usize_max = 18446744073709551615"

definition sat_add :: "nat \<Rightarrow> nat \<Rightarrow> nat" where
  "sat_add a b = min (a + b) usize_max"

lemma sat_add_exact: "a + b \<le> usize_max \<Longrightarrow> sat_add a b = a + b"
  by (simp add: sat_add_def)

lemma sat_add_le: "sat_add a b \<le> a + b"
  by (simp add: sat_add_def)

lemma sat_add_below: "m < usize_max \<Longrightarrow> sat_add a b \<le> m \<Longrightarrow> sat_add a b = a + b"
  by (simp add: sat_add_def min_def split: if_splits)

section \<open>Hash maps\<close>

text \<open>
  Rust leaves the iteration order of a \<^verbatim>\<open>HashMap\<close> open. An association list fixes one order;
  a theorem about every list with distinct keys is a theorem about every iteration order.
\<close>

type_synonym ('k, 'v) hmap = "('k \<times> 'v) list"

definition hm_get :: "('k, 'v) hmap \<Rightarrow> 'k \<Rightarrow> 'v option" where
  "hm_get m k = map_of m k"

definition hm_put :: "'k \<Rightarrow> 'v \<Rightarrow> ('k, 'v) hmap \<Rightarrow> ('k, 'v) hmap" where
  "hm_put k v m = AList.update k v m"

definition hm_del :: "'k \<Rightarrow> ('k, 'v) hmap \<Rightarrow> ('k, 'v) hmap" where
  "hm_del k m = AList.delete k m"

definition hm_wf :: "('k, 'v) hmap \<Rightarrow> bool" where
  "hm_wf m \<longleftrightarrow> distinct (map fst m)"

definition hm_total :: "('k, nat) hmap \<Rightarrow> nat" where
  "hm_total m = sum_list (map snd m)"

definition hm_count :: "('v \<Rightarrow> bool) \<Rightarrow> ('k, 'v) hmap \<Rightarrow> nat" where
  "hm_count P m = length (filter (\<lambda>(k, v). P v) m)"

lemma hm_get_Nil [simp]: "hm_get [] k = None"
  by (simp add: hm_get_def)

lemma hm_get_put [hmap_simps]: "hm_get (hm_put k v m) k' = (if k' = k then Some v else hm_get m k')"
  by (simp add: hm_get_def hm_put_def update_conv')

lemma hm_get_del [hmap_simps]: "hm_get (hm_del k m) k' = (if k' = k then None else hm_get m k')"
  by (simp add: hm_get_def hm_del_def delete_conv')

lemma hm_put_same: "hm_get m k = Some v \<Longrightarrow> hm_put k v m = m"
  by (induction m) (auto simp: hm_get_def hm_put_def split: if_splits)

lemma hm_wf_Nil [simp]: "hm_wf []"
  by (simp add: hm_wf_def)

lemma hm_wf_put [simp, intro]: "hm_wf m \<Longrightarrow> hm_wf (hm_put k v m)"
  by (simp add: hm_wf_def hm_put_def distinct_update)

lemma hm_wf_del [simp, intro]: "hm_wf m \<Longrightarrow> hm_wf (hm_del k m)"
  by (simp add: hm_wf_def hm_del_def distinct_delete)

lemma hm_get_mem: "hm_wf m \<Longrightarrow> (k, v) \<in> set m \<longleftrightarrow> hm_get m k = Some v"
  by (auto simp: hm_wf_def hm_get_def dest: map_of_SomeD)

lemma hm_get_None: "hm_get m k = None \<longleftrightarrow> k \<notin> fst ` set m"
  by (simp add: hm_get_def map_of_eq_None_iff)

lemma hm_del_absent: "hm_get m k = None \<Longrightarrow> hm_del k m = m"
  by (simp add: hm_get_None hm_del_def)

lemma hm_total_Nil [simp]: "hm_total [] = 0"
  by (simp add: hm_total_def)

definition opt_size :: "nat option \<Rightarrow> nat" where
  "opt_size x = (case x of None \<Rightarrow> 0 | Some n \<Rightarrow> n)"

lemma opt_size_simps [simp]: "opt_size None = 0" "opt_size (Some n) = n"
  by (simp_all add: opt_size_def)

lemma hm_total_del:
  assumes "hm_wf m"
  shows "hm_total m = hm_total (hm_del k m) + opt_size (hm_get m k)"
  using assms
proof (induction m)
  case Nil
  then show ?case by (simp add: hm_del_def)
next
  case (Cons p m)
  obtain a b where p: "p = (a, b)" by (cases p)
  from Cons.prems p have wf: "hm_wf m" and a: "a \<notin> fst ` set m"
    by (simp_all add: hm_wf_def)
  have absent: "AList.delete a m = m"
    by (simp add: a)
  show ?case
  proof (cases "k = a")
    case True
    with p absent show ?thesis by (simp add: hm_total_def hm_del_def hm_get_def)
  next
    case False
    have "hm_total (p # m) = b + hm_total m" by (simp add: p hm_total_def)
    also have "hm_total m = hm_total (hm_del k m) + opt_size (hm_get m k)"
      by (rule Cons.IH [OF wf])
    finally show ?thesis
      using False by (simp add: p hm_total_def hm_del_def hm_get_def)
  qed
qed

lemma hm_total_put:
  assumes "hm_wf m"
  shows "hm_total (hm_put k v m) + opt_size (hm_get m k) = hm_total m + v"
  using assms
proof (induction m)
  case Nil
  then show ?case by (simp add: hm_total_def hm_put_def)
next
  case (Cons p m)
  obtain a b where p: "p = (a, b)" by (cases p)
  from Cons.prems have wf: "hm_wf m" by (simp add: hm_wf_def)
  show ?case
    using Cons.IH [OF wf] p
    by (auto simp: hm_total_def hm_put_def hm_get_def)
qed

lemma hm_total_put_absent:
  "hm_get m k = None \<Longrightarrow> hm_wf m \<Longrightarrow> hm_total (hm_put k v m) = hm_total m + v"
  using hm_total_put [of m k v] by simp

definition hm_map :: "('v \<Rightarrow> 'w) \<Rightarrow> ('k, 'v) hmap \<Rightarrow> ('k, 'w) hmap" where
  "hm_map f m = map (\<lambda>(k, v). (k, f v)) m"

lemma hm_get_map: "hm_get (hm_map f m) k = map_option f (hm_get m k)"
  by (induction m) (auto simp: hm_map_def hm_get_def)

lemma hm_wf_map [simp]: "hm_wf (hm_map f m) \<longleftrightarrow> hm_wf m"
  by (simp add: hm_wf_def hm_map_def case_prod_unfold comp_def)

lemma hm_total_mono:
  assumes "hm_wf s" and "hm_wf t"
    and "\<And>k n. hm_get s k = Some n \<Longrightarrow> \<exists>m. hm_get t k = Some m \<and> n \<le> m"
  shows "hm_total s \<le> hm_total t"
  using assms
proof (induction s arbitrary: t)
  case (Cons p s)
  obtain a b where p: "p = (a, b)" by (cases p)
  with Cons.prems(1) have wf: "hm_wf s" and a: "hm_get s a = None"
    by (auto simp: hm_wf_def hm_get_None)
  from Cons.prems(3) [of a b] p obtain m where m: "hm_get t a = Some m" "b \<le> m"
    by (auto simp: hm_get_def)
  have "hm_total s \<le> hm_total (hm_del a t)"
  proof (rule Cons.IH [OF wf])
    fix k n assume k: "hm_get s k = Some n"
    with a have "k \<noteq> a" by auto
    with k Cons.prems(3) [of k n] p show "\<exists>m. hm_get (hm_del a t) k = Some m \<and> n \<le> m"
      by (auto simp: hmap_simps) (auto simp: hm_get_def)
  qed (use Cons.prems in auto)
  with m p hm_total_del [OF Cons.prems(2), of a] show ?case
    by (simp add: hm_total_def)
qed simp

lemma hm_count_put_absent:
  "hm_get m k = None \<Longrightarrow> hm_count P (hm_put k v m) = hm_count P m + (if P v then 1 else 0)"
  by (induction m) (auto simp: hm_count_def hm_put_def hm_get_def split: if_splits)

section \<open>Ordered sets\<close>

fun bts_insert :: "'a::linorder \<Rightarrow> 'a list \<Rightarrow> 'a list" where
  "bts_insert x [] = [x]"
| "bts_insert x (y # ys) =
     (if x < y then x # y # ys else if x = y then y # ys else y # bts_insert x ys)"

definition bts_remove :: "'a \<Rightarrow> 'a list \<Rightarrow> 'a list" where
  "bts_remove x ys = filter (\<lambda>y. y \<noteq> x) ys"

definition bts_wf :: "'a::linorder list \<Rightarrow> bool" where
  "bts_wf xs \<longleftrightarrow> sorted_wrt (<) xs"

lemma set_bts_insert [bts_simps]: "set (bts_insert x xs) = insert x (set xs)"
  by (induction xs) auto

lemma set_bts_remove [bts_simps]: "set (bts_remove x xs) = set xs - {x}"
  by (auto simp: bts_remove_def)

lemma bts_wf_Nil [simp]: "bts_wf []"
  by (simp add: bts_wf_def)

lemma bts_wf_insert [simp, intro]: "bts_wf xs \<Longrightarrow> bts_wf (bts_insert x xs)"
  by (induction xs) (auto simp: bts_wf_def set_bts_insert)

lemma bts_wf_remove [simp, intro]: "bts_wf xs \<Longrightarrow> bts_wf (bts_remove x xs)"
  by (simp add: bts_wf_def bts_remove_def sorted_wrt_filter)

lemma bts_wf_distinct: "bts_wf xs \<Longrightarrow> distinct xs"
  by (simp add: bts_wf_def strict_sorted_iff)

lemma bts_wf_eqI: "bts_wf xs \<Longrightarrow> bts_wf ys \<Longrightarrow> set xs = set ys \<Longrightarrow> xs = ys"
  by (simp add: bts_wf_def strict_sorted_equal)

text \<open>
  The interface of an ordered set as its clients use it: elements come out in order, and two
  sets with the same elements are iterated the same way.
\<close>

locale ordered_set =
  fixes empty :: "'s"
    and insert :: "'a::linorder \<Rightarrow> 's \<Rightarrow> 's"
    and remove :: "'a \<Rightarrow> 's \<Rightarrow> 's"
    and elems :: "'s \<Rightarrow> 'a list"
    and invar :: "'s \<Rightarrow> bool"
  assumes elems_empty: "elems empty = []"
    and elems_insert: "invar s \<Longrightarrow> set (elems (insert x s)) = {x} \<union> set (elems s)"
    and elems_remove: "invar s \<Longrightarrow> set (elems (remove x s)) = set (elems s) - {x}"
    and elems_sorted: "invar s \<Longrightarrow> sorted_wrt (<) (elems s)"
    and invar_empty: "invar empty"
    and invar_insert: "invar s \<Longrightarrow> invar (insert x s)"
    and invar_remove: "invar s \<Longrightarrow> invar (remove x s)"
begin

lemma elems_eqI: "invar s \<Longrightarrow> invar t \<Longrightarrow> set (elems s) = set (elems t) \<Longrightarrow> elems s = elems t"
  by (simp add: strict_sorted_equal elems_sorted)

lemma insert_after_remove:
  "invar s \<Longrightarrow> x \<in> set (elems s) \<Longrightarrow> elems (insert x (remove x s)) = elems s"
  by (rule elems_eqI) (auto simp: elems_insert elems_remove invar_insert invar_remove)

lemma remove_after_insert:
  "invar s \<Longrightarrow> x \<notin> set (elems s) \<Longrightarrow> elems (remove x (insert x s)) = elems s"
  by (rule elems_eqI) (auto simp: elems_insert elems_remove invar_insert invar_remove)

lemma first_least:
  "invar s \<Longrightarrow> elems s = x # xs \<Longrightarrow> y \<in> set (elems s) \<Longrightarrow> x \<le> y"
  using elems_sorted [of s] by (auto simp: less_imp_le)

end

interpretation bts: ordered_set "[]" bts_insert bts_remove "\<lambda>xs. xs" bts_wf
  by unfold_locales (auto simp: bts_simps bts_wf_def sorted_wrt_filter
    intro: bts_wf_insert [unfolded bts_wf_def] bts_wf_remove [unfolded bts_wf_def])

lemma find_SomeD: "find P xs = Some x \<Longrightarrow> x \<in> set xs \<and> P x"
  by (auto simp: find_Some_iff)

text \<open>The first element of an ordered list that satisfies a predicate is the least one that does.\<close>

lemma find_least:
  assumes "bts_wf xs" and "find P xs = Some x"
  shows "x \<in> set xs" and "P x" and "\<And>y. y \<in> set xs \<Longrightarrow> P y \<Longrightarrow> x \<le> y"
proof -
  from assms(2) obtain i where i: "i < length xs" "P (xs ! i)" "x = xs ! i"
    and before: "\<And>j. j < i \<Longrightarrow> \<not> P (xs ! j)"
    by (auto simp: find_Some_iff)
  from i show "x \<in> set xs" and "P x" by simp_all
  fix y assume y: "y \<in> set xs" "P y"
  then obtain j where j: "j < length xs" "y = xs ! j"
    by (auto simp: in_set_conv_nth)
  with y before have "i \<le> j" by (meson not_less)
  with assms(1) i j show "x \<le> y"
    by (cases "i = j") (auto simp: bts_wf_def sorted_wrt_iff_nth_less intro: less_imp_le)
qed

section \<open>Interfaces\<close>

text \<open>
  A byte ledger: what every key is charged, and the running total that is kept beside it.
  Both of the queue's books (active tasks, retained finished tasks) are ledgers.
\<close>

locale byte_ledger =
  fixes sizes :: "'s \<Rightarrow> ('k, nat) hmap"
    and total :: "'s \<Rightarrow> nat"
    and charge :: "'k \<Rightarrow> nat \<Rightarrow> 's \<Rightarrow> 's"
    and discharge :: "'k \<Rightarrow> 's \<Rightarrow> 's"
    and room :: "nat \<Rightarrow> bool"
  assumes sizes_charge: "sizes (charge k n s) = hm_put k n (sizes s)"
    and total_charge: "room (total s + n) \<Longrightarrow> total (charge k n s) = total s + n"
    and sizes_discharge: "sizes (discharge k s) = hm_del k (sizes s)"
    and total_discharge: "total (discharge k s) = total s - opt_size (hm_get (sizes s) k)"
begin

definition exact :: "'s \<Rightarrow> bool" where
  "exact s \<longleftrightarrow> hm_wf (sizes s) \<and> total s = hm_total (sizes s)"

lemma exact_charge:
  assumes "exact s" and "hm_get (sizes s) k = None" and "room (total s + n)"
  shows "exact (charge k n s)"
  using assms by (simp add: exact_def sizes_charge total_charge hm_total_put_absent hm_wf_put)

lemma exact_discharge:
  assumes "exact s"
  shows "exact (discharge k s)"
  using assms hm_total_del [of "sizes s" k]
  by (simp add: exact_def sizes_discharge total_discharge hm_wf_del)

lemma discharge_absent: "hm_get (sizes (discharge k s)) k = None"
  by (simp add: sizes_discharge hmap_simps)

end

text \<open>A life cycle: no transition leaves a terminal state, and every other state can end.\<close>

locale lifecycle =
  fixes can_go :: "'a \<Rightarrow> 'a \<Rightarrow> bool"
    and terminal :: "'a \<Rightarrow> bool"
    and active :: "'a \<Rightarrow> bool"
  assumes terminal_stuck: "terminal a \<Longrightarrow> \<not> can_go a b"
    and active_not_terminal: "active a \<Longrightarrow> \<not> terminal a"
    and can_end: "\<not> terminal a \<Longrightarrow> \<exists>b. can_go a b \<and> terminal b"
begin

lemma terminal_absorbing: "can_go\<^sup>*\<^sup>* a b \<Longrightarrow> terminal a \<Longrightarrow> b = a"
  by (induction rule: rtranclp_induct) (auto simp: terminal_stuck)

lemma terminal_iff_stuck: "terminal a \<longleftrightarrow> (\<forall>b. \<not> can_go a b)"
  using terminal_stuck can_end by blast

end

text \<open>Reachable states of a transition system, and the invariant rule.\<close>

inductive reach :: "('s \<Rightarrow> bool) \<Rightarrow> ('s \<Rightarrow> 's \<Rightarrow> bool) \<Rightarrow> 's \<Rightarrow> bool" for init step where
  reach_init: "init s \<Longrightarrow> reach init step s"
| reach_step: "reach init step s \<Longrightarrow> step s t \<Longrightarrow> reach init step t"

locale invariant_system =
  fixes init :: "'s \<Rightarrow> bool"
    and step :: "'s \<Rightarrow> 's \<Rightarrow> bool"
    and inv :: "'s \<Rightarrow> bool"
  assumes inv_init: "init s \<Longrightarrow> inv s"
    and inv_step: "step s t \<Longrightarrow> inv s \<Longrightarrow> inv t"
begin

lemma reach_inv: "reach init step s \<Longrightarrow> inv s"
  by (induction rule: reach.induct) (auto intro: inv_init inv_step)

lemma steps_inv: "step\<^sup>*\<^sup>* s t \<Longrightarrow> inv s \<Longrightarrow> inv t"
  by (induction rule: rtranclp_induct) (auto intro: inv_step)

end

end
