(* ===== verification/Rust_Text.thy ===== *)
theory Rust_Text
  imports Prelude "HOL-Library.Char_ord" "HOL-Library.List_Lexorder"
begin

text \<open>
  The operations of Rust's \<^verbatim>\<open>str\<close>, \<^verbatim>\<open>String\<close> and \<^verbatim>\<open>[u8]\<close> the program uses. A Rust string is
  its UTF-8 bytes, so \<^verbatim>\<open>len()\<close> is \<^const>\<open>length\<close>; a HOL \<^typ>\<open>char\<close> is one byte. Operations on
  Unicode characters (\<^verbatim>\<open>trim\<close>, \<^verbatim>\<open>chars\<close>, \<^verbatim>\<open>is_whitespace\<close>) work on the encodings of the
  characters. Comparison of strings is bytewise, as in Rust.
\<close>

type_synonym bytes = string

section \<open>UTF-8\<close>

definition byte_in :: "nat \<Rightarrow> nat \<Rightarrow> char \<Rightarrow> bool" where
  "byte_in lo hi c \<longleftrightarrow> lo \<le> of_char c \<and> of_char c \<le> hi"

text \<open>The ranges the bytes after a leading byte must lie in, or None for an invalid leading byte.\<close>

definition utf8_tail :: "char \<Rightarrow> (nat \<times> nat) list option" where
  "utf8_tail b =
     (if byte_in 0x00 0x7F b then Some []
      else if byte_in 0xC2 0xDF b then Some [(0x80, 0xBF)]
      else if byte_in 0xE0 0xE0 b then Some [(0xA0, 0xBF), (0x80, 0xBF)]
      else if byte_in 0xED 0xED b then Some [(0x80, 0x9F), (0x80, 0xBF)]
      else if byte_in 0xE1 0xEF b then Some [(0x80, 0xBF), (0x80, 0xBF)]
      else if byte_in 0xF0 0xF0 b then Some [(0x90, 0xBF), (0x80, 0xBF), (0x80, 0xBF)]
      else if byte_in 0xF1 0xF3 b then Some [(0x80, 0xBF), (0x80, 0xBF), (0x80, 0xBF)]
      else if byte_in 0xF4 0xF4 b then Some [(0x80, 0x8F), (0x80, 0xBF), (0x80, 0xBF)]
      else None)"

fun utf8_match_tail :: "(nat \<times> nat) list \<Rightarrow> bytes \<Rightarrow> bool \<times> nat" where
  "utf8_match_tail [] bs = (True, 0)"
| "utf8_match_tail ((lo, hi) # rs) [] = (False, 0)"
| "utf8_match_tail ((lo, hi) # rs) (b # bs) =
     (if byte_in lo hi b then map_prod id Suc (utf8_match_tail rs bs) else (False, 0))"

text \<open>
  One step of the decoder on the bytes \<open>b # bs\<close>: whether they start with a well-formed
  character, and how many bytes after \<open>b\<close> belong to it (or to the maximal invalid sequence).
\<close>

definition utf8_step :: "char \<Rightarrow> bytes \<Rightarrow> bool \<times> nat" where
  "utf8_step b bs =
     (case utf8_tail b of None \<Rightarrow> (False, 0) | Some rs \<Rightarrow> utf8_match_tail rs bs)"

fun from_utf8_lossy :: "bytes \<Rightarrow> string" where
  "from_utf8_lossy [] = []"
| "from_utf8_lossy (b # bs) =
     (let (ok, n) = utf8_step b bs
      in (if ok then b # take n bs else [CHR 0xEF, CHR 0xBF, CHR 0xBD])
           @ from_utf8_lossy (drop n bs))"

text \<open>\<^verbatim>\<open>Utf8Error::valid_up_to\<close>: the length of the longest well-formed prefix.\<close>

fun utf8_valid_up_to :: "bytes \<Rightarrow> nat" where
  "utf8_valid_up_to [] = 0"
| "utf8_valid_up_to (b # bs) =
     (let (ok, n) = utf8_step b bs
      in if ok then Suc n + utf8_valid_up_to (drop n bs) else 0)"

definition utf8_ok :: "bytes \<Rightarrow> bool" where
  "utf8_ok bs \<longleftrightarrow> utf8_valid_up_to bs = length bs"

text \<open>\<^verbatim>\<open>str::chars\<close> on a well-formed string, each character as its encoding.\<close>

fun utf8_chars :: "string \<Rightarrow> string list" where
  "utf8_chars [] = []"
| "utf8_chars (b # bs) =
     (let n = snd (utf8_step b bs) in (b # take n bs) # utf8_chars (drop n bs))"

lemma utf8_match_tail_bound: "snd (utf8_match_tail rs bs) \<le> length bs"
  by (induction rs bs rule: utf8_match_tail.induct) auto

lemma utf8_step_bound: "snd (utf8_step b bs) \<le> length bs"
  by (simp add: utf8_step_def utf8_match_tail_bound split: option.splits)

lemma utf8_valid_up_to_bound: "utf8_valid_up_to bs \<le> length bs"
proof (induction bs rule: utf8_valid_up_to.induct)
  case (2 b bs)
  obtain ok n where s: "utf8_step b bs = (ok, n)" by (cases "utf8_step b bs")
  with utf8_step_bound [of b bs] have "n \<le> length bs" by simp
  with 2 [OF s [symmetric] refl] s show ?case by (cases ok) auto
qed simp

lemma utf8_ok_Cons:
  "utf8_ok (b # bs) \<longleftrightarrow> fst (utf8_step b bs) \<and> utf8_ok (drop (snd (utf8_step b bs)) bs)"
proof -
  obtain ok n where s: "utf8_step b bs = (ok, n)" by (cases "utf8_step b bs")
  with utf8_step_bound [of b bs] have "n \<le> length bs" by simp
  with s show ?thesis by (auto simp: utf8_ok_def)
qed

lemma from_utf8_lossy_ok: "utf8_ok bs \<Longrightarrow> from_utf8_lossy bs = bs"
proof (induction bs rule: from_utf8_lossy.induct)
  case (2 b bs)
  obtain ok n where s: "utf8_step b bs = (ok, n)" by (cases "utf8_step b bs")
  with 2 show ?case by (auto simp: utf8_ok_Cons)
qed simp

lemma concat_utf8_chars: "concat (utf8_chars s) = s"
  by (induction s rule: utf8_chars.induct) (auto simp: Let_def)

lemma utf8_match_tail_take:
  "fst (utf8_match_tail rs bs) \<Longrightarrow> utf8_match_tail rs (take (snd (utf8_match_tail rs bs)) bs @ cs)
     = utf8_match_tail rs bs"
  by (induction rs bs rule: utf8_match_tail.induct) (auto split: if_splits)

lemma utf8_step_take:
  "fst (utf8_step b bs) \<Longrightarrow> utf8_step b (take (snd (utf8_step b bs)) bs @ cs) = utf8_step b bs"
  by (auto simp: utf8_step_def utf8_match_tail_take split: option.splits)

lemma utf8_ok_valid_prefix: "utf8_ok (take (utf8_valid_up_to bs) bs)"
proof (induction bs rule: utf8_valid_up_to.induct)
  case 1
  then show ?case by (simp add: utf8_ok_def)
next
  case (2 b bs)
  obtain ok n where s: "utf8_step b bs = (ok, n)" by (cases "utf8_step b bs")
  show ?case
  proof (cases ok)
    case True
    let ?v = "utf8_valid_up_to (drop n bs)"
    have n: "n \<le> length bs" using utf8_step_bound [of b bs] s by simp
    have t: "take (n + ?v) bs = take n bs @ take ?v (drop n bs)"
      by (simp add: take_add)
    have "utf8_step b (take (n + ?v) bs) = (True, n)"
      using utf8_step_take [of b bs "take ?v (drop n bs)"] s True t by simp
    moreover have "drop n (take (n + ?v) bs) = take ?v (drop n bs)"
      using n by (simp add: t)
    moreover have "utf8_ok (take ?v (drop n bs))"
      using 2 s True by simp
    ultimately show ?thesis
      using s True by (simp add: utf8_ok_Cons)
  next
    case False
    then show ?thesis by (simp add: s utf8_ok_def)
  qed
qed

section \<open>Trimming\<close>

text \<open>The encodings of the characters with the Unicode property \<^verbatim>\<open>White_Space\<close>.\<close>

definition rust_ws :: "string list" where
  "rust_ws =
     [[CHR 0x09], [CHR 0x0A], [CHR 0x0B], [CHR 0x0C], [CHR 0x0D], [CHR 0x20],
      [CHR 0xC2, CHR 0x85], [CHR 0xC2, CHR 0xA0], [CHR 0xE1, CHR 0x9A, CHR 0x80],
      [CHR 0xE2, CHR 0x80, CHR 0x80], [CHR 0xE2, CHR 0x80, CHR 0x81],
      [CHR 0xE2, CHR 0x80, CHR 0x82], [CHR 0xE2, CHR 0x80, CHR 0x83],
      [CHR 0xE2, CHR 0x80, CHR 0x84], [CHR 0xE2, CHR 0x80, CHR 0x85],
      [CHR 0xE2, CHR 0x80, CHR 0x86], [CHR 0xE2, CHR 0x80, CHR 0x87],
      [CHR 0xE2, CHR 0x80, CHR 0x88], [CHR 0xE2, CHR 0x80, CHR 0x89],
      [CHR 0xE2, CHR 0x80, CHR 0x8A], [CHR 0xE2, CHR 0x80, CHR 0xA8],
      [CHR 0xE2, CHR 0x80, CHR 0xA9], [CHR 0xE2, CHR 0x80, CHR 0xAF],
      [CHR 0xE2, CHR 0x81, CHR 0x9F], [CHR 0xE3, CHR 0x80, CHR 0x80]]"

definition front_match :: "string list \<Rightarrow> string \<Rightarrow> string option" where
  "front_match P s = find (\<lambda>w. w \<noteq> [] \<and> prefix w s) P"

lemma front_match_Some: "front_match P s = Some w \<Longrightarrow> w \<in> set P \<and> w \<noteq> [] \<and> prefix w s"
  by (auto simp: front_match_def find_Some_iff)

lemma front_match_None: "front_match P s = None \<longleftrightarrow> (\<forall>w \<in> set P. w \<noteq> [] \<longrightarrow> \<not> prefix w s)"
  by (auto simp: front_match_def find_None_iff)

function strip_front :: "string list \<Rightarrow> string \<Rightarrow> string" where
  "strip_front P s =
     (case front_match P s of None \<Rightarrow> s | Some w \<Rightarrow> strip_front P (drop (length w) s))"
  by pat_completeness auto
termination
  by (relation "measure (\<lambda>(P, s). length s)")
    (auto dest!: front_match_Some simp: prefix_def)

declare strip_front.simps [simp del]

definition trim_start :: "string \<Rightarrow> string" where
  "trim_start s = strip_front rust_ws s"

definition trim_end :: "string \<Rightarrow> string" where
  "trim_end s = rev (strip_front (map rev rust_ws) (rev s))"

definition trim :: "string \<Rightarrow> string" where
  "trim s = trim_end (trim_start s)"

definition is_ws_char :: "string \<Rightarrow> bool" where
  "is_ws_char c \<longleftrightarrow> c \<in> set rust_ws"

lemma strip_front_done: "front_match P (strip_front P s) = None"
proof (induction P s rule: strip_front.induct)
  case (1 P s)
  then show ?case by (cases "front_match P s") (simp_all add: strip_front.simps [of P s])
qed

lemma strip_front_id: "front_match P s = None \<Longrightarrow> strip_front P s = s"
  by (simp add: strip_front.simps [of P s])

lemma strip_front_suffix: "suffix (strip_front P s) s"
proof (induction P s rule: strip_front.induct)
  case (1 P s)
  show ?case
  proof (cases "front_match P s")
    case None
    then show ?thesis by (simp add: strip_front_id)
  next
    case (Some w)
    with 1 have "suffix (strip_front P (drop (length w) s)) (drop (length w) s)" by simp
    then have "suffix (strip_front P (drop (length w) s)) s"
      by (rule suffix_order.order_trans) (rule suffix_drop)
    with Some show ?thesis by (simp add: strip_front.simps [of P s])
  qed
qed

lemma front_match_prefix: "front_match P s = None \<Longrightarrow> prefix t s \<Longrightarrow> front_match P t = None"
  by (auto simp: front_match_None prefix_def)

lemma trim_end_prefix: "prefix (trim_end s) s"
  using strip_front_suffix [of "map rev rust_ws" "rev s"]
  by (simp add: trim_end_def suffix_to_prefix)

lemma trim_start_suffix: "suffix (trim_start s) s"
  by (simp add: trim_start_def strip_front_suffix)

text \<open>A string is trimmed when no white-space character is at either end.\<close>

definition trimmed :: "string \<Rightarrow> bool" where
  "trimmed s \<longleftrightarrow> front_match rust_ws s = None \<and> front_match (map rev rust_ws) (rev s) = None"

lemma trimmed_trim: "trimmed (trim s)"
  unfolding trimmed_def trim_def
proof
  show "front_match rust_ws (trim_end (trim_start s)) = None"
    by (rule front_match_prefix [OF _ trim_end_prefix]) (simp add: trim_start_def strip_front_done)
  show "front_match (map rev rust_ws) (rev (trim_end (trim_start s))) = None"
    by (simp add: trim_end_def strip_front_done)
qed

lemma trim_trimmed: "trimmed s \<Longrightarrow> trim s = s"
  by (simp add: trimmed_def trim_def trim_start_def trim_end_def strip_front_id)

lemma trim_idem [simp]: "trim (trim s) = trim s"
  by (rule trim_trimmed) (rule trimmed_trim)

lemma set_trim: "set (trim s) \<subseteq> set s"
  using set_mono_prefix [OF trim_end_prefix [of "trim_start s"]]
    set_mono_suffix [OF trim_start_suffix [of s]]
  by (simp add: trim_def)

lemma trim_Nil [simp]: "trim [] = []"
  using set_trim [of "[]"] by simp

text \<open>\<^verbatim>\<open>trim_end_matches\<close> with a set of ASCII characters.\<close>

definition trim_end_matches :: "char list \<Rightarrow> string \<Rightarrow> string" where
  "trim_end_matches cs s = rev (dropWhile (\<lambda>c. c \<in> set cs) (rev s))"

section \<open>Searching and splitting\<close>

definition starts_with :: "string \<Rightarrow> string \<Rightarrow> bool" where
  "starts_with s p \<longleftrightarrow> prefix p s"

definition strip_prefix :: "string \<Rightarrow> string \<Rightarrow> string option" where
  "strip_prefix p s = (if prefix p s then Some (drop (length p) s) else None)"

fun contains_str :: "string \<Rightarrow> string \<Rightarrow> bool" where
  "contains_str [] n = (n = [])"
| "contains_str (c # s) n = (prefix n (c # s) \<or> contains_str s n)"

definition replace_char :: "char \<Rightarrow> char \<Rightarrow> string \<Rightarrow> string" where
  "replace_char a b s = map (\<lambda>c. if c = a then b else c) s"

lemma set_replace_char: "set (replace_char a b s) \<subseteq> insert b (set s - {a})"
  by (auto simp: replace_char_def)

fun split_on :: "char \<Rightarrow> string \<Rightarrow> string list" where
  "split_on d [] = [[]]"
| "split_on d (c # s) =
     (if c = d then [] # split_on d s
      else (case split_on d s of [] \<Rightarrow> [[c]] | x # xs \<Rightarrow> (c # x) # xs))"

definition split_once :: "char \<Rightarrow> string \<Rightarrow> (string \<times> string) option" where
  "split_once d s =
     (if d \<in> set s then Some (takeWhile (\<lambda>c. c \<noteq> d) s, tl (dropWhile (\<lambda>c. c \<noteq> d) s))
      else None)"

fun join :: "string \<Rightarrow> string list \<Rightarrow> string" where
  "join sep [] = []"
| "join sep [x] = x"
| "join sep (x # y # ys) = x @ sep @ join sep (y # ys)"

lemma strip_prefix_append [simp]: "strip_prefix p (p @ s) = Some s"
  by (simp add: strip_prefix_def)

lemma strip_prefix_Some: "strip_prefix p s = Some t \<longleftrightarrow> s = p @ t"
  by (auto simp: strip_prefix_def prefix_def)

lemma split_once_append: "d \<notin> set a \<Longrightarrow> split_once d (a @ d # b) = Some (a, b)"
  by (simp add: split_once_def takeWhile_append dropWhile_append)

lemma split_on_ne [simp]: "split_on d s \<noteq> []"
  by (induction s) (auto split: list.splits)

lemma split_on_clean: "x \<in> set (split_on d s) \<Longrightarrow> d \<notin> set x \<and> set x \<subseteq> set s"
proof (induction s arbitrary: x)
  case (Cons c s)
  obtain y ys where s: "split_on d s = y # ys" by (cases "split_on d s") simp_all
  show ?case
  proof (cases "c = d")
    case True
    with Cons show ?thesis by auto
  next
    case False
    with Cons.prems s have "x = c # y \<or> x \<in> set ys" by auto
    with Cons.IH [of y] Cons.IH [of x] s False show ?thesis by auto
  qed
qed simp

lemma split_on_none: "d \<notin> set s \<Longrightarrow> split_on d s = [s]"
  by (induction s) auto

lemma split_on_append: "d \<notin> set a \<Longrightarrow> split_on d (a @ d # b) = a # split_on d b"
  by (induction a) auto

lemma split_on_join:
  "ss \<noteq> [] \<Longrightarrow> \<forall>x \<in> set ss. d \<notin> set x \<Longrightarrow> split_on d (join [d] ss) = ss"
  by (induction "[d]" ss rule: join.induct) (auto simp: split_on_none split_on_append)

lemma join_split_on: "join [d] (split_on d s) = s"
proof (induction s)
  case (Cons c s)
  obtain y ys where s: "split_on d s = y # ys" by (cases "split_on d s") simp_all
  with Cons show ?case by (cases ys) auto
qed simp

lemma set_join: "set (join sep ss) \<subseteq> set sep \<union> \<Union> (set ` set ss)"
  by (induction sep ss rule: join.induct) auto

section \<open>ASCII case and decimal numbers\<close>

definition ascii_upper :: string where
  "ascii_upper = ''ABCDEFGHIJKLMNOPQRSTUVWXYZ''"

definition ascii_lower :: string where
  "ascii_lower = ''abcdefghijklmnopqrstuvwxyz''"

definition to_lower_char :: "char \<Rightarrow> char" where
  "to_lower_char c = (case map_of (zip ascii_upper ascii_lower) c of None \<Rightarrow> c | Some d \<Rightarrow> d)"

definition to_upper_char :: "char \<Rightarrow> char" where
  "to_upper_char c = (case map_of (zip ascii_lower ascii_upper) c of None \<Rightarrow> c | Some d \<Rightarrow> d)"

definition to_ascii_lowercase :: "string \<Rightarrow> string" where
  "to_ascii_lowercase s = map to_lower_char s"

definition to_ascii_uppercase :: "string \<Rightarrow> string" where
  "to_ascii_uppercase s = map to_upper_char s"

definition eq_ignore_ascii_case :: "string \<Rightarrow> string \<Rightarrow> bool" where
  "eq_ignore_ascii_case a b \<longleftrightarrow> to_ascii_lowercase a = to_ascii_lowercase b"

fun show_nat :: "nat \<Rightarrow> string" where
  "show_nat n =
     (if n < 10 then [''0123456789'' ! n] else show_nat (n div 10) @ [''0123456789'' ! (n mod 10)])"

declare show_nat.simps [simp del]

lemma lower_not_upper: "\<forall>d \<in> set ascii_lower. map_of (zip ascii_upper ascii_lower) d = None"
  by code_simp

lemma to_lower_char_idem: "to_lower_char (to_lower_char c) = to_lower_char c"
proof (cases "map_of (zip ascii_upper ascii_lower) c")
  case None
  then show ?thesis by (simp add: to_lower_char_def)
next
  case (Some d)
  then have "d \<in> set ascii_lower"
    by (auto dest!: map_of_SomeD dest: set_zip_rightD)
  then have "map_of (zip ascii_upper ascii_lower) d = None"
    by (simp add: lower_not_upper)
  with Some show ?thesis by (simp add: to_lower_char_def)
qed

lemma to_ascii_lowercase_idem [simp]:
  "to_ascii_lowercase (to_ascii_lowercase s) = to_ascii_lowercase s"
  by (simp add: to_ascii_lowercase_def to_lower_char_idem)

end
