(* ===== verification/Blob_Model.thy ===== *)
theory Blob_Model
  imports Rust_Text
begin

text \<open>
  Content-addressed inputs and outputs of a task (\<^verbatim>\<open>crates/core/src/blob.rs\<close>): canonical
  relative paths, directory manifests, task inputs and output patterns. The BLAKE3 hash and
  the bincode serializer are third-party code and appear as arguments of the definitions that
  call them. A message of the code is a constructor of the error type, with the parts it
  interpolates.
\<close>

section \<open>Paths\<close>

definition MAX_MANIFEST_BYTES :: nat where "MAX_MANIFEST_BYTES = 64 * 1024 * 1024"
definition MAX_TREE_FILES :: nat where "MAX_TREE_FILES = 500000"
definition MAX_TASK_INPUTS :: nat where "MAX_TASK_INPUTS = 1024"
definition MAX_OUTPUT_PATTERNS :: nat where "MAX_OUTPUT_PATTERNS = 256"
definition MAX_BLOB_PATH_BYTES :: nat where "MAX_BLOB_PATH_BYTES = 4096"
definition MAX_PATH_SEGMENT_BYTES :: nat where "MAX_PATH_SEGMENT_BYTES = 255"
definition SANDBOX_ROOT :: string where "SANDBOX_ROOT = ''.''"

lemmas blob_limits = MAX_MANIFEST_BYTES_def MAX_TREE_FILES_def MAX_TASK_INPUTS_def
  MAX_OUTPUT_PATTERNS_def MAX_BLOB_PATH_BYTES_def MAX_PATH_SEGMENT_BYTES_def SANDBOX_ROOT_def

datatype blob_error =
    EmptyPath
  | PathTooLong
  | PathAbsolute string
  | PathBadChar string char
  | PathEmptySegment string
  | PathDotSegment string string
  | PathSegmentTooLong string
  | TooManyFiles nat
  | ListedTwice string
  | FileAndDirectory string string
  | ManifestTooLarge nat
  | UnknownHeader
  | CorruptManifest
  | ManifestNotSorted
  | InputDestination blob_error
  | TooManyInputs nat
  | DestinationUsedTwice string
  | EmptyPattern
  | PatternTooLong
  | PatternNul
  | PatternAbsolute string
  | PatternColon string
  | PatternDotDot string
  | PatternNamesRoot string
  | TooManyPatterns nat

fun check_segments :: "string \<Rightarrow> string list \<Rightarrow> blob_error + unit" where
  "check_segments path [] = Inr ()"
| "check_segments path (seg # rest) =
     (if seg = [] then Inl (PathEmptySegment path)
      else if seg = ''.'' \<or> seg = ''..'' then Inl (PathDotSegment path seg)
      else if length seg > MAX_PATH_SEGMENT_BYTES then Inl (PathSegmentTooLong path)
      else check_segments path rest)"

definition validate_blob_path :: "string \<Rightarrow> blob_error + unit" where
  "validate_blob_path path =
     (if path = [] then Inl EmptyPath
      else if length path > MAX_BLOB_PATH_BYTES then Inl PathTooLong
      else if starts_with path ''/'' then Inl (PathAbsolute path)
      else case find (\<lambda>c. c = CHR 0x5C \<or> c = CHR '':'' \<or> c = CHR 0x00) path of
             Some c \<Rightarrow> Inl (PathBadChar path c)
           | None \<Rightarrow> check_segments path (split_on CHR ''/'' path))"

definition join_blob_path :: "string \<Rightarrow> string \<Rightarrow> string" where
  "join_blob_path base path = (if base = SANDBOX_ROOT then path else base @ ''/'' @ path)"

text \<open>What a canonical relative path is, stated without the order of the checks.\<close>

definition good_segment :: "string \<Rightarrow> bool" where
  "good_segment seg \<longleftrightarrow> seg \<noteq> [] \<and> seg \<noteq> ''.'' \<and> seg \<noteq> ''..'' \<and> length seg \<le> MAX_PATH_SEGMENT_BYTES"

definition canonical_path :: "string \<Rightarrow> bool" where
  "canonical_path path \<longleftrightarrow>
     length path \<le> MAX_BLOB_PATH_BYTES
     \<and> CHR 0x5C \<notin> set path \<and> CHR '':'' \<notin> set path \<and> CHR 0x00 \<notin> set path
     \<and> (\<forall>seg \<in> set (split_on CHR ''/'' path). good_segment seg)"

lemma check_segments_ok: "check_segments path segs = Inr u \<longleftrightarrow> (\<forall>seg \<in> set segs. good_segment seg)"
  by (induction path segs rule: check_segments.induct) (auto simp: good_segment_def)

lemma split_absolute: "starts_with path ''/'' \<Longrightarrow> [] \<in> set (split_on CHR ''/'' path)"
  by (cases path) (auto simp: starts_with_def)

lemma validate_blob_path_iff: "validate_blob_path path = Inr u \<longleftrightarrow> canonical_path path"
proof (cases "find (\<lambda>c. c = CHR 0x5C \<or> c = CHR '':'' \<or> c = CHR 0x00) path")
  case None
  then have "CHR 0x5C \<notin> set path" "CHR '':'' \<notin> set path" "CHR 0x00 \<notin> set path"
    by (auto simp: find_None_iff)
  with None show ?thesis
    using split_absolute [of path]
    by (auto simp: validate_blob_path_def canonical_path_def check_segments_ok good_segment_def)
next
  case (Some c)
  then have "c \<in> set path" "c = CHR 0x5C \<or> c = CHR '':'' \<or> c = CHR 0x00"
    by (auto dest: find_SomeD)
  with Some show ?thesis
    by (auto simp: validate_blob_path_def canonical_path_def)
qed

section \<open>Directory manifests\<close>

type_synonym blob_id = bytes

record BlobFile =
  bf_path :: string
  bf_id :: blob_id
  bf_size :: nat
  bf_executable :: bool

text \<open>\<^verbatim>\<open>match_indices('/')\<close>: the part of the path before each of its slashes.\<close>

definition path_parents :: "string \<Rightarrow> string list" where
  "path_parents path = map (\<lambda>i. take i path) (filter (\<lambda>i. path ! i = CHR ''/'') [0..<length path])"

fun insert_paths :: "BlobFile list \<Rightarrow> string list \<Rightarrow> blob_error + string list" where
  "insert_paths [] paths = Inr paths"
| "insert_paths (f # fs) paths =
     (case validate_blob_path (bf_path f) of
        Inl e \<Rightarrow> Inl e
      | Inr _ \<Rightarrow> if bf_path f \<in> set paths then Inl (ListedTwice (bf_path f))
               else insert_paths fs (bf_path f # paths))"

fun check_parents :: "string list \<Rightarrow> BlobFile list \<Rightarrow> blob_error + unit" where
  "check_parents paths [] = Inr ()"
| "check_parents paths (f # fs) =
     (case find (\<lambda>parent. parent \<in> set paths) (path_parents (bf_path f)) of
        Some parent \<Rightarrow> Inl (FileAndDirectory parent (bf_path f))
      | None \<Rightarrow> check_parents paths fs)"

definition manifest_validate :: "BlobFile list \<Rightarrow> blob_error + unit" where
  "manifest_validate files =
     (if length files > MAX_TREE_FILES then Inl (TooManyFiles (length files))
      else case insert_paths files [] of
             Inl e \<Rightarrow> Inl e
           | Inr paths \<Rightarrow> check_parents paths files)"

definition manifest_new :: "BlobFile list \<Rightarrow> blob_error + BlobFile list" where
  "manifest_new files =
     (let sorted = sort_key bf_path files
      in case manifest_validate sorted of Inl e \<Rightarrow> Inl e | Inr _ \<Rightarrow> Inr sorted)"

definition manifest_total_size :: "BlobFile list \<Rightarrow> nat" where
  "manifest_total_size files = sum_list (map bf_size files)"

definition MANIFEST_MAGIC :: bytes where
  "MANIFEST_MAGIC = ''oxideswarm-tree/1'' @ [CHR 0x0A]"

definition manifest_encode :: "(BlobFile list \<Rightarrow> bytes) \<Rightarrow> BlobFile list \<Rightarrow> bytes" where
  "manifest_encode serialize files = MANIFEST_MAGIC @ serialize files"

fun strictly_ascending :: "BlobFile list \<Rightarrow> bool" where
  "strictly_ascending (a # b # fs) \<longleftrightarrow> bf_path a < bf_path b \<and> strictly_ascending (b # fs)"
| "strictly_ascending _ \<longleftrightarrow> True"

definition manifest_decode :: "(bytes \<Rightarrow> BlobFile list option) \<Rightarrow> bytes \<Rightarrow> blob_error + BlobFile list" where
  "manifest_decode deserialize bs =
     (if length bs > MAX_MANIFEST_BYTES then Inl (ManifestTooLarge (length bs))
      else case strip_prefix MANIFEST_MAGIC bs of
             None \<Rightarrow> Inl UnknownHeader
           | Some body \<Rightarrow>
               (case deserialize body of
                  None \<Rightarrow> Inl CorruptManifest
                | Some files \<Rightarrow>
                    if \<not> strictly_ascending files then Inl ManifestNotSorted
                    else case manifest_validate files of Inl e \<Rightarrow> Inl e | Inr _ \<Rightarrow> Inr files))"

text \<open>
  What a directory tree must satisfy: canonical paths, sorted, no path twice, and no file that
  is an ancestor directory of another one (a proper prefix of its segments).
\<close>

definition well_formed_tree :: "BlobFile list \<Rightarrow> bool" where
  "well_formed_tree files \<longleftrightarrow>
     length files \<le> MAX_TREE_FILES
     \<and> sorted_wrt (<) (map bf_path files)
     \<and> (\<forall>f \<in> set files. canonical_path (bf_path f))
     \<and> (\<forall>f \<in> set files. \<forall>g \<in> set files.
          \<not> strict_prefix (split_on CHR ''/'' (bf_path f)) (split_on CHR ''/'' (bf_path g)))"

lemma insert_paths_ok:
  "insert_paths fs paths = Inr ps \<Longrightarrow>
     set ps = bf_path ` set fs \<union> set paths \<and> distinct (map bf_path fs)
     \<and> (\<forall>f \<in> set fs. canonical_path (bf_path f) \<and> bf_path f \<notin> set paths)"
proof (induction fs paths rule: insert_paths.induct)
  case (2 f fs paths)
  then show ?case
    by (cases "validate_blob_path (bf_path f)") (auto split: if_splits simp: validate_blob_path_iff)
qed simp

lemma insert_paths_complete:
  "distinct (map bf_path fs) \<Longrightarrow> (\<forall>f \<in> set fs. canonical_path (bf_path f) \<and> bf_path f \<notin> set paths)
     \<Longrightarrow> \<exists>ps. insert_paths fs paths = Inr ps"
proof (induction fs paths rule: insert_paths.induct)
  case (2 f fs paths)
  from 2(3) have v: "validate_blob_path (bf_path f) = Inr ()"
    by (simp add: validate_blob_path_iff)
  moreover have "\<forall>g \<in> set fs. bf_path g \<noteq> bf_path f"
    using 2(2) by (simp add: image_iff) metis
  then have "\<exists>ps. insert_paths fs (bf_path f # paths) = Inr ps"
    using 2 v by auto
  ultimately show ?case using 2(3) by simp
qed simp

lemma check_parents_ok:
  "check_parents paths fs = Inr u \<longleftrightarrow>
     (\<forall>f \<in> set fs. \<forall>p \<in> set (path_parents (bf_path f)). p \<notin> set paths)"
  by (induction paths fs rule: check_parents.induct)
    (auto simp: find_None_iff find_Some_iff split: option.splits)

lemma split_on_snoc: "split_on d (a @ d # b) = split_on d a @ split_on d b"
proof (induction a)
  case (Cons c a)
  obtain y ys where "split_on d a = y # ys" by (cases "split_on d a") simp_all
  with Cons show ?case by auto
qed simp

lemma split_on_inject: "split_on d a = split_on d b \<Longrightarrow> a = b"
  by (metis join_split_on)

lemma join_append:
  "xs \<noteq> [] \<Longrightarrow> ys \<noteq> [] \<Longrightarrow> join sep (xs @ ys) = join sep xs @ sep @ join sep ys"
proof (induction sep xs rule: join.induct)
  case (2 sep x)
  then show ?case by (cases ys) simp_all
qed simp_all

text \<open>The parents of a path are exactly the paths whose segments are a proper prefix of its own.\<close>

lemma path_parents_iff:
  "p \<in> set (path_parents path) \<longleftrightarrow>
     strict_prefix (split_on CHR ''/'' p) (split_on CHR ''/'' path)" (is "?L \<longleftrightarrow> ?R")
proof
  assume ?L
  then obtain i where i: "i < length path" "path ! i = CHR ''/''" "p = take i path"
    by (auto simp: path_parents_def)
  then have "path = p @ CHR ''/'' # drop (Suc i) path"
    by (metis id_take_nth_drop)
  then have "split_on CHR ''/'' path = split_on CHR ''/'' p @ split_on CHR ''/'' (drop (Suc i) path)"
    by (metis split_on_snoc)
  then show ?R by (simp add: strict_prefix_def)
next
  assume ?R
  then obtain rest where rest: "split_on CHR ''/'' path = split_on CHR ''/'' p @ rest" "rest \<noteq> []"
    by (auto simp: strict_prefix_def prefix_def)
  then have "path = p @ ''/'' @ join ''/'' rest"
    using join_append [of "split_on CHR ''/'' p" rest "''/''"]
    by (metis join_split_on split_on_ne)
  then show ?L
    by (auto simp: path_parents_def nth_append intro!: image_eqI [where x = "length p"])
qed

lemma sorted_key_strict:
  "distinct (map bf_path fs) \<Longrightarrow> sorted (map bf_path fs) \<Longrightarrow> sorted_wrt (<) (map bf_path fs)"
  by (simp add: strict_sorted_iff)

lemma manifest_validate_iff:
  assumes "sorted (map bf_path files)"
  shows "manifest_validate files = Inr u \<longleftrightarrow> well_formed_tree files"
proof
  assume ok: "manifest_validate files = Inr u"
  then obtain ps where ps: "insert_paths files [] = Inr ps" "check_parents ps files = Inr u"
    and len: "length files \<le> MAX_TREE_FILES"
    by (auto simp: manifest_validate_def split: if_splits sum.splits)
  from ps(2) have "\<forall>f \<in> set files. \<forall>g \<in> set files.
      \<not> strict_prefix (split_on CHR ''/'' (bf_path f)) (split_on CHR ''/'' (bf_path g))"
    using insert_paths_ok [OF ps(1)] by (simp add: check_parents_ok path_parents_iff [symmetric]) blast
  with insert_paths_ok [OF ps(1)] assms len show "well_formed_tree files"
    by (simp add: well_formed_tree_def sorted_key_strict)
next
  assume wf: "well_formed_tree files"
  then have d: "distinct (map bf_path files)"
    by (simp add: well_formed_tree_def strict_sorted_iff)
  with wf obtain ps where ps: "insert_paths files [] = Inr ps"
    using insert_paths_complete [of files "[]"] by (auto simp: well_formed_tree_def)
  with insert_paths_ok [OF ps] wf have "check_parents ps files = Inr u"
    by (auto simp: check_parents_ok path_parents_iff well_formed_tree_def)
  with wf ps show "manifest_validate files = Inr u"
    by (simp add: manifest_validate_def well_formed_tree_def)
qed

lemma strictly_ascending_iff: "strictly_ascending fs \<longleftrightarrow> sorted_wrt (<) (map bf_path fs)"
  by (induction fs rule: strictly_ascending.induct) (auto intro: less_trans)

section \<open>Properties\<close>

lemma sorted_sort_path: "sorted (map bf_path (sort_key bf_path files))"
  by simp

text \<open>
  C36. Building a manifest succeeds exactly on the file lists that form a directory tree
  (canonical paths, no path twice, no file that is also a directory of another, at most the
  allowed number of files), and its result is the files in path order.
\<close>

theorem manifest_new_iff:
  "manifest_new files = Inr m \<longleftrightarrow> m = sort_key bf_path files \<and> well_formed_tree m"
  using manifest_validate_iff [OF sorted_sort_path [of files]]
  by (auto simp: manifest_new_def Let_def split: sum.splits)

text \<open>
  C37. A decoded manifest is always a well-formed tree, whatever bytes came in; and a well-formed
  tree that fits the size limit is read back from its own encoding.  The body format is the
  \<^verbatim>\<open>bincode\<close> crate's; its round trip is the hypothesis.
\<close>

theorem manifest_codec:
  assumes "deserialize (serialize m) = Some m"
  shows "(manifest_decode deserialize bs = Inr m \<longrightarrow> well_formed_tree m)
     \<and> (well_formed_tree m \<and> length (manifest_encode serialize m) \<le> MAX_MANIFEST_BYTES \<longrightarrow>
          manifest_decode deserialize (manifest_encode serialize m) = Inr m)"
proof (intro conjI impI)
  assume "manifest_decode deserialize bs = Inr m"
  then have "strictly_ascending m" "manifest_validate m = Inr ()"
    by (auto simp: manifest_decode_def split: if_splits option.splits sum.splits)
  then show "well_formed_tree m"
    using manifest_validate_iff [of m "()"] by (simp add: strictly_ascending_iff strict_sorted_imp_sorted)
next
  assume m: "well_formed_tree m \<and> length (manifest_encode serialize m) \<le> MAX_MANIFEST_BYTES"
  then have "sorted_wrt (<) (map bf_path m)" by (simp add: well_formed_tree_def)
  then have "strictly_ascending m" "manifest_validate m = Inr ()"
    using m manifest_validate_iff [of m "()"] by (simp_all add: strictly_ascending_iff strict_sorted_imp_sorted)
  moreover have "strip_prefix MANIFEST_MAGIC (manifest_encode serialize m) = Some (serialize m)"
    by (simp add: manifest_encode_def)
  ultimately show "manifest_decode deserialize (manifest_encode serialize m) = Inr m"
    using m assms by (simp add: manifest_decode_def)
qed

theorem manifest_codec_witness:
  "manifest_decode (\<lambda>b. if b = ''body'' then Some [\<lparr>bf_path = ''a/b'', bf_id = ''x'', bf_size = 1, bf_executable = False\<rparr>] else None)
     (manifest_encode (\<lambda>_. ''body'') [\<lparr>bf_path = ''a/b'', bf_id = ''x'', bf_size = 1, bf_executable = False\<rparr>])
   = Inr [\<lparr>bf_path = ''a/b'', bf_id = ''x'', bf_size = 1, bf_executable = False\<rparr>]"
proof -
  let ?f = "\<lparr>bf_path = ''a/b'', bf_id = ''x'', bf_size = 1, bf_executable = False\<rparr>"
  let ?d = "\<lambda>b. if b = ''body'' then Some [?f] else None"
  have "insert_paths [?f] [] = Inr [''a/b'']" "check_parents [''a/b''] [?f] = Inr ()" by code_simp+
  then have "manifest_validate [?f] = Inr ()" by (simp add: manifest_validate_def MAX_TREE_FILES_def)
  then have "well_formed_tree [?f]" using manifest_validate_iff [of "[?f]"] by simp
  moreover have "length (manifest_encode (\<lambda>_. ''body'') [?f]) \<le> MAX_MANIFEST_BYTES"
    by (simp add: manifest_encode_def MAX_MANIFEST_BYTES_def MANIFEST_MAGIC_def)
  ultimately show ?thesis using manifest_codec [of ?d "\<lambda>_. ''body''" "[?f]"] by simp
qed

end
