(* ===== verification/Output_Pattern.thy ===== *)
theory Output_Pattern
  imports Blob_Model
begin

text \<open>
  Output patterns of a task (\<^verbatim>\<open>OutputPattern\<close> in \<^verbatim>\<open>crates/core/src/blob.rs\<close>) and the task's
  inputs: the iterative wildcard matcher with its single backtracking point, the matching of
  segment lists, parsing, and the declarative matching relations they are compared with.
\<close>

section \<open>Wildcards inside one name\<close>

text \<open>
  The loop of \<^verbatim>\<open>wildcard_match\<close> with its indices: \<open>p\<close> into the pattern, \<open>n\<close> into the name, and
  the position of the last \<^verbatim>\<open>*\<close> with the name position it was tried at. Characters are UTF-8
  encodings. That the loop ends is a theorem, so the recursion is partial.
\<close>

partial_function (option) wildcard_loop ::
  "string list \<Rightarrow> string list \<Rightarrow> nat \<Rightarrow> nat \<Rightarrow> (nat \<times> nat) option \<Rightarrow> bool option" where
  "wildcard_loop pattern name p n star =
     (if n < length name then
        if p < length pattern \<and> (pattern ! p = ''?'' \<or> pattern ! p = name ! n) then
          wildcard_loop pattern name (p + 1) (n + 1) star
        else if p < length pattern \<and> pattern ! p = ''*'' then
          wildcard_loop pattern name (p + 1) n (Some (p, n))
        else (case star of
                Some (star_p, star_n) \<Rightarrow>
                  wildcard_loop pattern name (star_p + 1) (star_n + 1) (Some (star_p, star_n + 1))
              | None \<Rightarrow> Some False)
      else Some (list_all (\<lambda>c. c = ''*'') (drop p pattern)))"

definition wildcard_match :: "string \<Rightarrow> string \<Rightarrow> bool" where
  "wildcard_match pattern name =
     (case wildcard_loop (utf8_chars pattern) (utf8_chars name) 0 0 None of
        Some b \<Rightarrow> b
      | None \<Rightarrow> False)"

text \<open>What a wildcard pattern means: \<^verbatim>\<open>*\<close> any run of characters, \<^verbatim>\<open>?\<close> one character.\<close>

fun wild :: "string list \<Rightarrow> string list \<Rightarrow> bool" where
  "wild [] ns \<longleftrightarrow> ns = []"
| "wild (p # ps) [] \<longleftrightarrow> p = ''*'' \<and> wild ps []"
| "wild (p # ps) (n # ns) \<longleftrightarrow>
     (if p = ''*'' then wild ps (n # ns) \<or> wild (p # ps) ns
      else (p = ''?'' \<or> p = n) \<and> wild ps ns)"

lemma wild_Nil: "wild ps [] \<longleftrightarrow> list_all (\<lambda>c. c = ''*'') ps"
  by (induction ps) auto

lemma wild_star_absorb: "wild (''*'' # r) b \<Longrightarrow> wild (''*'' # r) (c @ b)"
  by (induction c) auto

lemma wild_starfree_split:
  "\<forall>x \<in> set m. x \<noteq> ''*'' \<Longrightarrow> wild (m @ r) xs \<Longrightarrow> \<exists>a b. xs = a @ b \<and> length a = length m \<and> wild r b"
proof (induction m arbitrary: xs)
  case (Cons q m)
  then obtain y ys where xs: "xs = y # ys" by (cases xs) auto
  with Cons.prems have "wild (m @ r) ys" by simp
  then have "\<exists>a b. ys = a @ b \<and> length a = length m \<and> wild r b"
    using Cons.prems(1) by (intro Cons.IH) simp_all
  then obtain a b where "ys = a @ b" "length a = length m" "wild r b" by blast
  with xs show ?case by (intro exI [of _ "y # a"] exI [of _ b]) simp
qed simp

lemma wild_star_split:
  "\<forall>x \<in> set m. x \<noteq> ''*'' \<Longrightarrow> wild (''*'' # m @ r) xs
     \<Longrightarrow> \<exists>a b. xs = a @ b \<and> length m \<le> length a \<and> wild r b"
proof (induction xs)
  case Nil
  then show ?case using wild_starfree_split [of m r "[]"] by auto
next
  case (Cons x xs)
  show ?case
  proof (cases "wild (m @ r) (x # xs)")
    case True
    with Cons.prems(1) show ?thesis using wild_starfree_split [of m r "x # xs"] by (metis order_refl)
  next
    case False
    with Cons.prems have "wild (''*'' # m @ r) xs" by simp
    with Cons obtain a b where "xs = a @ b" "length m \<le> length a" "wild r b" by auto
    then show ?thesis by (intro exI [of _ "x # a"] exI [of _ b]) simp
  qed
qed

text \<open>
  The invariant of the loop. The name matches the pattern iff it does from the current
  positions, or the last \<^verbatim>\<open>*\<close> swallows at least one more character; between that \<^verbatim>\<open>*\<close> and the
  current position there is no other one.
\<close>

definition wild_inv :: "string list \<Rightarrow> string list \<Rightarrow> nat \<Rightarrow> nat \<Rightarrow> (nat \<times> nat) option \<Rightarrow> bool" where
  "wild_inv P N p n star \<longleftrightarrow> p \<le> length P \<and> n \<le> length N \<and>
     (case star of
        None \<Rightarrow> wild P N = wild (drop p P) (drop n N)
      | Some (sp, sn) \<Rightarrow>
          (\<exists>m. drop sp P = ''*'' # m @ drop p P \<and> (\<forall>x \<in> set m. x \<noteq> ''*'')
               \<and> n = sn + length m \<and> p = Suc (sp + length m))
          \<and> wild P N = (wild (drop p P) (drop n N) \<or> wild (drop sp P) (drop (Suc sn) N)))"

lemma wild_inv_start: "wild_inv P N 0 0 None"
  by (simp add: wild_inv_def)

lemma wild_inv_advance:
  assumes inv: "wild_inv P N p n star" and n: "n < length N" and p: "p < length P"
    and hit: "P ! p = ''?'' \<or> P ! p = N ! n" and ns: "P ! p \<noteq> ''*''"
  shows "wild_inv P N (p + 1) (n + 1) star"
proof -
  have dp: "drop p P = P ! p # drop (Suc p) P" and dn: "drop n N = N ! n # drop (Suc n) N"
    using p n by (simp_all add: Cons_nth_drop_Suc)
  have eq: "wild (drop p P) (drop n N) = wild (drop (Suc p) P) (drop (Suc n) N)"
    using hit ns by (simp add: dp dn)
  show ?thesis
  proof (cases star)
    case None
    with inv n p eq show ?thesis by (simp add: wild_inv_def)
  next
    case (Some s)
    then obtain sp sn where s: "star = Some (sp, sn)" by (cases s) simp
    with inv obtain m where m: "drop sp P = ''*'' # m @ drop p P" "\<forall>x \<in> set m. x \<noteq> ''*''"
      "n = sn + length m" "p = Suc (sp + length m)"
      by (auto simp: wild_inv_def)
    then have "drop sp P = ''*'' # (m @ [P ! p]) @ drop (p + 1) P" using dp by auto
    then show ?thesis
      using inv n p s eq m ns unfolding wild_inv_def
      by (auto intro!: exI [of _ "m @ [P ! p]"])
  qed
qed

lemma wild_inv_new_star:
  assumes inv: "wild_inv P N p n star" and n: "n < length N" and p: "p < length P"
    and star: "P ! p = ''*''"
  shows "wild_inv P N (p + 1) n (Some (p, n))"
proof -
  have dp: "drop p P = ''*'' # drop (Suc p) P" and dn: "drop n N = N ! n # drop (Suc n) N"
    using p n star by (simp_all add: Cons_nth_drop_Suc [symmetric])
  have "wild P N = wild (drop p P) (drop n N)"
  proof (cases star)
    case None
    with inv show ?thesis by (simp add: wild_inv_def)
  next
    case (Some s)
    then obtain sp sn where s: "star = Some (sp, sn)" by (cases s) simp
    with inv obtain m where m: "drop sp P = ''*'' # m @ drop p P" "\<forall>x \<in> set m. x \<noteq> ''*''"
      "n = sn + length m"
      by (auto simp: wild_inv_def)
    have "wild (drop p P) (drop n N)" if "wild (drop sp P) (drop (Suc sn) N)"
    proof -
      from that m obtain a b where ab: "drop (Suc sn) N = a @ b" "length m \<le> length a" "wild (drop p P) b"
        using wild_star_split by (metis append_Cons)
      have "drop n N = take (Suc (length a) - length m) (drop n N) @ drop (Suc (length a) - length m) (drop n N)"
        by (rule append_take_drop_id [symmetric])
      moreover have "drop (Suc (length a) - length m) (drop n N) = drop (length a) (drop (Suc sn) N)"
        using m(3) ab(2) by simp
      ultimately have "drop n N = take (Suc (length a) - length m) (drop n N) @ b"
        by (simp add: ab(1))
      with ab(3) show ?thesis
        using wild_star_absorb [of "drop (Suc p) P" b] dp by metis
    qed
    with inv s show ?thesis by (auto simp: wild_inv_def)
  qed
  then show ?thesis
    using n p dp dn by (simp add: wild_inv_def)
qed

lemma wild_inv_backtrack:
  assumes inv: "wild_inv P N p n (Some (sp, sn))" and n: "n < length N"
    and miss: "\<not> (p < length P \<and> (P ! p = ''?'' \<or> P ! p = N ! n))"
    and ns: "\<not> (p < length P \<and> P ! p = ''*'')"
  shows "wild_inv P N (sp + 1) (sn + 1) (Some (sp, sn + 1))"
proof -
  from inv obtain m where m: "drop sp P = ''*'' # m @ drop p P" "n = sn + length m"
      "p = Suc (sp + length m)"
    and W: "wild P N = (wild (drop p P) (drop n N) \<or> wild (drop sp P) (drop (Suc sn) N))"
    by (auto simp: wild_inv_def)
  have dn: "drop n N = N ! n # drop (Suc n) N"
    using n by (simp add: Cons_nth_drop_Suc)
  have "\<not> wild (drop p P) (drop n N)"
  proof (cases "p < length P")
    case True
    then have "drop p P = P ! p # drop (Suc p) P" by (simp add: Cons_nth_drop_Suc)
    with True miss ns dn show ?thesis by simp
  next
    case False
    with dn show ?thesis by simp
  qed
  with W have W': "wild P N = wild (drop sp P) (drop (Suc sn) N)" by simp
  have sp: "sp < length P" using m(1) by (metis drop_all list.distinct(1) not_less)
  have dsp: "drop sp P = ''*'' # drop (Suc sp) P"
    using m(1) by (metis drop_Suc list.sel(3) tl_drop)
  have sn: "Suc sn \<le> length N" using n m by simp
  have "wild P N = (wild (drop (Suc sp) P) (drop (Suc sn) N) \<or> wild (drop sp P) (drop (Suc (Suc sn)) N))"
  proof (cases "Suc sn < length N")
    case True
    then have "drop (Suc sn) N = N ! Suc sn # drop (Suc (Suc sn)) N" by (simp add: Cons_nth_drop_Suc)
    with W' dsp show ?thesis by simp
  next
    case False
    with W' dsp show ?thesis by simp
  qed
  with sp sn dsp show ?thesis
    by (auto simp: wild_inv_def intro!: exI [of _ "[]"])
qed

lemma wild_inv_end:
  assumes inv: "wild_inv P N p n star" and n: "\<not> n < length N"
  shows "wild P N = list_all (\<lambda>c. c = ''*'') (drop p P)"
proof (cases star)
  case None
  with inv n show ?thesis by (simp add: wild_inv_def wild_Nil)
next
  case (Some s)
  then obtain sp sn where s: "star = Some (sp, sn)" by (cases s) simp
  with inv obtain m where m: "drop sp P = ''*'' # m @ drop p P" "\<forall>x \<in> set m. x \<noteq> ''*''"
      "n = sn + length m"
    and W: "wild P N = (wild (drop p P) (drop n N) \<or> wild (drop sp P) (drop (Suc sn) N))"
    and le: "n \<le> length N"
    by (auto simp: wild_inv_def)
  have "wild (drop p P) []" if alt: "wild (drop sp P) (drop (Suc sn) N)"
  proof -
    from alt m obtain a b where ab: "drop (Suc sn) N = a @ b" "length m \<le> length a" "wild (drop p P) b"
      using wild_star_split by (metis append_Cons)
    have "length a + length b = length N - Suc sn" using ab(1) by (metis length_append length_drop)
    with ab(2) m(3) n le have "length b = 0" by linarith
    with ab(3) show ?thesis by simp
  qed
  with W n le show ?thesis by (auto simp: wild_Nil)
qed

text \<open>
  Why the loop ends: the name position of the last \<^verbatim>\<open>*\<close> never moves back, and while it stays
  the pattern position grows.
\<close>

definition wild_order :: "string list \<Rightarrow> string list \<Rightarrow> ((nat \<times> nat \<times> (nat \<times> nat) option) \<times> nat \<times> nat \<times> (nat \<times> nat) option) set" where
  "wild_order P N = measures
     [\<lambda>(p, n, star). case star of None \<Rightarrow> Suc (length N) | Some (sp, sn) \<Rightarrow> length N - sn,
      \<lambda>(p, n, star). length P - p]"

lemma wf_wild_order: "wf (wild_order P N)"
  by (simp add: wild_order_def)

lemma wild_order_advance:
  "p < length P \<Longrightarrow> ((p + 1, n + 1, star), (p, n, star)) \<in> wild_order P N"
  by (auto simp: wild_order_def split: option.splits)

lemma wild_order_new_star:
  "p < length P \<Longrightarrow> wild_inv P N p n star \<Longrightarrow> ((p + 1, n, Some (p, n)), (p, n, star)) \<in> wild_order P N"
  by (auto simp: wild_order_def wild_inv_def split: option.splits)

lemma wild_order_backtrack:
  "sn < length N \<Longrightarrow> ((sp + 1, sn + 1, Some (sp, sn + 1)), (p, n, Some (sp, sn))) \<in> wild_order P N"
  by (auto simp: wild_order_def)

lemma wildcard_loop_miss:
  assumes inv: "wild_inv P N p n None" and n: "n < length N"
    and miss: "\<not> (p < length P \<and> (P ! p = ''?'' \<or> P ! p = N ! n))" "\<not> (p < length P \<and> P ! p = ''*'')"
  shows "wildcard_loop P N p n None = Some (wild P N)"
proof -
  have "\<not> wild (drop p P) (drop n N)"
    using miss n by (cases "p < length P") (simp_all add: Cons_nth_drop_Suc [symmetric])
  with inv have "\<not> wild P N" by (simp add: wild_inv_def)
  with n miss show ?thesis by (subst wildcard_loop.simps) auto
qed

text \<open>The loop ends with the right answer, for every name without a \<^verbatim>\<open>*\<close> character of its own.\<close>

lemma wildcard_loop_correct:
  assumes free: "''*'' \<notin> set N" and "wild_inv P N p n star"
  shows "wildcard_loop P N p n star = Some (wild P N)"
  using assms(2)
proof (induction "(p, n, star)" arbitrary: p n star rule: wf_induct_rule [OF wf_wild_order [of P N]])
  case (1 p n star)
  note IH = "1.hyps" and inv = "1.prems"
  consider (stop) "\<not> n < length N"
    | (hit) "n < length N" "p < length P" "P ! p = ''?'' \<or> P ! p = N ! n"
    | (star) "n < length N" "p < length P" "P ! p = ''*''" "\<not> (P ! p = ''?'' \<or> P ! p = N ! n)"
    | (miss) "n < length N" "\<not> (p < length P \<and> (P ! p = ''?'' \<or> P ! p = N ! n))"
        "\<not> (p < length P \<and> P ! p = ''*'')"
    by blast
  then show ?case
  proof cases
    case stop
    with wild_inv_end [OF inv stop] show ?thesis by (simp add: wildcard_loop.simps)
  next
    case hit
    from free hit(1) have "N ! n \<noteq> ''*''" by (metis nth_mem)
    with hit(3) have "P ! p \<noteq> ''*''" by auto
    then have "wildcard_loop P N (p + 1) (n + 1) star = Some (wild P N)"
      using wild_inv_advance [OF inv hit] wild_order_advance [OF hit(2)] by (intro IH)
    with hit show ?thesis by (subst wildcard_loop.simps) simp
  next
    case star
    have "wildcard_loop P N (p + 1) n (Some (p, n)) = Some (wild P N)"
      using wild_inv_new_star [OF inv star(1-3)] wild_order_new_star [OF star(2) inv] by (intro IH)
    with star show ?thesis by (subst wildcard_loop.simps) simp
  next
    case miss
    show ?thesis
    proof (cases star)
      case None
      with inv miss show ?thesis by (simp add: wildcard_loop_miss)
    next
      case (Some s)
      then obtain sp sn where s: "star = Some (sp, sn)" by (cases s) simp
      then have "sn < length N" using inv miss(1) by (auto simp: wild_inv_def)
      then have "wildcard_loop P N (sp + 1) (sn + 1) (Some (sp, sn + 1)) = Some (wild P N)"
        using wild_inv_backtrack [OF _ miss] wild_order_backtrack inv s by (intro IH) auto
      with miss s show ?thesis by (subst wildcard_loop.simps) auto
    qed
  qed
qed

lemma star_free_chars: "CHR ''*'' \<notin> set s \<Longrightarrow> ''*'' \<notin> set (utf8_chars s)"
  using concat_utf8_chars [of s] by (metis UN_I list.set_intros(1) set_concat)

lemma wildcard_match_iff:
  "CHR ''*'' \<notin> set name \<Longrightarrow> wildcard_match pattern name \<longleftrightarrow> wild (utf8_chars pattern) (utf8_chars name)"
  by (simp add: wildcard_match_def wildcard_loop_correct star_free_chars wild_inv_start)

section \<open>Patterns\<close>

datatype PatternSegment = Literal string | Wildcard string | AnyDepth

record OutputPattern =
  op_text :: string
  op_segments :: "PatternSegment list"

fun match_segment :: "PatternSegment \<Rightarrow> string \<Rightarrow> bool" where
  "match_segment (Literal l) name = (l = name)"
| "match_segment (Wildcard w) name = wildcard_match w name"
| "match_segment AnyDepth name = True"

fun match_segments :: "PatternSegment list \<Rightarrow> string list \<Rightarrow> bool" where
  "match_segments [] path = (path = [])"
| "match_segments (AnyDepth # rest) path =
     list_ex (\<lambda>skip. match_segments rest (drop skip path)) [0..<length path + 1]"
| "match_segments (segment # rest) path =
     (case path of
        name # tail \<Rightarrow> match_segment segment name \<and> match_segments rest tail
      | [] \<Rightarrow> False)"

fun parse_segments ::
  "string \<Rightarrow> string list \<Rightarrow> PatternSegment list \<Rightarrow> blob_error + PatternSegment list" where
  "parse_segments text [] segments = Inr segments"
| "parse_segments text (raw # rest) segments =
     (if raw = [] \<or> raw = ''.'' then parse_segments text rest segments
      else if raw = ''..'' then Inl (PatternDotDot text)
      else if raw = ''**'' then
        parse_segments text rest
          (if segments \<noteq> [] \<and> last segments = AnyDepth then segments else segments @ [AnyDepth])
      else if CHR ''*'' \<in> set raw \<or> CHR ''?'' \<in> set raw then
        parse_segments text rest (segments @ [Wildcard raw])
      else parse_segments text rest (segments @ [Literal raw]))"

definition pattern_parse :: "string \<Rightarrow> blob_error + OutputPattern" where
  "pattern_parse pattern =
     (let text = trim pattern; normalized = replace_char CHR 0x5C CHR ''/'' text
      in if text = [] then Inl EmptyPattern
         else if length text > MAX_BLOB_PATH_BYTES then Inl PatternTooLong
         else if CHR 0x00 \<in> set text then Inl PatternNul
         else if starts_with normalized ''/'' then Inl (PatternAbsolute text)
         else if CHR '':'' \<in> set normalized then Inl (PatternColon text)
         else case parse_segments text (split_on CHR ''/'' normalized) [] of
                Inl e \<Rightarrow> Inl e
              | Inr segments \<Rightarrow>
                  if segments = [] then Inl (PatternNamesRoot text)
                  else Inr \<lparr>op_text = text, op_segments = segments\<rparr>)"

definition is_literal_segment :: "PatternSegment \<Rightarrow> bool" where
  "is_literal_segment s = (case s of Literal _ \<Rightarrow> True | _ \<Rightarrow> False)"

definition pattern_is_literal :: "OutputPattern \<Rightarrow> bool" where
  "pattern_is_literal pat = list_all is_literal_segment (op_segments pat)"

fun literal_names :: "PatternSegment list \<Rightarrow> string list" where
  "literal_names (Literal name # rest) = name # literal_names rest"
| "literal_names _ = []"

definition literal_prefix :: "OutputPattern \<Rightarrow> string" where
  "literal_prefix pat = join ''/'' (literal_names (op_segments pat))"

definition pattern_selects :: "OutputPattern \<Rightarrow> string \<Rightarrow> bool" where
  "pattern_selects pat path =
     (let parts = split_on CHR ''/'' path
      in list_ex (\<lambda>len. match_segments (op_segments pat) (take len parts)) [1..<length parts + 1])"

fun validate_patterns_loop :: "string list \<Rightarrow> blob_error + unit" where
  "validate_patterns_loop [] = Inr ()"
| "validate_patterns_loop (p # ps) =
     (case pattern_parse p of Inl e \<Rightarrow> Inl e | Inr _ \<Rightarrow> validate_patterns_loop ps)"

definition validate_output_patterns :: "string list \<Rightarrow> blob_error + unit" where
  "validate_output_patterns patterns =
     (if length patterns > MAX_OUTPUT_PATTERNS then Inl (TooManyPatterns (length patterns))
      else validate_patterns_loop patterns)"

text \<open>The documented meaning of a pattern: \<^verbatim>\<open>**\<close> stands for any number of directories.\<close>

inductive glob :: "PatternSegment list \<Rightarrow> string list \<Rightarrow> bool" where
  glob_Nil: "glob [] []"
| glob_none: "glob rest path \<Longrightarrow> glob (AnyDepth # rest) path"
| glob_skip: "glob (AnyDepth # rest) path \<Longrightarrow> glob (AnyDepth # rest) (name # path)"
| glob_literal: "glob rest path \<Longrightarrow> glob (Literal name # rest) (name # path)"
| glob_wild: "wild (utf8_chars w) (utf8_chars name) \<Longrightarrow> glob rest path \<Longrightarrow> glob (Wildcard w # rest) (name # path)"

inductive_simps glob_Nil_simps [simp]: "glob [] path"
inductive_simps glob_literal_simps: "glob (Literal l # rest) path"
inductive_simps glob_wild_simps: "glob (Wildcard w # rest) path"
inductive_cases glob_AnyDepthE: "glob (AnyDepth # rest) path"

lemma glob_AnyDepth: "glob (AnyDepth # rest) path \<longleftrightarrow> (\<exists>k \<le> length path. glob rest (drop k path))"
proof (induction path)
  case Nil
  show ?case by (auto elim: glob_AnyDepthE intro: glob.intros)
next
  case (Cons x path)
  have "glob (AnyDepth # rest) (x # path) \<longleftrightarrow> glob rest (x # path) \<or> glob (AnyDepth # rest) path"
    by (auto elim: glob_AnyDepthE intro: glob.intros)
  also have "\<dots> \<longleftrightarrow> (\<exists>k \<le> length (x # path). glob rest (drop k (x # path)))"
  proof -
    have "(\<exists>k \<le> Suc (length path). glob rest (drop k (x # path)))
        \<longleftrightarrow> glob rest (x # path) \<or> (\<exists>k \<le> length path. glob rest (drop k path))"
      by (metis Suc_le_mono drop0 drop_Suc_Cons not0_implies_Suc zero_le)
    with Cons show ?thesis by simp
  qed
  finally show ?case .
qed

lemma list_ex_upto: "list_ex P [a..<b] \<longleftrightarrow> (\<exists>k. a \<le> k \<and> k < b \<and> P k)"
  by (auto simp: list_ex_iff)

lemma match_segments_iff:
  "\<forall>name \<in> set path. CHR ''*'' \<notin> set name \<Longrightarrow> match_segments pattern path \<longleftrightarrow> glob pattern path"
proof (induction pattern path rule: match_segments.induct [case_names empty depth literal wildcard])
  case (depth rest path)
  then have "match_segments rest (drop k path) \<longleftrightarrow> glob rest (drop k path)" if "k \<le> length path" for k
    using that by (intro depth.IH) (auto dest: in_set_dropD)
  then have "(\<exists>k \<le> length path. match_segments rest (drop k path))
      \<longleftrightarrow> (\<exists>k \<le> length path. glob rest (drop k path))"
    by blast
  then show ?case
    by (simp add: list_ex_upto glob_AnyDepth less_Suc_eq_le del: upt_Suc)
next
  case (literal l rest path)
  then show ?case by (cases path) (auto simp: glob_literal_simps)
next
  case (wildcard w rest path)
  then show ?case by (cases path) (auto simp: glob_wild_simps wildcard_match_iff)
qed auto

lemma match_segments_literal:
  "match_segments pattern path \<Longrightarrow> prefix (literal_names pattern) path"
proof (induction pattern path rule: match_segments.induct [case_names empty depth literal wildcard])
  case (literal l rest path)
  then show ?case by (cases path) auto
qed auto

lemma literal_prefix_take: "prefix ls (take k parts) \<Longrightarrow> prefix ls parts"
  by (meson prefix_order.trans take_is_prefix)

section \<open>What a parsed pattern looks like\<close>

text \<open>A segment of a parsed pattern names one path component and cannot leave the sandbox.\<close>

definition pattern_name :: "PatternSegment \<Rightarrow> string" where
  "pattern_name s = (case s of Literal l \<Rightarrow> l | Wildcard w \<Rightarrow> w | AnyDepth \<Rightarrow> ''**'')"

definition safe_component :: "string \<Rightarrow> bool" where
  "safe_component name \<longleftrightarrow> name \<noteq> [] \<and> name \<noteq> ''.'' \<and> name \<noteq> ''..''
     \<and> CHR ''/'' \<notin> set name \<and> CHR 0x5C \<notin> set name \<and> CHR '':'' \<notin> set name \<and> CHR 0x00 \<notin> set name"

definition no_double_star :: "PatternSegment list \<Rightarrow> bool" where
  "no_double_star segs \<longleftrightarrow> (\<forall>i. Suc i < length segs \<longrightarrow> \<not> (segs ! i = AnyDepth \<and> segs ! Suc i = AnyDepth))"

lemma no_double_star_snoc:
  assumes "no_double_star segs" and "\<not> (segs \<noteq> [] \<and> last segs = AnyDepth \<and> s = AnyDepth)"
  shows "no_double_star (segs @ [s])"
  unfolding no_double_star_def
proof (intro allI impI)
  fix i assume "Suc i < length (segs @ [s])"
  then consider "Suc i < length segs" | "Suc i = length segs" by fastforce
  then show "\<not> ((segs @ [s]) ! i = AnyDepth \<and> (segs @ [s]) ! Suc i = AnyDepth)"
  proof cases
    case 1
    with assms(1) show ?thesis by (simp add: no_double_star_def nth_append)
  next
    case 2
    then have "segs \<noteq> []" "i = length segs - 1" by auto
    with 2 assms(2) show ?thesis by (auto simp: nth_append last_conv_nth)
  qed
qed

definition parsed_segments :: "PatternSegment list \<Rightarrow> bool" where
  "parsed_segments segs \<longleftrightarrow> no_double_star segs \<and> (\<forall>s \<in> set segs. safe_component (pattern_name s))"

lemma parsed_segments_snoc:
  "parsed_segments segs \<Longrightarrow> safe_component (pattern_name s)
     \<Longrightarrow> \<not> (segs \<noteq> [] \<and> last segs = AnyDepth \<and> s = AnyDepth) \<Longrightarrow> parsed_segments (segs @ [s])"
  by (auto simp: parsed_segments_def intro: no_double_star_snoc)

definition clean_raw :: "string \<Rightarrow> bool" where
  "clean_raw r \<longleftrightarrow> CHR ''/'' \<notin> set r \<and> CHR 0x5C \<notin> set r \<and> CHR '':'' \<notin> set r \<and> CHR 0x00 \<notin> set r"

lemma safe_raw:
  "clean_raw raw \<Longrightarrow> raw \<notin> {[], ''.'', ''..''} \<Longrightarrow>
     safe_component (pattern_name (Wildcard raw)) \<and> safe_component (pattern_name (Literal raw))"
  by (simp add: clean_raw_def safe_component_def pattern_name_def)

lemma safe_AnyDepth: "safe_component (pattern_name AnyDepth)"
  by (simp add: safe_component_def pattern_name_def)

lemma parse_segments_ok:
  "parse_segments t raws segs = Inr out \<Longrightarrow> parsed_segments segs \<Longrightarrow> list_all clean_raw raws
     \<Longrightarrow> parsed_segments out"
proof (induction t raws segs rule: parse_segments.induct)
  case (2 t raw rest segs)
  consider (skip) "raw = [] \<or> raw = ''.''" | (up) "raw = ''..''" | (depth) "raw = ''**''"
    | (name) "raw \<notin> {[], ''.'', ''..'', ''**''}"
    by auto
  then show ?case
  proof cases
    case depth
    have "parsed_segments (if segs \<noteq> [] \<and> last segs = AnyDepth then segs else segs @ [AnyDepth])"
      using "2.prems"(2) parsed_segments_snoc [of segs AnyDepth] by (auto simp: safe_AnyDepth)
    with depth 2 show ?thesis by auto
  next
    case name
    then have "parsed_segments (segs @ [Wildcard raw])" "parsed_segments (segs @ [Literal raw])"
      using "2.prems"(2,3) by (auto intro!: parsed_segments_snoc dest: safe_raw)
    with name 2 show ?thesis by (auto split: if_splits)
  qed (use 2 in auto)
qed simp

lemma pattern_parse_ok:
  assumes "pattern_parse s = Inr pat"
  shows "op_text pat = trim s" and "op_segments pat \<noteq> []"
    and "no_double_star (op_segments pat)"
    and "\<forall>seg \<in> set (op_segments pat). safe_component (pattern_name seg)"
proof -
  let ?n = "replace_char CHR 0x5C CHR ''/'' (trim s)"
  obtain segs where p: "parse_segments (trim s) (split_on CHR ''/'' ?n) [] = Inr segs"
    using assms by (cases "parse_segments (trim s) (split_on CHR ''/'' ?n) []")
      (simp_all add: pattern_parse_def Let_def split: if_splits)
  with assms have pat: "pat = \<lparr>op_text = trim s, op_segments = segs\<rparr>" "segs \<noteq> []"
    and bad: "CHR 0x00 \<notin> set (trim s)" "CHR '':'' \<notin> set ?n"
    by (simp_all add: pattern_parse_def Let_def split: if_splits)
  from bad have "CHR 0x00 \<notin> set ?n" "CHR 0x5C \<notin> set ?n"
    using set_replace_char [of "CHR 0x5C" "CHR ''/''" "trim s"] by (simp_all add: subset_iff) blast+
  moreover have "\<forall>r \<in> set (split_on CHR ''/'' ?n). CHR ''/'' \<notin> set r \<and> set r \<subseteq> set ?n"
    using split_on_clean by blast
  ultimately have "list_all clean_raw (split_on CHR ''/'' ?n)"
    using bad(2) unfolding list_all_iff clean_raw_def by blast
  with p have "parsed_segments segs"
    using parse_segments_ok [OF p] by (simp add: parsed_segments_def no_double_star_def)
  with pat show "op_text pat = trim s" and "op_segments pat \<noteq> []"
    and "no_double_star (op_segments pat)"
    and "\<forall>seg \<in> set (op_segments pat). safe_component (pattern_name seg)"
    by (simp_all add: parsed_segments_def)
qed

section \<open>Task inputs\<close>

datatype InputSource =
    InputFile blob_id nat bool
  | InputTree blob_id nat

record TaskInput =
  ti_path :: string
  ti_source :: InputSource

definition input_blob_id :: "TaskInput \<Rightarrow> blob_id" where
  "input_blob_id inp = (case ti_source inp of InputFile bid _ _ \<Rightarrow> bid | InputTree m _ \<Rightarrow> m)"

definition input_validate :: "TaskInput \<Rightarrow> blob_error + unit" where
  "input_validate inp =
     (let is_tree = (case ti_source inp of InputTree _ _ \<Rightarrow> True | _ \<Rightarrow> False)
      in if is_tree \<and> ti_path inp = SANDBOX_ROOT then Inr ()
         else case validate_blob_path (ti_path inp) of
                Inl e \<Rightarrow> Inl (InputDestination e)
              | Inr u \<Rightarrow> Inr u)"

fun validate_inputs_loop :: "TaskInput list \<Rightarrow> string list \<Rightarrow> blob_error + unit" where
  "validate_inputs_loop [] seen = Inr ()"
| "validate_inputs_loop (inp # rest) seen =
     (case input_validate inp of
        Inl e \<Rightarrow> Inl e
      | Inr _ \<Rightarrow> if ti_path inp \<in> set seen then Inl (DestinationUsedTwice (ti_path inp))
               else validate_inputs_loop rest (ti_path inp # seen))"

definition validate_task_inputs :: "TaskInput list \<Rightarrow> blob_error + unit" where
  "validate_task_inputs inputs =
     (if length inputs > MAX_TASK_INPUTS then Inl (TooManyInputs (length inputs))
      else validate_inputs_loop inputs [])"

lemma input_validate_ok:
  "input_validate inp = Inr u \<Longrightarrow> ti_path inp = SANDBOX_ROOT \<or> canonical_path (ti_path inp)"
  by (auto simp: input_validate_def validate_blob_path_iff Let_def split: if_splits sum.splits)

lemma validate_inputs_loop_ok:
  "validate_inputs_loop inputs seen = Inr u \<Longrightarrow>
     distinct (map ti_path inputs) \<and> (\<forall>i \<in> set inputs. ti_path i \<notin> set seen)
     \<and> (\<forall>i \<in> set inputs. ti_path i = SANDBOX_ROOT \<or> canonical_path (ti_path i))"
proof (induction inputs seen rule: validate_inputs_loop.induct)
  case (2 inp rest seen)
  then obtain v where v: "input_validate inp = Inr v"
    by (cases "input_validate inp") auto
  with "2.prems" have new: "ti_path inp \<notin> set seen"
    and rest: "validate_inputs_loop rest (ti_path inp # seen) = Inr u"
    by (simp_all split: if_splits)
  from "2.IH" [OF v new rest] input_validate_ok [OF v] new show ?case
    by (simp add: image_iff) metis
qed simp

section \<open>Properties\<close>





lemma star_free_lib: "CHR ''*'' \<notin> set ''lib.rs''" "CHR ''*'' \<notin> set ''a.txt''"
  by simp_all


text \<open>
  C34. A parsed output pattern is safe to walk: it has at least one segment, no two double stars in
  a row, and no segment that is empty, a dot segment, or contains a separator, a colon or a NUL
  byte; every path it selects lies below its literal prefix.
\<close>

theorem pattern_parse_safe:
  assumes "pattern_parse s = Inr pat"
  shows "op_segments pat \<noteq> [] \<and> no_double_star (op_segments pat)
     \<and> (\<forall>seg \<in> set (op_segments pat). safe_component (pattern_name seg))
     \<and> (match_segments (op_segments pat) parts \<longrightarrow> prefix (literal_names (op_segments pat)) parts)"
  using pattern_parse_ok [OF assms] match_segments_literal by blast

theorem pattern_parse_safe_witness:
  "prefix [''out''] [''out'', ''a.txt''] \<and> no_double_star [Literal ''out'', Wildcard ''*.txt'']"
proof -
  let ?pat = "\<lparr>op_text = ''./out/*.txt'', op_segments = [Literal ''out'', Wildcard ''*.txt'']\<rparr>"
  have "trim ''./out/*.txt'' = ''./out/*.txt''" by code_simp
  then have "pattern_parse ''./out/*.txt'' = Inr ?pat"
    by (simp add: pattern_parse_def Let_def) code_simp
  note safe = pattern_parse_safe [OF this, of "[''out'', ''a.txt'']"]
  have "wildcard_match ''*.txt'' ''a.txt''"
    unfolding wildcard_match_iff [OF star_free_lib(2)] by code_simp
  then have "match_segments (op_segments ?pat) [''out'', ''a.txt'']" by simp
  with safe have "prefix (literal_names (op_segments ?pat)) [''out'', ''a.txt'']" by blast
  with safe show ?thesis by simp
qed

end
