(* ===== verification/Placement.thy ===== *)
theory Placement
  imports Rust_Text
begin

text \<open>
  Task placement constraints and worker tags (\<^verbatim>\<open>crates/core/src/placement.rs\<close>). Parsing the
  text of a UUID is third-party code and an argument of the definitions that need it.
\<close>

type_synonym uuid = "128 word"

section \<open>Tags\<close>

definition REQUIRE_PREFIX :: string where "REQUIRE_PREFIX = ''require:''"
definition OS_TAG_PREFIX :: string where "OS_TAG_PREFIX = ''os:''"
definition ARCH_TAG_PREFIX :: string where "ARCH_TAG_PREFIX = ''arch:''"
definition SLOTS_TAG_PREFIX :: string where "SLOTS_TAG_PREFIX = ''slots:''"
definition LINK_TAG_PREFIX :: string where "LINK_TAG_PREFIX = ''link:''"
definition ID_TAG_PREFIX :: string where "ID_TAG_PREFIX = ''id:''"
definition STATE_TAG_PREFIX :: string where "STATE_TAG_PREFIX = ''state:''"
definition MAX_USER_TAG_LEN :: nat where "MAX_USER_TAG_LEN = 64"

definition RESERVED_TAG_PREFIXES :: "string list" where
  "RESERVED_TAG_PREFIXES =
     [OS_TAG_PREFIX, ARCH_TAG_PREFIX, SLOTS_TAG_PREFIX, LINK_TAG_PREFIX, ID_TAG_PREFIX, STATE_TAG_PREFIX]"

lemmas tag_prefixes = REQUIRE_PREFIX_def OS_TAG_PREFIX_def ARCH_TAG_PREFIX_def SLOTS_TAG_PREFIX_def
  LINK_TAG_PREFIX_def ID_TAG_PREFIX_def STATE_TAG_PREFIX_def

datatype placement_error =
    TagEmpty
  | TagTooLong string nat
  | TagBadChar string
  | TagReserved string string
  | NotKeyValue string
  | EmptyValue string
  | BadTagConstraint string placement_error
  | UnknownKey string string
  | GivenTwice string

definition validate_user_tag :: "string \<Rightarrow> placement_error + unit" where
  "validate_user_tag tag =
     (if tag = [] then Inl TagEmpty
      else if length tag > MAX_USER_TAG_LEN then Inl (TagTooLong tag (length tag))
      else if list_ex (\<lambda>c. is_ws_char c \<or> c = ''='' \<or> c = '','') (utf8_chars tag) then Inl (TagBadChar tag)
      else case find (\<lambda>p. starts_with tag p) RESERVED_TAG_PREFIXES of
             Some p \<Rightarrow> Inl (TagReserved tag p)
           | None \<Rightarrow> Inr ())"

fun tag_value :: "string list \<Rightarrow> string \<Rightarrow> string option" where
  "tag_value [] pre = None"
| "tag_value (t # ts) pre =
     (case strip_prefix pre t of Some v \<Rightarrow> Some v | None \<Rightarrow> tag_value ts pre)"

definition listed_worker_id :: "(string \<Rightarrow> uuid option) \<Rightarrow> string list \<Rightarrow> uuid option" where
  "listed_worker_id parse_uuid tags = Option.bind (tag_value tags ID_TAG_PREFIX) parse_uuid"

text \<open>\<^verbatim>\<open>str::parse::<usize>\<close>: an optional plus sign, then decimal digits that fit 64 bits.\<close>

definition digit_value :: "char \<Rightarrow> nat option" where
  "digit_value c = map_of (zip ''0123456789'' [0..<10]) c"

fun parse_digits :: "nat \<Rightarrow> string \<Rightarrow> nat option" where
  "parse_digits acc [] = Some acc"
| "parse_digits acc (c # cs) =
     (case digit_value c of
        None \<Rightarrow> None
      | Some d \<Rightarrow> if acc * 10 + d \<le> usize_max then parse_digits (acc * 10 + d) cs else None)"

definition parse_usize :: "string \<Rightarrow> nat option" where
  "parse_usize s =
     (let digits = (case s of CHR ''+'' # r \<Rightarrow> r | _ \<Rightarrow> s)
      in if digits = [] then None else parse_digits 0 digits)"

definition advertised_slots :: "string list \<Rightarrow> nat option" where
  "advertised_slots tags =
     (case Option.bind (tag_value tags SLOTS_TAG_PREFIX) parse_usize of
        Some n \<Rightarrow> if n \<ge> 1 then Some n else None
      | None \<Rightarrow> None)"

definition normalize_os :: "string \<Rightarrow> string" where
  "normalize_os value =
     (let lower = to_ascii_lowercase value
      in if lower \<in> {''mac'', ''darwin'', ''osx'', ''macosx''} then ''macos''
         else if lower \<in> {''win'', ''win32'', ''win64''} then ''windows''
         else lower)"

definition normalize_arch :: "string \<Rightarrow> string" where
  "normalize_arch value =
     (let lower = to_ascii_lowercase value
      in if lower \<in> {''amd64'', ''x64'', ''x86-64''} then ''x86_64''
         else if lower = ''arm64'' then ''aarch64''
         else if lower \<in> {''i386'', ''i686''} then ''x86''
         else lower)"

section \<open>Constraints\<close>

record Placement =
  pl_os :: "string option"
  pl_arch :: "string option"
  pl_worker :: "string option"
  pl_tags :: "string list"

definition placement_default :: Placement where
  "placement_default = \<lparr>pl_os = None, pl_arch = None, pl_worker = None, pl_tags = []\<rparr>"

definition placement_is_empty :: "Placement \<Rightarrow> bool" where
  "placement_is_empty p \<longleftrightarrow>
     pl_os p = None \<and> pl_arch p = None \<and> pl_worker p = None \<and> pl_tags p = []"

text \<open>One \<^verbatim>\<open>require:\<close> entry, and the loop over the task's tags.\<close>

definition add_constraint :: "string \<Rightarrow> string \<Rightarrow> string \<Rightarrow> Placement \<Rightarrow> placement_error + Placement" where
  "add_constraint tag key value p =
     (if key = ''os'' then
        if pl_os p \<noteq> None then Inl (GivenTwice key) else Inr (p\<lparr>pl_os := Some (normalize_os value)\<rparr>)
      else if key = ''arch'' then
        if pl_arch p \<noteq> None then Inl (GivenTwice key) else Inr (p\<lparr>pl_arch := Some (normalize_arch value)\<rparr>)
      else if key = ''worker'' then
        if pl_worker p \<noteq> None then Inl (GivenTwice key) else Inr (p\<lparr>pl_worker := Some value\<rparr>)
      else if key = ''tag'' then
        (case validate_user_tag value of
           Inl e \<Rightarrow> Inl (BadTagConstraint tag e)
         | Inr _ \<Rightarrow> Inr (p\<lparr>pl_tags := pl_tags p @ [value]\<rparr>))
      else Inl (UnknownKey key tag))"

fun parse_constraints :: "string list \<Rightarrow> Placement \<Rightarrow> placement_error + Placement" where
  "parse_constraints [] p = Inr p"
| "parse_constraints (tag # rest) p =
     (case strip_prefix REQUIRE_PREFIX tag of
        None \<Rightarrow> parse_constraints rest p
      | Some c \<Rightarrow>
          (case split_once CHR ''='' c of
             None \<Rightarrow> Inl (NotKeyValue tag)
           | Some (key, value) \<Rightarrow>
               if value = [] then Inl (EmptyValue tag)
               else (case add_constraint tag key value p of
                       Inl e \<Rightarrow> Inl e
                     | Inr p' \<Rightarrow> parse_constraints rest p')))"

definition from_task_tags :: "string list \<Rightarrow> placement_error + Placement" where
  "from_task_tags task_tags =
     (case parse_constraints task_tags placement_default of
        Inl e \<Rightarrow> Inl e
      | Inr p \<Rightarrow> Inr (p\<lparr>pl_tags := remdups_adj (sort (pl_tags p))\<rparr>))"

definition opt_tag :: "string \<Rightarrow> string option \<Rightarrow> string list" where
  "opt_tag key v = (case v of None \<Rightarrow> [] | Some x \<Rightarrow> [REQUIRE_PREFIX @ key @ ''='' @ x])"

definition tag_constraint :: "string \<Rightarrow> string" where
  "tag_constraint t = REQUIRE_PREFIX @ ''tag='' @ t"

definition to_task_tags :: "Placement \<Rightarrow> string list" where
  "to_task_tags p =
     opt_tag ''os'' (pl_os p) @ opt_tag ''arch'' (pl_arch p) @ opt_tag ''worker'' (pl_worker p)
     @ map tag_constraint (pl_tags p)"

definition has_value :: "string list \<Rightarrow> string \<Rightarrow> string \<Rightarrow> (string \<Rightarrow> string) \<Rightarrow> bool" where
  "has_value worker_tags pre wanted nf =
     list_ex (\<lambda>v. nf v = wanted) (List.map_filter (strip_prefix pre) worker_tags)"

definition placement_matches ::
  "(string \<Rightarrow> uuid option) \<Rightarrow> Placement \<Rightarrow> uuid \<Rightarrow> string \<Rightarrow> string list \<Rightarrow> bool" where
  "placement_matches parse_uuid p worker_id worker_name worker_tags =
     (if (case pl_os p of Some os \<Rightarrow> \<not> has_value worker_tags OS_TAG_PREFIX os normalize_os | None \<Rightarrow> False)
      then False
      else if (case pl_arch p of Some arch \<Rightarrow> \<not> has_value worker_tags ARCH_TAG_PREFIX arch normalize_arch | None \<Rightarrow> False)
      then False
      else if (case pl_worker p of
                 Some w \<Rightarrow> parse_uuid w \<noteq> Some worker_id \<and> \<not> eq_ignore_ascii_case worker_name w
               | None \<Rightarrow> False)
      then False
      else list_all (\<lambda>wanted. wanted \<in> set worker_tags) (pl_tags p))"

definition matches_listed ::
  "(string \<Rightarrow> uuid option) \<Rightarrow> Placement \<Rightarrow> string \<Rightarrow> string list \<Rightarrow> bool" where
  "matches_listed parse_uuid p name tags =
     placement_matches parse_uuid p
       (case listed_worker_id parse_uuid tags of Some i \<Rightarrow> i | None \<Rightarrow> 0) name tags"

section \<open>Canonical placements\<close>

text \<open>What parsing produces: normalized non-empty values, valid user tags in order.\<close>

definition user_tag :: "string \<Rightarrow> bool" where
  "user_tag t \<longleftrightarrow> validate_user_tag t = Inr ()"

definition canonical_placement :: "Placement \<Rightarrow> bool" where
  "canonical_placement p \<longleftrightarrow>
     (\<forall>v. pl_os p = Some v \<longrightarrow> v \<noteq> [] \<and> normalize_os v = v)
     \<and> (\<forall>v. pl_arch p = Some v \<longrightarrow> v \<noteq> [] \<and> normalize_arch v = v)
     \<and> (\<forall>v. pl_worker p = Some v \<longrightarrow> v \<noteq> [])
     \<and> sorted_wrt (<) (pl_tags p) \<and> (\<forall>t \<in> set (pl_tags p). user_tag t)"

lemma to_ascii_lowercase_Nil [simp]: "to_ascii_lowercase s = [] \<longleftrightarrow> s = []"
  by (simp add: to_ascii_lowercase_def)

lemma normalize_os_consts: "normalize_os ''macos'' = ''macos''" "normalize_os ''windows'' = ''windows''"
  by code_simp+

lemma normalize_arch_consts:
  "normalize_arch ''x86_64'' = ''x86_64''" "normalize_arch ''aarch64'' = ''aarch64''"
  "normalize_arch ''x86'' = ''x86''"
  by code_simp+

lemma normalize_os_idem: "normalize_os (normalize_os v) = normalize_os v"
proof -
  consider "normalize_os v = ''macos''" | "normalize_os v = ''windows''"
    | "normalize_os v = to_ascii_lowercase v"
        "to_ascii_lowercase v \<notin> {''mac'', ''darwin'', ''osx'', ''macosx''}"
        "to_ascii_lowercase v \<notin> {''win'', ''win32'', ''win64''}"
    unfolding normalize_os_def Let_def by argo
  then show ?thesis
  proof cases
    case 3
    then show ?thesis by (simp add: normalize_os_def)
  qed (simp_all add: normalize_os_consts)
qed

lemma normalize_arch_idem: "normalize_arch (normalize_arch v) = normalize_arch v"
proof -
  consider "normalize_arch v = ''x86_64''" | "normalize_arch v = ''aarch64''" | "normalize_arch v = ''x86''"
    | "normalize_arch v = to_ascii_lowercase v"
        "to_ascii_lowercase v \<notin> {''amd64'', ''x64'', ''x86-64''}"
        "to_ascii_lowercase v \<noteq> ''arm64''" "to_ascii_lowercase v \<notin> {''i386'', ''i686''}"
    unfolding normalize_arch_def Let_def by argo
  then show ?thesis
  proof cases
    case 4
    then show ?thesis by (simp add: normalize_arch_def)
  qed (simp_all add: normalize_arch_consts)
qed

lemma normalize_nonempty: "v \<noteq> [] \<Longrightarrow> normalize_os v \<noteq> [] \<and> normalize_arch v \<noteq> []"
  by (auto simp: normalize_os_def normalize_arch_def Let_def)

text \<open>The invariant of the loop: as \<^const>\<open>canonical_placement\<close>, with the tags still unordered.\<close>

definition placement_inv :: "Placement \<Rightarrow> bool" where
  "placement_inv p \<longleftrightarrow>
     (\<forall>v. pl_os p = Some v \<longrightarrow> v \<noteq> [] \<and> normalize_os v = v)
     \<and> (\<forall>v. pl_arch p = Some v \<longrightarrow> v \<noteq> [] \<and> normalize_arch v = v)
     \<and> (\<forall>v. pl_worker p = Some v \<longrightarrow> v \<noteq> [])
     \<and> (\<forall>t \<in> set (pl_tags p). user_tag t)"

lemma add_constraint_inv:
  "add_constraint tag key value p = Inr p' \<Longrightarrow> placement_inv p \<Longrightarrow> value \<noteq> [] \<Longrightarrow> placement_inv p'"
  by (auto simp: add_constraint_def placement_inv_def user_tag_def normalize_os_idem normalize_arch_idem
      normalize_nonempty split: if_splits sum.splits)

lemma parse_constraints_inv:
  "parse_constraints tags p = Inr p' \<Longrightarrow> placement_inv p \<Longrightarrow> placement_inv p'"
proof (induction tags p rule: parse_constraints.induct)
  case (2 tag rest p)
  then show ?case
    by (fastforce split: option.splits prod.splits if_splits sum.splits dest: add_constraint_inv)
qed simp

lemma sorted_remdups_adj_strict: "sorted xs \<Longrightarrow> sorted_wrt (<) (remdups_adj xs)"
  by (induction xs rule: remdups_adj.induct) (auto simp: less_le)

lemma from_task_tags_canonical: "from_task_tags tags = Inr p \<Longrightarrow> canonical_placement p"
proof -
  assume "from_task_tags tags = Inr p"
  then obtain q where q: "parse_constraints tags placement_default = Inr q"
    and p: "p = q\<lparr>pl_tags := remdups_adj (sort (pl_tags q))\<rparr>"
    by (auto simp: from_task_tags_def split: sum.splits)
  have "placement_inv q"
    by (rule parse_constraints_inv [OF q]) (simp add: placement_inv_def placement_default_def)
  then show ?thesis
    by (simp add: p placement_inv_def canonical_placement_def sorted_remdups_adj_strict)
qed

section \<open>Printing and reading back\<close>

lemma parse_constraints_append:
  "parse_constraints (xs @ ys) p =
     (case parse_constraints xs p of Inl e \<Rightarrow> Inl e | Inr q \<Rightarrow> parse_constraints ys q)"
  by (induction xs p rule: parse_constraints.induct) (auto split: option.splits sum.splits prod.splits)

lemma parse_constraint:
  assumes "CHR ''='' \<notin> set key" and "v \<noteq> []"
  shows "parse_constraints [REQUIRE_PREFIX @ key @ CHR ''='' # v] p
     = add_constraint (REQUIRE_PREFIX @ key @ CHR ''='' # v) key v p"
  using assms by (simp add: split_once_append split: sum.splits)

lemma parse_opt_os:
  assumes "\<forall>x. v = Some x \<longrightarrow> x \<noteq> [] \<and> normalize_os x = x" and "pl_os p = None"
  shows "parse_constraints (opt_tag ''os'' v) p = Inr (p\<lparr>pl_os := v\<rparr>)"
  using assms parse_constraint [of "''os''"] by (cases v) (auto simp: opt_tag_def add_constraint_def)

lemma parse_opt_arch:
  assumes "\<forall>x. v = Some x \<longrightarrow> x \<noteq> [] \<and> normalize_arch x = x" and "pl_arch p = None"
  shows "parse_constraints (opt_tag ''arch'' v) p = Inr (p\<lparr>pl_arch := v\<rparr>)"
  using assms parse_constraint [of "''arch''"] by (cases v) (auto simp: opt_tag_def add_constraint_def)

lemma parse_opt_worker:
  assumes "\<forall>x. v = Some x \<longrightarrow> x \<noteq> []" and "pl_worker p = None"
  shows "parse_constraints (opt_tag ''worker'' v) p = Inr (p\<lparr>pl_worker := v\<rparr>)"
  using assms parse_constraint [of "''worker''"] by (cases v) (auto simp: opt_tag_def add_constraint_def)

lemma parse_tag_constraint:
  assumes "user_tag t"
  shows "parse_constraints [tag_constraint t] p = Inr (p\<lparr>pl_tags := pl_tags p @ [t]\<rparr>)"
proof -
  from assms have "t \<noteq> []" by (auto simp: user_tag_def validate_user_tag_def)
  then have "parse_constraints [tag_constraint t] p = add_constraint (tag_constraint t) ''tag'' t p"
    unfolding tag_constraint_def using parse_constraint [of "''tag''" t p]
    by (simp del: parse_constraints.simps)
  with assms show ?thesis by (simp add: user_tag_def add_constraint_def)
qed

lemma parse_tag_list:
  "\<forall>t \<in> set ts. user_tag t \<Longrightarrow>
     parse_constraints (map tag_constraint ts) p = Inr (p\<lparr>pl_tags := pl_tags p @ ts\<rparr>)"
proof (induction ts arbitrary: p)
  case (Cons t ts)
  then have "parse_constraints [tag_constraint t] p = Inr (p\<lparr>pl_tags := pl_tags p @ [t]\<rparr>)"
    by (intro parse_tag_constraint) simp
  with Cons show ?case
    using parse_constraints_append [of "[tag_constraint t]" "map tag_constraint ts" p] by simp
qed simp

lemma parse_ignores:
  "\<forall>t \<in> set tags. strip_prefix REQUIRE_PREFIX t = None \<Longrightarrow> parse_constraints tags p = Inr p"
  by (induction tags) auto

lemma parse_to_task_tags:
  assumes "canonical_placement p"
  shows "parse_constraints (to_task_tags p) placement_default = Inr p"
  using assms
  by (simp add: to_task_tags_def canonical_placement_def
      parse_constraints_append parse_opt_os parse_opt_arch parse_opt_worker parse_tag_list
      placement_default_def)

lemma strict_sorted_dedup: "sorted_wrt (<) xs \<Longrightarrow> remdups_adj (sort xs) = xs"
  by (simp add: strict_sorted_iff sorted_sort_id remdups_adj_distinct)

section \<open>Properties\<close>

text \<open>
  C38. Placement constraints survive the trip through a task's tags: printing canonical constraints
  behind any tags that are not constraints themselves, and reading the tags back, gives the
  constraints.
\<close>

theorem placement_roundtrip:
  assumes "canonical_placement p" and "\<forall>t \<in> set tags. strip_prefix REQUIRE_PREFIX t = None"
  shows "from_task_tags (tags @ to_task_tags p) = Inr p"
proof -
  have "parse_constraints (tags @ to_task_tags p) placement_default = Inr p"
    using assms parse_ignores parse_to_task_tags by (simp add: parse_constraints_append)
  moreover have "remdups_adj (sort (pl_tags p)) = pl_tags p"
    using assms(1) by (simp add: canonical_placement_def strict_sorted_dedup)
  ultimately show ?thesis by (simp add: from_task_tags_def)
qed

theorem placement_roundtrip_witness:
  "from_task_tags ([''nightly''] @ to_task_tags \<lparr>pl_os = Some ''linux'', pl_arch = None, pl_worker = None, pl_tags = [''cuda'']\<rparr>)
     = Inr \<lparr>pl_os = Some ''linux'', pl_arch = None, pl_worker = None, pl_tags = [''cuda'']\<rparr>"
proof (rule placement_roundtrip)
  have "normalize_os ''linux'' = ''linux''" "user_tag ''cuda''" by code_simp+
  then show "canonical_placement \<lparr>pl_os = Some ''linux'', pl_arch = None, pl_worker = None, pl_tags = [''cuda'']\<rparr>"
    by (simp add: canonical_placement_def)
  show "\<forall>t \<in> set [''nightly'']. strip_prefix REQUIRE_PREFIX t = None" by code_simp
qed

text \<open>
  Whatever the tags, constraints that are read are canonical: normalized operating system and
  architecture names, no empty value, valid user tags in order and without repetition.  Reading is
  therefore stable under printing.
\<close>

theorem placement_parse_canonical:
  assumes "from_task_tags tags = Inr p"
  shows "canonical_placement p \<and> from_task_tags (to_task_tags p) = Inr p"
proof -
  have p: "canonical_placement p" using assms by (rule from_task_tags_canonical)
  then have "parse_constraints (to_task_tags p) placement_default = Inr p" by (rule parse_to_task_tags)
  with p show ?thesis
    by (simp add: from_task_tags_def canonical_placement_def strict_sorted_dedup)
qed

theorem placement_parse_canonical_witness:
  "from_task_tags (to_task_tags \<lparr>pl_os = Some ''macos'', pl_arch = None, pl_worker = None, pl_tags = []\<rparr>)
     = Inr \<lparr>pl_os = Some ''macos'', pl_arch = None, pl_worker = None, pl_tags = []\<rparr>"
proof -
  have "from_task_tags [''require:os=Darwin''] = Inr \<lparr>pl_os = Some ''macos'', pl_arch = None, pl_worker = None, pl_tags = []\<rparr>"
    by code_simp
  from placement_parse_canonical [OF this] show ?thesis by blast
qed

lemma reserved_no_strip:
  assumes "user_tag t" and "pre \<in> set RESERVED_TAG_PREFIXES"
  shows "strip_prefix pre t = None"
proof -
  have "find (\<lambda>p. starts_with t p) RESERVED_TAG_PREFIXES = None"
    using assms(1) by (auto simp: user_tag_def validate_user_tag_def split: if_splits option.splits)
  with assms(2) have "\<not> starts_with t pre" by (auto simp: find_None_iff)
  then show ?thesis by (simp add: strip_prefix_def starts_with_def)
qed

text \<open>
  C39. A tag an operator may give a worker cannot pass for one the worker reports about itself: with
  such a tag added, the worker's operating system, architecture and listed id are what they were,
  so it matches exactly the same constraints that ask for no user tag.
\<close>

theorem user_tag_no_spoof:
  assumes "validate_user_tag t = Inr ()" and "pl_tags p = []"
  shows "placement_matches parse_uuid p wid name (t # tags) = placement_matches parse_uuid p wid name tags
     \<and> listed_worker_id parse_uuid (t # tags) = listed_worker_id parse_uuid tags
     \<and> advertised_slots (t # tags) = advertised_slots tags"
proof -
  have strip: "strip_prefix OS_TAG_PREFIX t = None" "strip_prefix ARCH_TAG_PREFIX t = None"
    "strip_prefix ID_TAG_PREFIX t = None" "strip_prefix SLOTS_TAG_PREFIX t = None"
    using assms(1) by (simp_all add: user_tag_def reserved_no_strip RESERVED_TAG_PREFIXES_def)
  then have "has_value (t # tags) OS_TAG_PREFIX v nf = has_value tags OS_TAG_PREFIX v nf"
    "has_value (t # tags) ARCH_TAG_PREFIX v nf = has_value tags ARCH_TAG_PREFIX v nf" for v nf
    by (simp_all add: has_value_def List.map_filter_simps)
  with strip assms(2) show ?thesis
    by (simp add: placement_matches_def listed_worker_id_def advertised_slots_def split: option.split)
qed

theorem user_tag_no_spoof_witness:
  "placement_matches (\<lambda>_. None) \<lparr>pl_os = Some ''linux'', pl_arch = None, pl_worker = None, pl_tags = []\<rparr> 1
     ''w'' [''OS:linux'', ''os:windows''] = False"
proof -
  let ?p = "\<lparr>pl_os = Some ''linux'', pl_arch = None, pl_worker = None, pl_tags = []\<rparr>"
  have "validate_user_tag ''OS:linux'' = Inr ()" by code_simp
  then have "placement_matches (\<lambda>_. None) ?p 1 ''w'' [''OS:linux'', ''os:windows'']
      = placement_matches (\<lambda>_. None) ?p 1 ''w'' [''os:windows'']"
    using user_tag_no_spoof [of "''OS:linux''" ?p "\<lambda>_. None" 1 "''w''" "[''os:windows'']"] by simp
  moreover have "placement_matches (\<lambda>_. None) ?p 1 ''w'' [''os:windows''] = False" by code_simp
  ultimately show ?thesis by simp
qed

end
