(* ===== verification/Sandbox_Path.thy ===== *)
theory Sandbox_Path
  imports Rust_Text
begin

text \<open>
  \<^verbatim>\<open>validate_relative_sandbox_path\<close> of \<^verbatim>\<open>crates/core/src/task.rs\<close>: the check every staged
  input file and every declared output of a task goes through before it touches a file
  system, and the proof that an accepted path stays below the sandbox directory.
\<close>

section \<open>The check\<close>

definition WINDOWS_RESERVED_DEVICE_NAMES :: "string list" where
  "WINDOWS_RESERVED_DEVICE_NAMES =
     [''CON'', ''PRN'', ''AUX'', ''NUL'', ''COM1'', ''COM2'', ''COM3'', ''COM4'', ''COM5'', ''COM6'',
      ''COM7'', ''COM8'', ''COM9'', ''LPT1'', ''LPT2'', ''LPT3'', ''LPT4'', ''LPT5'', ''LPT6'',
      ''LPT7'', ''LPT8'', ''LPT9'']"

datatype sandbox_error =
    SandboxPathEmpty
  | SandboxPathNul
  | SandboxPathAbsolute string
  | SandboxPathColon string
  | SandboxPathUnc string
  | SandboxPathTraversal string
  | SandboxPathDots string string
  | SandboxPathDevice string string
  | SandboxPathNothingLeft string

definition device_base_name :: "string \<Rightarrow> string" where
  "device_base_name cleaned =
     to_ascii_uppercase (trim_end_matches [CHR '' '', CHR ''.''] (hd (split_on CHR ''.'' cleaned)))"

fun sandbox_segments :: "string \<Rightarrow> string list \<Rightarrow> sandbox_error + string list" where
  "sandbox_segments raw [] = Inr []"
| "sandbox_segments raw (seg # rest) =
     (let s = trim seg; cleaned = trim_end_matches [CHR '' '', CHR ''.''] s
      in if s = [] \<or> s = ''.'' then sandbox_segments raw rest
         else if s = ''..'' then Inl (SandboxPathTraversal raw)
         else if cleaned = [] then Inl (SandboxPathDots s raw)
         else if device_base_name cleaned \<in> set WINDOWS_RESERVED_DEVICE_NAMES
              then Inl (SandboxPathDevice s raw)
         else case sandbox_segments raw rest of Inl e \<Rightarrow> Inl e | Inr segs \<Rightarrow> Inr (s # segs))"

definition validate_relative_sandbox_path :: "string \<Rightarrow> sandbox_error + string" where
  "validate_relative_sandbox_path raw =
     (if raw = [] then Inl SandboxPathEmpty
      else if CHR 0x00 \<in> set raw then Inl SandboxPathNul
      else if starts_with raw ''/'' \<or> starts_with raw [CHR 0x5C] then Inl (SandboxPathAbsolute raw)
      else if CHR '':'' \<in> set raw then Inl (SandboxPathColon raw)
      else let trimmed_raw = trim (replace_char CHR 0x5C CHR ''/'' raw)
           in if trimmed_raw = [] then Inl SandboxPathEmpty
              else if starts_with trimmed_raw ''/'' then Inl (SandboxPathAbsolute raw)
              else if starts_with trimmed_raw ''//'' then Inl (SandboxPathUnc raw)
              else case sandbox_segments raw (split_on CHR ''/'' trimmed_raw) of
                     Inl e \<Rightarrow> Inl e
                   | Inr segs \<Rightarrow>
                       if segs = [] then Inl (SandboxPathNothingLeft raw) else Inr (join ''/'' segs))"

section \<open>What an accepted path looks like\<close>

definition sandbox_segment :: "string \<Rightarrow> bool" where
  "sandbox_segment s \<longleftrightarrow>
     s \<noteq> [] \<and> s \<noteq> ''.'' \<and> s \<noteq> ''..'' \<and> trimmed s
     \<and> trim_end_matches [CHR '' '', CHR ''.''] s \<noteq> []
     \<and> device_base_name (trim_end_matches [CHR '' '', CHR ''.''] s) \<notin> set WINDOWS_RESERVED_DEVICE_NAMES
     \<and> CHR ''/'' \<notin> set s \<and> CHR 0x5C \<notin> set s \<and> CHR '':'' \<notin> set s \<and> CHR 0x00 \<notin> set s"

text \<open>Following a path from a directory, as an operating system does.\<close>

fun walk :: "string list \<Rightarrow> string list \<Rightarrow> string list" where
  "walk dir [] = dir"
| "walk dir (s # rest) =
     (if s = [] \<or> s = ''.'' then walk dir rest
      else if s = ''..'' then walk (butlast dir) rest
      else walk (dir @ [s]) rest)"

lemma walk_sandbox: "\<forall>s \<in> set segs. sandbox_segment s \<Longrightarrow> walk dir segs = dir @ segs"
  by (induction dir segs rule: walk.induct) (auto simp: sandbox_segment_def)

definition clean_part :: "string \<Rightarrow> bool" where
  "clean_part s \<longleftrightarrow> CHR ''/'' \<notin> set s \<and> CHR 0x5C \<notin> set s \<and> CHR '':'' \<notin> set s \<and> CHR 0x00 \<notin> set s"

lemma sandbox_segment_trim:
  assumes "clean_part seg" and "trim seg \<notin> {[], ''.'', ''..''}"
    and "trim_end_matches [CHR '' '', CHR ''.''] (trim seg) \<noteq> []"
    and "device_base_name (trim_end_matches [CHR '' '', CHR ''.''] (trim seg)) \<notin> set WINDOWS_RESERVED_DEVICE_NAMES"
  shows "sandbox_segment (trim seg)"
  using assms set_trim [of seg] by (auto simp: sandbox_segment_def clean_part_def trimmed_trim)

lemma sandbox_segments_ok:
  "sandbox_segments raw parts = Inr segs \<Longrightarrow> list_all clean_part parts \<Longrightarrow> \<forall>s \<in> set segs. sandbox_segment s"
proof (induction raw parts arbitrary: segs rule: sandbox_segments.induct)
  case (2 raw seg rest)
  show ?case
  proof (cases "trim seg = [] \<or> trim seg = ''.''")
    case True
    with 2 show ?thesis by (simp add: Let_def)
  next
    case False
    with "2.prems"(1) obtain out where
      out: "sandbox_segments raw rest = Inr out" and segs: "segs = trim seg # out"
      and ok: "trim seg \<noteq> ''..''" "trim_end_matches [CHR '' '', CHR ''.''] (trim seg) \<noteq> []"
        "device_base_name (trim_end_matches [CHR '' '', CHR ''.''] (trim seg)) \<notin> set WINDOWS_RESERVED_DEVICE_NAMES"
      by (auto simp: Let_def split: if_splits sum.splits)
    have "\<forall>s \<in> set out. sandbox_segment s"
      using "2.IH"(2) [OF refl refl False _ _ _ out] ok "2.prems"(2) by simp
    moreover have "sandbox_segment (trim seg)"
      using False ok "2.prems"(2) by (intro sandbox_segment_trim) auto
    ultimately show ?thesis by (simp add: segs)
  qed
qed simp

lemma sandbox_segments_id:
  "\<forall>s \<in> set segs. sandbox_segment s \<Longrightarrow> sandbox_segments raw segs = Inr segs"
  by (induction raw segs rule: sandbox_segments.induct)
    (auto simp: sandbox_segment_def trim_trimmed Let_def)

section \<open>Accepted paths are fixed points\<close>

lemma ws_no_slash: "\<forall>w \<in> set rust_ws. CHR ''/'' \<notin> set w"
  by code_simp

lemma front_match_slash:
  assumes "front_match P x = None" and "\<forall>w \<in> set P. CHR ''/'' \<notin> set w"
  shows "front_match P (x @ CHR ''/'' # y) = None"
  unfolding front_match_None
proof (intro ballI impI notI)
  fix w assume w: "w \<in> set P" "w \<noteq> []" "prefix w (x @ CHR ''/'' # y)"
  then consider "prefix w x" | us where "w = x @ us" "prefix us (CHR ''/'' # y)" "us \<noteq> []"
    by (metis append_Nil2 prefix_append prefix_order.refl)
  then show False
  proof cases
    case 1
    with w assms(1) show False by (auto simp: front_match_None)
  next
    case 2
    then have "CHR ''/'' \<in> set w" by (cases us) auto
    with w assms(2) show False by blast
  qed
qed

lemma trimmed_slash:
  assumes "trimmed x" and "trimmed y"
  shows "trimmed (x @ CHR ''/'' # y)"
proof -
  have "\<forall>w \<in> set (map rev rust_ws). CHR ''/'' \<notin> set w" using ws_no_slash by auto
  then have "front_match (map rev rust_ws) (rev y @ CHR ''/'' # rev x) = None"
    using assms(2) by (intro front_match_slash) (auto simp: trimmed_def)
  then show ?thesis
    using assms(1) front_match_slash [OF _ ws_no_slash] by (simp add: trimmed_def)
qed

lemma trimmed_join: "\<forall>s \<in> set segs. trimmed s \<Longrightarrow> segs \<noteq> [] \<Longrightarrow> trimmed (join ''/'' segs)"
  by (induction "''/''" segs rule: join.induct) (auto intro: trimmed_slash)

lemma join_head: "s \<noteq> [] \<Longrightarrow> hd (join sep (s # segs)) = hd s \<and> join sep (s # segs) \<noteq> []"
  by (cases segs) auto

lemma replace_char_absent: "a \<notin> set s \<Longrightarrow> replace_char a b s = s"
  by (auto simp: replace_char_def intro: map_idI)

lemma starts_with_char: "starts_with s [c] \<longleftrightarrow> s \<noteq> [] \<and> hd s = c"
  by (cases s) (auto simp: starts_with_def)

lemma validate_accepts:
  assumes "\<forall>s \<in> set segs. sandbox_segment s" and "segs \<noteq> []"
  shows "validate_relative_sandbox_path (join ''/'' segs) = Inr (join ''/'' segs)"
proof -
  let ?p = "join ''/'' segs"
  obtain s rest where segs: "segs = s # rest" using assms(2) by (cases segs) auto
  with assms(1) have s: "s \<noteq> []" "CHR ''/'' \<notin> set s" "CHR 0x5C \<notin> set s"
    by (simp_all add: sandbox_segment_def)
  then have hd: "?p \<noteq> []" "hd ?p = hd s" using join_head [of s "''/''" rest] segs by auto
  from s have hs: "hd s \<noteq> CHR ''/''" "hd s \<noteq> CHR 0x5C" by (metis list.set_sel(1))+
  have chars: "CHR 0x00 \<notin> set ?p" "CHR '':'' \<notin> set ?p" "CHR 0x5C \<notin> set ?p"
    using set_join [of "''/''" segs] assms(1) by (auto simp: sandbox_segment_def)
  have "trimmed ?p" using assms by (intro trimmed_join) (auto simp: sandbox_segment_def)
  then have trim: "trim (replace_char CHR 0x5C CHR ''/'' ?p) = ?p"
    using chars(3) by (simp add: replace_char_absent trim_trimmed)
  have split: "split_on CHR ''/'' ?p = segs"
    using assms by (intro split_on_join) (auto simp: sandbox_segment_def)
  have "\<not> starts_with ?p ''//''"
    using hd hs by (cases ?p) (auto simp: starts_with_def)
  with hd hs chars trim split sandbox_segments_id [OF assms(1)] assms(2) show ?thesis
    by (simp add: validate_relative_sandbox_path_def starts_with_char Let_def)
qed

lemma validate_shape:
  assumes "validate_relative_sandbox_path raw = Inr out"
  obtains segs where "out = join ''/'' segs" "segs \<noteq> []" "\<forall>s \<in> set segs. sandbox_segment s"
    "split_on CHR ''/'' out = segs"
proof -
  let ?t = "trim (replace_char CHR 0x5C CHR ''/'' raw)"
  obtain segs where segs: "sandbox_segments raw (split_on CHR ''/'' ?t) = Inr segs"
    using assms by (cases "sandbox_segments raw (split_on CHR ''/'' ?t)")
      (simp_all add: validate_relative_sandbox_path_def Let_def split: if_splits)
  with assms have out: "out = join ''/'' segs" "segs \<noteq> []"
    and raw: "CHR 0x00 \<notin> set raw" "CHR '':'' \<notin> set raw"
    by (simp_all add: validate_relative_sandbox_path_def Let_def split: if_splits)
  have "set ?t \<subseteq> insert CHR ''/'' (set raw - {CHR 0x5C})"
    using set_trim set_replace_char by (rule subset_trans)
  moreover have "\<forall>r \<in> set (split_on CHR ''/'' ?t). CHR ''/'' \<notin> set r \<and> set r \<subseteq> set ?t"
    using split_on_clean by blast
  ultimately have "list_all clean_part (split_on CHR ''/'' ?t)"
    using raw unfolding list_all_iff clean_part_def by blast
  with segs have ok: "\<forall>s \<in> set segs. sandbox_segment s" by (rule sandbox_segments_ok)
  then have "split_on CHR ''/'' out = segs"
    using out by (simp add: split_on_join sandbox_segment_def)
  with out ok that show ?thesis by blast
qed

section \<open>Properties\<close>

text \<open>
  C30. A path that passes the sandbox check stays in the sandbox: followed from any directory the
  way an operating system follows it, the returned path ends below that directory, and each of
  its segments is a plain file name (not empty, not a dot segment, no separator, no colon, no NUL
  byte, not a reserved device name).
\<close>

theorem sandbox_path_confined:
  assumes "validate_relative_sandbox_path raw = Inr out"
  shows "walk dir (split_on CHR ''/'' out) = dir @ split_on CHR ''/'' out
     \<and> (\<forall>s \<in> set (split_on CHR ''/'' out). sandbox_segment s)"
proof -
  obtain segs where "split_on CHR ''/'' out = segs" "\<forall>s \<in> set segs. sandbox_segment s"
    using validate_shape [OF assms] by metis
  then show ?thesis using walk_sandbox by simp
qed

theorem sandbox_path_confined_witness:
  "walk [''tmp'', ''task''] (split_on CHR ''/'' ''data/in.csv'') = [''tmp'', ''task'', ''data'', ''in.csv'']"
proof -
  have "validate_relative_sandbox_path (''./data'' @ [CHR 0x5C] @ '' in.csv'') = Inr ''data/in.csv''" by code_simp
  from sandbox_path_confined [OF this, of "[''tmp'', ''task'']"] show ?thesis by simp
qed

text \<open>
  Normalization is complete in one pass: checking an accepted path again accepts it and
  returns it unchanged.
\<close>

theorem sandbox_path_idempotent:
  assumes "validate_relative_sandbox_path raw = Inr out"
  shows "validate_relative_sandbox_path out = Inr out"
proof -
  obtain segs where "out = join ''/'' segs" "segs \<noteq> []" "\<forall>s \<in> set segs. sandbox_segment s"
    using validate_shape [OF assms] by metis
  then show ?thesis using validate_accepts by simp
qed

theorem sandbox_path_idempotent_witness:
  "validate_relative_sandbox_path ''data/in.csv'' = Inr ''data/in.csv''"
proof -
  have "validate_relative_sandbox_path (''./data'' @ [CHR 0x5C] @ '' in.csv'') = Inr ''data/in.csv''" by code_simp
  then show ?thesis by (rule sandbox_path_idempotent)
qed

end
