(* ===== verification/Task_Model.thy ===== *)
theory Task_Model
  imports Sandbox_Path Output_Pattern Placement
begin

text \<open>
  Tasks, their specifications and results, and the task life cycle of
  \<^verbatim>\<open>crates/core/src/task.rs\<close>.  SHA-256 comes from the \<^verbatim>\<open>ring\<close> crate and is a parameter
  \<open>sha256\<close> of the definitions that use it; the UUID a task is created with and the clock are
  arguments.
\<close>

type_synonym env_map = "(string \<times> string) list"

section \<open>Byte buffers\<close>

definition bytes_as_str :: "bytes \<Rightarrow> string" where
  "bytes_as_str b = take (utf8_valid_up_to b) b"

definition bytes_try_as_str :: "bytes \<Rightarrow> string option" where
  "bytes_try_as_str b = (if utf8_ok b then Some b else None)"

definition bytes_to_string_lossy :: "bytes \<Rightarrow> string" where
  "bytes_to_string_lossy b = from_utf8_lossy b"

section \<open>Requirements\<close>

datatype task_error =
    TimeoutZero
  | CommandProgramEmpty
  | ShellScriptEmpty
  | CrateNameEmpty
  | NoSourceFiles
  | KernelNameEmpty
  | NoPromptOrImage
  | QualityEmpty
  | UnknownEngine string
  | TrellisUnsupported
  | AutoEngineImage
  | SdfEngineImage
  | InputMeshEmpty
  | RigPresetEmpty
  | GpuNotRequested
  | BadPlacement placement_error
  | StagedLengthMismatch string nat nat
  | StagedFileTooLarge string nat
  | StagedAggregateTooLarge
  | BadSandboxPath sandbox_error
  | BlobsUnsupported string
  | BadBlob blob_error

record TaskRequirements =
  cpu_cores :: nat
  ram_mb :: nat
  gpu_required :: bool
  timeout_secs :: nat
  req_max_retries :: "nat option"

definition requirements_default :: TaskRequirements where
  "requirements_default =
     \<lparr>cpu_cores = 1, ram_mb = 512, gpu_required = False, timeout_secs = 60, req_max_retries = None\<rparr>"

definition requirements_generic :: "nat \<Rightarrow> nat \<Rightarrow> TaskRequirements" where
  "requirements_generic cores timeout =
     \<lparr>cpu_cores = cores, ram_mb = 512, gpu_required = False, timeout_secs = timeout,
      req_max_retries = None\<rparr>"

definition requirements_gpu :: "nat \<Rightarrow> TaskRequirements" where
  "requirements_gpu timeout =
     \<lparr>cpu_cores = 1, ram_mb = 1024, gpu_required = True, timeout_secs = timeout,
      req_max_retries = None\<rparr>"

definition with_max_retries :: "TaskRequirements \<Rightarrow> nat \<Rightarrow> TaskRequirements" where
  "with_max_retries r retries = r\<lparr>req_max_retries := Some retries\<rparr>"

definition requirements_validate :: "TaskRequirements \<Rightarrow> task_error + unit" where
  "requirements_validate r = (if timeout_secs r = 0 then Inl TimeoutZero else Inr ())"

section \<open>3D engines and specifications\<close>

datatype Engine3D = Auto | Sdf | TripoSr | Trellis

fun engine_as_str :: "Engine3D \<Rightarrow> string" where
  "engine_as_str Auto = ''auto''"
| "engine_as_str Sdf = ''sdf''"
| "engine_as_str TripoSr = ''triposr''"
| "engine_as_str Trellis = ''trellis''"

fun engine_requires_gpu :: "Engine3D \<Rightarrow> bool" where
  "engine_requires_gpu Auto = False"
| "engine_requires_gpu Sdf = False"
| "engine_requires_gpu TripoSr = False"
| "engine_requires_gpu Trellis = False"

definition engine_parse :: "string \<Rightarrow> task_error + Engine3D" where
  "engine_parse s =
     (let k = to_ascii_lowercase (trim s)
      in if k \<in> set [''auto'', ''''] then Inr Auto
         else if k \<in> set [''sdf'', ''tier0_sdf'', ''tier0'', ''tier-0'', ''procedural'', ''procedural_sdf'']
              then Inr Sdf
         else if k \<in> set [''triposr'', ''tripo_sr'', ''triposr-cuda'', ''triposr-cpu'', ''tripo'']
              then Inr TripoSr
         else if k = ''trellis'' then Inr Trellis
         else Inl (UnknownEngine (trim s)))"

record Generative3DSpec =
  g3_prompt :: "string option"
  g3_image_data :: "bytes option"
  g3_quality :: string
  g3_engine_preference :: "string option"
  g3_export_texture :: bool

definition default_3d_quality :: string where
  "default_3d_quality = ''standard''"

definition generative_new_prompt :: "string \<Rightarrow> Generative3DSpec" where
  "generative_new_prompt p =
     \<lparr>g3_prompt = Some p, g3_image_data = None, g3_quality = default_3d_quality,
      g3_engine_preference = None, g3_export_texture = True\<rparr>"

definition generative_new_image :: "bytes \<Rightarrow> Generative3DSpec" where
  "generative_new_image img =
     \<lparr>g3_prompt = None, g3_image_data = Some img, g3_quality = default_3d_quality,
      g3_engine_preference = Some ''triposr'', g3_export_texture = True\<rparr>"

definition try_engine :: "Generative3DSpec \<Rightarrow> task_error + Engine3D" where
  "try_engine g = (case g3_engine_preference g of Some raw \<Rightarrow> engine_parse raw | None \<Rightarrow> Inr Auto)"

definition engine :: "Generative3DSpec \<Rightarrow> Engine3D" where
  "engine g = (case try_engine g of Inr e \<Rightarrow> e | Inl _ \<Rightarrow> Auto)"

record AutoRigSpec =
  ar_input_mesh :: bytes
  ar_rig_preset :: string
  ar_embed_animations :: "string list"
  ar_preferred_provider :: "string option"

definition default_embed_animations :: "string list" where
  "default_embed_animations = [''idle'', ''walk'', ''turnaround'']"

definition autorig_new :: "bytes \<Rightarrow> string \<Rightarrow> AutoRigSpec" where
  "autorig_new mesh preset =
     \<lparr>ar_input_mesh = mesh, ar_rig_preset = preset, ar_embed_animations = default_embed_animations,
      ar_preferred_provider = None\<rparr>"

section \<open>Task specifications\<close>

text \<open>
  The fields of each variant are in the order of the source: for a command, the program, its
  arguments, environment, working directory and standard input; for a script, its text,
  interpreter and environment; for a compilation, the crate name, source files, compiler flags
  and target directory; for GPU work, the kernel name, input, work-group size, matrix dimension
  and intensity; for a built-in test, its name, iterations, duration, and the fail and GPU flags.
\<close>

datatype TaskSpec =
    Command string "string list" env_map "string option" "bytes option"
  | ShellScript string "string option" env_map
  | RustCompilation string env_map "string list" "string option"
  | GpuCompute string bytes nat nat nat
  | BuiltinTest string nat nat bool bool
  | Generative3D Generative3DSpec
  | AutoRig AutoRigSpec

definition new_command :: "string \<Rightarrow> string list \<Rightarrow> TaskSpec" where
  "new_command p a = Command p a [] None None"

definition new_shell_script :: "string \<Rightarrow> TaskSpec" where
  "new_shell_script s = ShellScript s None []"

definition new_rust_compilation :: "string \<Rightarrow> env_map \<Rightarrow> string list \<Rightarrow> TaskSpec" where
  "new_rust_compilation name files flags = RustCompilation name files flags None"

definition new_gpu_compute :: "string \<Rightarrow> nat \<Rightarrow> TaskSpec" where
  "new_gpu_compute name dim = GpuCompute name [] 16 dim 1"

definition new_builtin_test :: "string \<Rightarrow> nat \<Rightarrow> TaskSpec" where
  "new_builtin_test name iters = BuiltinTest name iters 0 False False"

fun task_type :: "TaskSpec \<Rightarrow> string" where
  "task_type (Command _ _ _ _ _) = ''Command''"
| "task_type (ShellScript _ _ _) = ''ShellScript''"
| "task_type (RustCompilation _ _ _ _) = ''RustCompilation''"
| "task_type (GpuCompute _ _ _ _ _) = ''GpuCompute''"
| "task_type (BuiltinTest _ _ _ _ _) = ''BuiltinTest''"
| "task_type (Generative3D _) = ''Generative3D''"
| "task_type (AutoRig _) = ''AutoRig''"

definition generative_validate :: "Generative3DSpec \<Rightarrow> task_error + unit" where
  "generative_validate g =
     (let has_prompt = (case g3_prompt g of Some p \<Rightarrow> trim p \<noteq> [] | None \<Rightarrow> False);
          has_image = (case g3_image_data g of Some img \<Rightarrow> img \<noteq> [] | None \<Rightarrow> False)
      in if \<not> has_prompt \<and> \<not> has_image then Inl NoPromptOrImage
         else if trim (g3_quality g) = [] then Inl QualityEmpty
         else case try_engine g of
                Inl e \<Rightarrow> Inl e
              | Inr eng \<Rightarrow>
                  if eng = Trellis then Inl TrellisUnsupported
                  else if has_image then
                    (case eng of
                       Auto \<Rightarrow> Inl AutoEngineImage
                     | Sdf \<Rightarrow> Inl SdfEngineImage
                     | TripoSr \<Rightarrow> Inr ()
                     | Trellis \<Rightarrow> Inr ())
                  else Inr ())"

fun spec_validate :: "TaskSpec \<Rightarrow> task_error + unit" where
  "spec_validate (Command p _ _ _ _) = (if trim p = [] then Inl CommandProgramEmpty else Inr ())"
| "spec_validate (ShellScript s _ _) = (if trim s = [] then Inl ShellScriptEmpty else Inr ())"
| "spec_validate (RustCompilation n files _ _) =
     (if trim n = [] then Inl CrateNameEmpty else if files = [] then Inl NoSourceFiles else Inr ())"
| "spec_validate (GpuCompute k _ _ _ _) = (if trim k = [] then Inl KernelNameEmpty else Inr ())"
| "spec_validate (BuiltinTest _ _ _ _ _) = Inr ()"
| "spec_validate (Generative3D g) = generative_validate g"
| "spec_validate (AutoRig a) =
     (if ar_input_mesh a = [] then Inl InputMeshEmpty
      else if trim (ar_rig_preset a) = [] then Inl RigPresetEmpty else Inr ())"

fun spec_requires_gpu :: "TaskSpec \<Rightarrow> bool" where
  "spec_requires_gpu (GpuCompute _ _ _ _ _) = True"
| "spec_requires_gpu (BuiltinTest _ _ _ _ gpu) = gpu"
| "spec_requires_gpu (Generative3D g) = engine_requires_gpu (engine g)"
| "spec_requires_gpu (AutoRig _) = False"
| "spec_requires_gpu _ = False"

section \<open>Checkpoints, staged files, artifacts\<close>

record CheckpointData =
  cp_sequence :: nat
  cp_delta_state :: bytes
  cp_timestamp :: nat

definition MAX_STAGED_FILE_BYTES :: nat where "MAX_STAGED_FILE_BYTES = 33554432"
definition MAX_AGGREGATE_STAGED_BYTES :: nat where "MAX_AGGREGATE_STAGED_BYTES = 33554432"

definition hex_digit :: "nat \<Rightarrow> char" where
  "hex_digit n = (if n < 10 then char_of (48 + n) else char_of (87 + n))"

fun hex_encode :: "bytes \<Rightarrow> string" where
  "hex_encode [] = []"
| "hex_encode (b # bs) = hex_digit (of_char b div 16) # hex_digit (of_char b mod 16) # hex_encode bs"

record StagedFile =
  sf_path :: string
  sf_size :: nat
  sf_sha256 :: bytes
  sf_executable :: bool
  sf_data :: bytes

definition staged_new :: "(bytes \<Rightarrow> bytes) \<Rightarrow> string \<Rightarrow> bytes \<Rightarrow> bool \<Rightarrow> StagedFile" where
  "staged_new sha256 p d x =
     \<lparr>sf_path = p, sf_size = length d, sf_sha256 = sha256 d, sf_executable = x, sf_data = d\<rparr>"

definition staged_verify_checksum :: "(bytes \<Rightarrow> bytes) \<Rightarrow> StagedFile \<Rightarrow> bool" where
  "staged_verify_checksum sha256 f =
     (if length (sf_data f) \<noteq> sf_size f then False else sha256 (sf_data f) = sf_sha256 f)"

record OutputArtifact =
  oa_path :: string
  oa_size :: nat
  oa_sha256 :: bytes
  oa_data :: bytes

definition artifact_new :: "(bytes \<Rightarrow> bytes) \<Rightarrow> string \<Rightarrow> bytes \<Rightarrow> OutputArtifact" where
  "artifact_new sha256 p d =
     \<lparr>oa_path = p, oa_size = length d, oa_sha256 = sha256 d, oa_data = d\<rparr>"

definition artifact_verify_checksum :: "(bytes \<Rightarrow> bytes) \<Rightarrow> OutputArtifact \<Rightarrow> bool" where
  "artifact_verify_checksum sha256 a =
     (if length (oa_data a) \<noteq> oa_size a then False else sha256 (oa_data a) = oa_sha256 a)"

section \<open>Tasks\<close>

record Task =
  t_id :: uuid
  t_spec :: TaskSpec
  t_requirements :: TaskRequirements
  t_created_at_utc :: nat
  t_tags :: "string list"
  t_latest_checkpoint :: "CheckpointData option"
  t_staged_files :: "StagedFile list"
  t_expected_outputs :: "string list"
  t_inputs :: "TaskInput list"
  t_output_globs :: "string list"

definition task_new :: "uuid \<Rightarrow> nat \<Rightarrow> TaskSpec \<Rightarrow> TaskRequirements \<Rightarrow> Task" where
  "task_new fresh now_utc spec req =
     \<lparr>t_id = fresh, t_spec = spec, t_requirements = req, t_created_at_utc = now_utc, t_tags = [],
      t_latest_checkpoint = None, t_staged_files = [], t_expected_outputs = [], t_inputs = [],
      t_output_globs = []\<rparr>"

definition with_tags :: "Task \<Rightarrow> string list \<Rightarrow> Task" where
  "with_tags t tags = t\<lparr>t_tags := tags\<rparr>"

definition with_checkpoint :: "Task \<Rightarrow> CheckpointData \<Rightarrow> Task" where
  "with_checkpoint t cp = t\<lparr>t_latest_checkpoint := Some cp\<rparr>"

definition with_staged_file :: "Task \<Rightarrow> StagedFile \<Rightarrow> Task" where
  "with_staged_file t f = t\<lparr>t_staged_files := t_staged_files t @ [f]\<rparr>"

definition with_expected_output :: "Task \<Rightarrow> string \<Rightarrow> Task" where
  "with_expected_output t p = t\<lparr>t_expected_outputs := t_expected_outputs t @ [p]\<rparr>"

definition with_input :: "Task \<Rightarrow> TaskInput \<Rightarrow> Task" where
  "with_input t i = t\<lparr>t_inputs := t_inputs t @ [i]\<rparr>"

definition with_output_glob :: "Task \<Rightarrow> string \<Rightarrow> Task" where
  "with_output_glob t p = t\<lparr>t_output_globs := t_output_globs t @ [p]\<rparr>"

definition uses_blobs :: "Task \<Rightarrow> bool" where
  "uses_blobs t \<longleftrightarrow> t_inputs t \<noteq> [] \<or> t_output_globs t \<noteq> []"

definition update_checkpoint :: "CheckpointData \<Rightarrow> Task \<Rightarrow> Task" where
  "update_checkpoint cp t = t\<lparr>t_latest_checkpoint := Some cp\<rparr>"

definition task_placement :: "Task \<Rightarrow> placement_error + Placement" where
  "task_placement t = from_task_tags (t_tags t)"

definition with_placement :: "Task \<Rightarrow> Placement \<Rightarrow> Task" where
  "with_placement t p = t\<lparr>t_tags := t_tags t @ to_task_tags p\<rparr>"

fun validate_staged :: "nat \<Rightarrow> StagedFile list \<Rightarrow> task_error + unit" where
  "validate_staged staged [] = Inr ()"
| "validate_staged staged (f # rest) =
     (if length (sf_data f) \<noteq> sf_size f
      then Inl (StagedLengthMismatch (sf_path f) (length (sf_data f)) (sf_size f))
      else if MAX_STAGED_FILE_BYTES < sf_size f then Inl (StagedFileTooLarge (sf_path f) (sf_size f))
      else let staged' = sat_add staged (sf_size f)
           in if MAX_AGGREGATE_STAGED_BYTES < staged' then Inl StagedAggregateTooLarge
              else case validate_relative_sandbox_path (sf_path f) of
                     Inl e \<Rightarrow> Inl (BadSandboxPath e)
                   | Inr _ \<Rightarrow> validate_staged staged' rest)"

fun validate_expected_outputs :: "string list \<Rightarrow> task_error + unit" where
  "validate_expected_outputs [] = Inr ()"
| "validate_expected_outputs (p # rest) =
     (case validate_relative_sandbox_path p of
        Inl e \<Rightarrow> Inl (BadSandboxPath e)
      | Inr _ \<Rightarrow> validate_expected_outputs rest)"

fun runs_in_sandbox :: "TaskSpec \<Rightarrow> bool" where
  "runs_in_sandbox (Command _ _ _ _ _) = True"
| "runs_in_sandbox (ShellScript _ _ _) = True"
| "runs_in_sandbox (RustCompilation _ _ _ _) = True"
| "runs_in_sandbox _ = False"

definition validate_blob_use :: "Task \<Rightarrow> task_error + unit" where
  "validate_blob_use t =
     (if uses_blobs t then
        if \<not> runs_in_sandbox (t_spec t) then Inl (BlobsUnsupported (task_type (t_spec t)))
        else case validate_task_inputs (t_inputs t) of
               Inl e \<Rightarrow> Inl (BadBlob e)
             | Inr _ \<Rightarrow>
                 (case validate_output_patterns (t_output_globs t) of
                    Inl e \<Rightarrow> Inl (BadBlob e)
                  | Inr _ \<Rightarrow> Inr ())
      else Inr ())"

definition task_validate :: "Task \<Rightarrow> task_error + unit" where
  "task_validate t =
     (case spec_validate (t_spec t) of Inl e \<Rightarrow> Inl e
      | Inr _ \<Rightarrow>
     (case requirements_validate (t_requirements t) of Inl e \<Rightarrow> Inl e
      | Inr _ \<Rightarrow>
      if spec_requires_gpu (t_spec t) \<and> \<not> gpu_required (t_requirements t) then Inl GpuNotRequested
      else
     (case task_placement t of Inl e \<Rightarrow> Inl (BadPlacement e)
      | Inr _ \<Rightarrow>
     (case validate_staged 0 (t_staged_files t) of Inl e \<Rightarrow> Inl e
      | Inr _ \<Rightarrow>
     (case validate_expected_outputs (t_expected_outputs t) of Inl e \<Rightarrow> Inl e
      | Inr _ \<Rightarrow> validate_blob_use t)))))"

section \<open>Results\<close>

record TaskResult =
  tr_worker_id :: uuid
  tr_task_id :: uuid
  tr_exit_code :: int
  tr_stdout :: bytes
  tr_stderr :: bytes
  tr_execution_time_ms :: nat
  tr_is_gpu_executed :: bool
  tr_device_name :: "string option"
  tr_error :: "string option"
  tr_asset_bytes :: "bytes option"
  tr_artifacts :: "OutputArtifact list"
  tr_outputs :: "BlobFile list"

definition is_success :: "TaskResult \<Rightarrow> bool" where
  "is_success r \<longleftrightarrow> tr_exit_code r = 0 \<and> tr_error r = None"

definition result_success :: "uuid \<Rightarrow> uuid \<Rightarrow> bytes \<Rightarrow> nat \<Rightarrow> bool \<Rightarrow> TaskResult" where
  "result_success w t out ms gpu =
     \<lparr>tr_worker_id = w, tr_task_id = t, tr_exit_code = 0, tr_stdout = out, tr_stderr = [],
      tr_execution_time_ms = ms, tr_is_gpu_executed = gpu, tr_device_name = None, tr_error = None,
      tr_asset_bytes = None, tr_artifacts = [], tr_outputs = []\<rparr>"

definition result_failure ::
  "uuid \<Rightarrow> uuid \<Rightarrow> int \<Rightarrow> bytes \<Rightarrow> bytes \<Rightarrow> nat \<Rightarrow> string option \<Rightarrow> TaskResult" where
  "result_failure w t code out err ms e =
     \<lparr>tr_worker_id = w, tr_task_id = t, tr_exit_code = code, tr_stdout = out, tr_stderr = err,
      tr_execution_time_ms = ms, tr_is_gpu_executed = False, tr_device_name = None, tr_error = e,
      tr_asset_bytes = None, tr_artifacts = [], tr_outputs = []\<rparr>"

section \<open>Task status\<close>

datatype TaskStatus = Queued | Assigned | Running | Completed | Failed | Retried | TimedOut | Cancelled

definition status_is_terminal :: "TaskStatus \<Rightarrow> bool" where
  "status_is_terminal s \<longleftrightarrow> s \<in> set [Completed, Failed, TimedOut, Cancelled]"

definition status_is_active :: "TaskStatus \<Rightarrow> bool" where
  "status_is_active s \<longleftrightarrow> s \<in> set [Assigned, Running]"

fun status_can_transition_to :: "TaskStatus \<Rightarrow> TaskStatus \<Rightarrow> bool" where
  "status_can_transition_to Queued n = (n \<in> set [Assigned, Cancelled])"
| "status_can_transition_to Assigned n = (n \<in> set [Running, Queued, Retried, Failed, TimedOut, Cancelled])"
| "status_can_transition_to Running n = (n \<in> set [Completed, Failed, Retried, TimedOut, Cancelled])"
| "status_can_transition_to Retried n = (n \<in> set [Queued, Failed])"
| "status_can_transition_to Completed n = False"
| "status_can_transition_to Failed n = False"
| "status_can_transition_to TimedOut n = False"
| "status_can_transition_to Cancelled n = False"

interpretation status_fsm: lifecycle status_can_transition_to status_is_terminal status_is_active
proof
  fix a b show "status_is_terminal a \<Longrightarrow> \<not> status_can_transition_to a b"
    by (cases a) (simp_all add: status_is_terminal_def)
  show "status_is_active a \<Longrightarrow> \<not> status_is_terminal a"
    by (cases a) (simp_all add: status_is_terminal_def status_is_active_def)
next
  fix a show "\<not> status_is_terminal a \<Longrightarrow> \<exists>b. status_can_transition_to a b \<and> status_is_terminal b"
    by (cases a) (auto simp: status_is_terminal_def)
qed

section \<open>Engines\<close>

lemma engine_names_plain:
  "trim (engine_as_str e) = engine_as_str e \<and> to_ascii_lowercase (engine_as_str e) = engine_as_str e"
  by (cases e; simp; code_simp)

lemma engine_parse_as_str: "engine_parse (engine_as_str e) = Inr e"
  unfolding engine_parse_def using engine_names_plain [of e] by (cases e) simp_all

section \<open>Hexadecimal digests\<close>

lemma hex_digit_inj: "m < 16 \<Longrightarrow> n < 16 \<Longrightarrow> hex_digit m = hex_digit n \<Longrightarrow> m = n"
  by (auto simp: hex_digit_def char_of_eq_iff take_bit_eq_mod split: if_splits)

lemma hex_encode_length: "length (hex_encode b) = 2 * length b"
  by (induction b rule: hex_encode.induct) auto

lemma hex_encode_inject: "hex_encode a = hex_encode b \<Longrightarrow> a = b"
proof (induction a arbitrary: b rule: hex_encode.induct)
  case 1
  then show ?case by (cases b) auto
next
  case (2 c cs)
  then obtain d ds where b: "b = d # ds" by (cases b) auto
  have small: "of_char x div 16 < (16::nat)" "of_char x mod 16 < (16::nat)" for x :: char
    using nat_of_char_less_256 [of x] by (auto simp del: nat_of_char_less_256)
  from 2 b have "(of_char c :: nat) div 16 = of_char d div 16" "(of_char c :: nat) mod 16 = of_char d mod 16"
    using hex_digit_inj small by auto
  then have "(of_char c :: nat) = of_char d" by (metis div_mod_decomp)
  then show ?case using 2 b by simp
qed

section \<open>What validation guarantees\<close>

definition staged_total :: "StagedFile list \<Rightarrow> nat" where
  "staged_total fs = (\<Sum>f \<leftarrow> fs. sf_size f)"

definition staged_ok :: "StagedFile \<Rightarrow> bool" where
  "staged_ok f \<longleftrightarrow> sf_size f = length (sf_data f) \<and> (\<exists>p. validate_relative_sandbox_path (sf_path f) = Inr p)"

lemma validate_staged_iff:
  assumes "staged \<le> MAX_AGGREGATE_STAGED_BYTES"
  shows "validate_staged staged fs = Inr () \<longleftrightarrow>
    (\<forall>f \<in> set fs. staged_ok f) \<and> staged + staged_total fs \<le> MAX_AGGREGATE_STAGED_BYTES"
  using assms
proof (induction staged fs rule: validate_staged.induct)
  case (2 staged f rest)
  have sat: "sat_add staged (sf_size f) \<le> MAX_AGGREGATE_STAGED_BYTES \<longleftrightarrow>
      staged + sf_size f \<le> MAX_AGGREGATE_STAGED_BYTES"
    "staged + sf_size f \<le> MAX_AGGREGATE_STAGED_BYTES \<Longrightarrow> sat_add staged (sf_size f) = staged + sf_size f"
    by (auto simp: sat_add_def usize_max_def MAX_AGGREGATE_STAGED_BYTES_def)
  show ?case
  proof (cases "staged_ok f \<and> staged + sf_size f \<le> MAX_AGGREGATE_STAGED_BYTES")
    case True
    then obtain p where p: "length (sf_data f) = sf_size f" "validate_relative_sandbox_path (sf_path f) = Inr p"
      by (auto simp: staged_ok_def)
    from True have small: "\<not> MAX_STAGED_FILE_BYTES < sf_size f"
      by (simp add: MAX_STAGED_FILE_BYTES_def MAX_AGGREGATE_STAGED_BYTES_def)
    have "validate_staged staged (f # rest) = validate_staged (staged + sf_size f) rest"
      using True p small sat by (simp add: Let_def)
    moreover have "validate_staged (staged + sf_size f) rest = Inr () \<longleftrightarrow>
        (\<forall>f \<in> set rest. staged_ok f) \<and> staged + sf_size f + staged_total rest \<le> MAX_AGGREGATE_STAGED_BYTES"
      using "2.IH" [of "staged + sf_size f" p] True p small sat by simp
    ultimately show ?thesis using True by (auto simp: staged_total_def add.assoc)
  next
    case False
    then have "validate_staged staged (f # rest) \<noteq> Inr ()"
      using sat by (auto simp: staged_ok_def Let_def split: sum.splits)
    with False show ?thesis by (auto simp: staged_total_def)
  qed
qed (simp add: staged_total_def)

lemma validate_expected_outputs_iff:
  "validate_expected_outputs ps = Inr () \<longleftrightarrow> (\<forall>p \<in> set ps. \<exists>q. validate_relative_sandbox_path p = Inr q)"
  by (induction ps rule: validate_expected_outputs.induct) (auto split: sum.splits)

lemma task_validate_iff:
  "task_validate t = Inr () \<longleftrightarrow>
     spec_validate (t_spec t) = Inr () \<and> 0 < timeout_secs (t_requirements t)
     \<and> (spec_requires_gpu (t_spec t) \<longrightarrow> gpu_required (t_requirements t))
     \<and> (\<exists>p. from_task_tags (t_tags t) = Inr p)
     \<and> (\<forall>f \<in> set (t_staged_files t). staged_ok f)
     \<and> staged_total (t_staged_files t) \<le> MAX_AGGREGATE_STAGED_BYTES
     \<and> (\<forall>p \<in> set (t_expected_outputs t). \<exists>q. validate_relative_sandbox_path p = Inr q)
     \<and> validate_blob_use t = Inr ()"
proof -
  have ok: "validate_staged 0 (t_staged_files t) = Inr () \<longleftrightarrow>
      (\<forall>f \<in> set (t_staged_files t). staged_ok f) \<and> staged_total (t_staged_files t) \<le> MAX_AGGREGATE_STAGED_BYTES"
    using validate_staged_iff [of 0 "t_staged_files t"] by simp
  show ?thesis
    unfolding ok [symmetric] validate_expected_outputs_iff [symmetric] conj_assoc [symmetric]
    by (auto simp: task_validate_def requirements_validate_def task_placement_def
        split: sum.splits if_splits)
qed

section \<open>Properties\<close>

text \<open>
  C31. What task validation guarantees, and nothing else is refused: the specification itself is
  valid, the timeout is positive, a specification that needs a GPU asks for one, the placement tags
  can be read, every staged file has the declared length and a safe path, all staged files together
  stay within the limit, the expected outputs are safe paths, and blob use is valid.
\<close>

theorem task_validate_complete:
  "task_validate t = Inr () \<longleftrightarrow>
     spec_validate (t_spec t) = Inr () \<and> 0 < timeout_secs (t_requirements t)
     \<and> (spec_requires_gpu (t_spec t) \<longrightarrow> gpu_required (t_requirements t))
     \<and> (\<exists>p. from_task_tags (t_tags t) = Inr p)
     \<and> (\<forall>f \<in> set (t_staged_files t). staged_ok f)
     \<and> staged_total (t_staged_files t) \<le> MAX_AGGREGATE_STAGED_BYTES
     \<and> (\<forall>p \<in> set (t_expected_outputs t). \<exists>q. validate_relative_sandbox_path p = Inr q)
     \<and> validate_blob_use t = Inr ()"
  by (rule task_validate_iff)

theorem task_validate_complete_witness:
  "task_validate (task_new 1 0 (new_command ''echo'' [''hi'']) requirements_default) = Inr ()
   \<and> task_validate (task_new 1 0 (new_gpu_compute ''matmul'' 8) requirements_default) \<noteq> Inr ()"
proof -
  let ?t = "task_new 1 0 (new_command ''echo'' [''hi'']) requirements_default"
  let ?g = "task_new 1 0 (new_gpu_compute ''matmul'' 8) requirements_default"
  have "spec_validate (new_command ''echo'' [''hi'']) = Inr ()" "from_task_tags [] = Inr placement_default"
    "\<not> spec_requires_gpu (new_command ''echo'' [''hi''])" by code_simp+
  then have "task_validate ?t = Inr ()"
    unfolding task_validate_complete [of ?t]
    by (simp add: task_new_def requirements_default_def staged_total_def validate_blob_use_def uses_blobs_def)
  moreover have "\<not> (spec_requires_gpu (t_spec ?g) \<longrightarrow> gpu_required (t_requirements ?g))"
    by (simp add: task_new_def new_gpu_compute_def requirements_default_def)
  then have "task_validate ?g \<noteq> Inr ()"
    unfolding task_validate_complete [of ?g] by blast
  ultimately show ?thesis by blast
qed

text \<open>
  The hexadecimal form of a digest is faithful: it has two characters per byte and two byte
  strings with the same form are equal, so comparing printed digests compares the digests.
\<close>

theorem hex_encode_faithful:
  "length (hex_encode a) = 2 * length a \<and> (hex_encode a = hex_encode b \<longleftrightarrow> a = b)"
  using hex_encode_length hex_encode_inject by blast

end
