(* ===== verification/Grid_Error.thy ===== *)
theory Grid_Error
  imports Placement
begin

text \<open>
  The error type of \<^verbatim>\<open>crates/core/src/error.rs\<close>, its machine-readable codes, the retry
  classification and the process exit codes.  The payload of \<^verbatim>\<open>Config\<close>, a message each component
  formats itself, is a type parameter.  Of an \<^verbatim>\<open>io::Error\<close> the code only looks at its kind.
\<close>

datatype io_kind =
    ConnectionReset | ConnectionAborted | TimedOutKind | WouldBlock | Interrupted | OtherKind string

datatype 'm GridError =
    Io io_kind
  | Serialization string
  | Framing string
  | FrameTooLarge nat nat
  | UnexpectedMessage string string
  | HandshakeFailed string
  | ConnectionClosed
  | ConnectionFailed string
  | Timeout string nat
  | HeartbeatTimeout uuid nat
  | TaskTimeout uuid nat
  | ExecutionFailed uuid "int option" string
  | SandboxError uuid string
  | ProcessSpawn string io_kind
  | GpuExecution uuid string
  | TaskNotFound uuid
  | WorkerNotFound uuid
  | NoEligibleWorker uuid string
  | InvalidTaskState uuid string string
  | QueueFull nat
  | QueueByteLimitExceeded nat nat nat
  | RegistrationRejected string
  | AuthRequired string
  | AuthFailed string
  | Config 'm
  | PortFile string string

fun error_code :: "'m GridError \<Rightarrow> string" where
  "error_code (Io _) = ''IO_ERROR''"
| "error_code (Serialization _) = ''SERIALIZATION_ERROR''"
| "error_code (Framing _) = ''FRAMING_ERROR''"
| "error_code (FrameTooLarge _ _) = ''FRAME_TOO_LARGE''"
| "error_code (UnexpectedMessage _ _) = ''UNEXPECTED_MESSAGE''"
| "error_code (HandshakeFailed _) = ''HANDSHAKE_FAILED''"
| "error_code ConnectionClosed = ''CONNECTION_CLOSED''"
| "error_code (ConnectionFailed _) = ''CONNECTION_FAILED''"
| "error_code (Timeout _ _) = ''TIMEOUT''"
| "error_code (HeartbeatTimeout _ _) = ''HEARTBEAT_TIMEOUT''"
| "error_code (TaskTimeout _ _) = ''TASK_TIMEOUT''"
| "error_code (ExecutionFailed _ _ _) = ''EXECUTION_FAILED''"
| "error_code (SandboxError _ _) = ''SANDBOX_ERROR''"
| "error_code (ProcessSpawn _ _) = ''PROCESS_SPAWN_ERROR''"
| "error_code (GpuExecution _ _) = ''GPU_EXECUTION_ERROR''"
| "error_code (TaskNotFound _) = ''TASK_NOT_FOUND''"
| "error_code (WorkerNotFound _) = ''WORKER_NOT_FOUND''"
| "error_code (NoEligibleWorker _ _) = ''NO_ELIGIBLE_WORKER''"
| "error_code (InvalidTaskState _ _ _) = ''INVALID_TASK_STATE''"
| "error_code (QueueFull _) = ''QUEUE_FULL''"
| "error_code (QueueByteLimitExceeded _ _ _) = ''QUEUE_BYTE_LIMIT_EXCEEDED''"
| "error_code (RegistrationRejected _) = ''REGISTRATION_REJECTED''"
| "error_code (AuthRequired _) = ''AUTH_REQUIRED''"
| "error_code (AuthFailed _) = ''AUTH_FAILED''"
| "error_code (Config _) = ''CONFIG_ERROR''"
| "error_code (PortFile _ _) = ''PORT_FILE_ERROR''"

definition is_transient :: "'m GridError \<Rightarrow> bool" where
  "is_transient e =
     (case e of
        ConnectionClosed \<Rightarrow> True
      | ConnectionFailed _ \<Rightarrow> True
      | Timeout _ _ \<Rightarrow> True
      | HeartbeatTimeout _ _ \<Rightarrow> False
      | QueueFull capacity \<Rightarrow> 0 < capacity
      | QueueByteLimitExceeded task_bytes _ max_bytes \<Rightarrow> task_bytes \<le> max_bytes \<and> 0 < max_bytes
      | Io k \<Rightarrow> k \<in> set [ConnectionReset, ConnectionAborted, TimedOutKind, WouldBlock, Interrupted]
      | _ \<Rightarrow> False)"

definition exit_code :: "'m GridError \<Rightarrow> int" where
  "exit_code e =
     (case e of
        Config _ \<Rightarrow> 2
      | ConnectionClosed \<Rightarrow> 3
      | ConnectionFailed _ \<Rightarrow> 3
      | Io _ \<Rightarrow> 3
      | Timeout _ _ \<Rightarrow> 4
      | HeartbeatTimeout _ _ \<Rightarrow> 4
      | TaskTimeout _ _ \<Rightarrow> 4
      | NoEligibleWorker _ _ \<Rightarrow> 5
      | AuthRequired _ \<Rightarrow> 6
      | AuthFailed _ \<Rightarrow> 6
      | ExecutionFailed _ (Some code) _ \<Rightarrow> code
      | _ \<Rightarrow> 1)"

end
