(* ===== verification/Protocol_Caps.thy ===== *)
theory Protocol_Caps
  imports "HOL-Library.Word"
begin

text \<open>
  The capability bits two ends of a connection exchange (\<^verbatim>\<open>ProtocolCapabilities\<close> of
  \<^verbatim>\<open>crates/core/src/protocol.rs\<close>): a 64-bit set, with the algebra the scheduler and the
  handshake rely on.
\<close>

unbundle bit_operations_syntax

type_synonym ProtocolCapabilities = "64 word"

definition AEAD_ENCRYPTION :: ProtocolCapabilities where "AEAD_ENCRYPTION = push_bit 0 1"
definition MOBILE_TELEMETRY :: ProtocolCapabilities where "MOBILE_TELEMETRY = push_bit 1 1"
definition CHECKPOINT_DELTA :: ProtocolCapabilities where "CHECKPOINT_DELTA = push_bit 2 1"
definition GPU_SCHEDULE_PRIO :: ProtocolCapabilities where "GPU_SCHEDULE_PRIO = push_bit 3 1"
definition EXTENDED_ERROR_INFO :: ProtocolCapabilities where "EXTENDED_ERROR_INFO = push_bit 4 1"
definition BATCH_DISPATCH :: ProtocolCapabilities where "BATCH_DISPATCH = push_bit 5 1"
definition FILE_STAGING :: ProtocolCapabilities where "FILE_STAGING = push_bit 6 1"
definition ROLE_ARBITRAGE :: ProtocolCapabilities where "ROLE_ARBITRAGE = push_bit 7 1"
definition ADAPTIVE_KEEPALIVE :: ProtocolCapabilities where "ADAPTIVE_KEEPALIVE = push_bit 8 1"
definition BLOB_TRANSFER :: ProtocolCapabilities where "BLOB_TRANSFER = push_bit 9 1"

definition caps_empty :: ProtocolCapabilities where "caps_empty = 0"

definition caps_is_empty :: "ProtocolCapabilities \<Rightarrow> bool" where "caps_is_empty c \<longleftrightarrow> c = 0"

definition all_supported :: ProtocolCapabilities where
  "all_supported =
     AEAD_ENCRYPTION OR MOBILE_TELEMETRY OR CHECKPOINT_DELTA OR GPU_SCHEDULE_PRIO
     OR EXTENDED_ERROR_INFO OR BATCH_DISPATCH OR FILE_STAGING OR ADAPTIVE_KEEPALIVE OR BLOB_TRANSFER"

definition caps_contains :: "ProtocolCapabilities \<Rightarrow> ProtocolCapabilities \<Rightarrow> bool" where
  "caps_contains c d \<longleftrightarrow> c AND d = d"

definition caps_intersects :: "ProtocolCapabilities \<Rightarrow> ProtocolCapabilities \<Rightarrow> bool" where
  "caps_intersects c d \<longleftrightarrow> c AND d \<noteq> 0"

definition caps_insert :: "ProtocolCapabilities \<Rightarrow> ProtocolCapabilities \<Rightarrow> ProtocolCapabilities" where
  "caps_insert c d = c OR d"

definition caps_remove :: "ProtocolCapabilities \<Rightarrow> ProtocolCapabilities \<Rightarrow> ProtocolCapabilities" where
  "caps_remove c d = c AND NOT d"

text \<open>Seen as sets of bit positions.\<close>

definition caps_bits :: "ProtocolCapabilities \<Rightarrow> nat set" where
  "caps_bits c = {n. bit c n}"

lemma caps_eq_iff: "(c :: ProtocolCapabilities) = d \<longleftrightarrow> (\<forall>n. bit c n \<longleftrightarrow> bit d n)"
  by (auto intro: bit_eqI)

lemma caps_bits_inject: "caps_bits c = caps_bits d \<longleftrightarrow> c = d"
  by (auto simp: caps_bits_def caps_eq_iff)

lemma caps_contains_iff: "caps_contains c d \<longleftrightarrow> caps_bits d \<subseteq> caps_bits c"
  by (auto simp: caps_contains_def caps_bits_def caps_eq_iff bit_and_iff)

lemma caps_intersects_iff: "caps_intersects c d \<longleftrightarrow> caps_bits c \<inter> caps_bits d \<noteq> {}"
  by (auto simp: caps_intersects_def caps_bits_def caps_eq_iff bit_and_iff)

lemma caps_bits_insert: "caps_bits (caps_insert c d) = caps_bits c \<union> caps_bits d"
  by (auto simp: caps_insert_def caps_bits_def bit_or_iff)

lemma caps_bits_remove: "caps_bits (caps_remove c d) = caps_bits c - caps_bits d"
  by (auto simp: caps_remove_def caps_bits_def bit_and_iff bit_not_iff dest: bit_imp_le_length)

lemma caps_bits_empty: "caps_bits caps_empty = {}"
  by (simp add: caps_empty_def caps_bits_def)

text \<open>
  Capability words behave as sets of features: inclusion, overlap, union and difference are
  those of the bit sets, so after inserting a feature it is contained, and after removing it the
  two no longer overlap.
\<close>

theorem caps_set_algebra:
  "(caps_contains c d \<longleftrightarrow> caps_bits d \<subseteq> caps_bits c)
   \<and> (caps_intersects c d \<longleftrightarrow> caps_bits c \<inter> caps_bits d \<noteq> {})
   \<and> caps_bits (caps_insert c d) = caps_bits c \<union> caps_bits d
   \<and> caps_bits (caps_remove c d) = caps_bits c - caps_bits d
   \<and> caps_contains (caps_insert c d) d \<and> \<not> caps_intersects (caps_remove c d) d"
  by (auto simp: caps_contains_iff caps_intersects_iff caps_bits_insert caps_bits_remove)

end
