(* ===== verification/Queue_Types.thy ===== *)
theory Queue_Types
  imports Complex_Main "HOL-Library.Product_Lexorder" Task_Model Grid_Error
begin

text \<open>
  The data of the master's task queue (\<^verbatim>\<open>crates/master/src/queue.rs\<close>): the eight-state life
  cycle, the index keys and their orders, the retry policy, the task entry, the queue's own state
  and the views it hands out.

  An \<^verbatim>\<open>Instant\<close> is a number of nanoseconds.  What an operation reads from its surroundings is
  its \<open>call_env\<close>: the two clocks, the printed form of a UUID, and the order in which a hash
  set is iterated, which Rust leaves open.
\<close>

section \<open>The life cycle\<close>

datatype TaskState = Submitted | Queued | Scheduled | Running | Completed | Failed | Cancelled | Retrying

fun can_transition_to :: "TaskState \<Rightarrow> TaskState \<Rightarrow> bool" where
  "can_transition_to Submitted n = (n \<in> set [Queued, Cancelled, Failed])"
| "can_transition_to Queued n = (n \<in> set [Scheduled, Cancelled, Failed])"
| "can_transition_to Scheduled n = (n \<in> set [Running, Completed, Failed, Retrying, Queued, Cancelled])"
| "can_transition_to Running n = (n \<in> set [Completed, Failed, Retrying, Queued, Cancelled])"
| "can_transition_to Retrying n = (n \<in> set [Queued, Failed, Cancelled])"
| "can_transition_to Completed n = False"
| "can_transition_to Failed n = False"
| "can_transition_to Cancelled n = False"

fun state_as_str :: "TaskState \<Rightarrow> string" where
  "state_as_str Submitted = ''submitted''"
| "state_as_str Queued = ''queued''"
| "state_as_str Scheduled = ''scheduled''"
| "state_as_str Running = ''running''"
| "state_as_str Completed = ''completed''"
| "state_as_str Failed = ''failed''"
| "state_as_str Cancelled = ''cancelled''"
| "state_as_str Retrying = ''retrying''"

text \<open>The derived \<^verbatim>\<open>Debug\<close> form, used in error messages.\<close>

fun state_debug :: "TaskState \<Rightarrow> string" where
  "state_debug Submitted = ''Submitted''"
| "state_debug Queued = ''Queued''"
| "state_debug Scheduled = ''Scheduled''"
| "state_debug Running = ''Running''"
| "state_debug Completed = ''Completed''"
| "state_debug Failed = ''Failed''"
| "state_debug Cancelled = ''Cancelled''"
| "state_debug Retrying = ''Retrying''"

definition is_terminal :: "TaskState \<Rightarrow> bool" where
  "is_terminal s \<longleftrightarrow> s \<in> set [Completed, Failed, Cancelled]"

definition is_active :: "TaskState \<Rightarrow> bool" where
  "is_active s \<longleftrightarrow> s \<in> set [Scheduled, Running]"

lemma is_terminal_simps [simp]:
  "is_terminal Completed" "is_terminal Failed" "is_terminal Cancelled"
  "\<not> is_terminal Submitted" "\<not> is_terminal Queued" "\<not> is_terminal Scheduled"
  "\<not> is_terminal Running" "\<not> is_terminal Retrying"
  by (simp_all add: is_terminal_def)

lemma is_active_simps [simp]:
  "is_active Scheduled" "is_active Running"
  "\<not> is_active Completed" "\<not> is_active Failed" "\<not> is_active Cancelled"
  "\<not> is_active Submitted" "\<not> is_active Queued" "\<not> is_active Retrying"
  by (simp_all add: is_active_def)

interpretation state_fsm: lifecycle can_transition_to is_terminal is_active
proof
  fix a b show "is_terminal a \<Longrightarrow> \<not> can_transition_to a b" by (cases a) simp_all
  show "is_active a \<Longrightarrow> \<not> is_terminal a" by (cases a) simp_all
next
  fix a show "\<not> is_terminal a \<Longrightarrow> \<exists>b. can_transition_to a b \<and> is_terminal b"
    by (rule exI [of _ Cancelled]) (cases a; simp)
qed

fun status_of_state :: "TaskState \<Rightarrow> TaskStatus" where
  "status_of_state Submitted = TaskStatus.Queued"
| "status_of_state Queued = TaskStatus.Queued"
| "status_of_state Scheduled = TaskStatus.Assigned"
| "status_of_state Running = TaskStatus.Running"
| "status_of_state Completed = TaskStatus.Completed"
| "status_of_state Failed = TaskStatus.Failed"
| "status_of_state Cancelled = TaskStatus.Cancelled"
| "status_of_state Retrying = TaskStatus.Retried"

fun state_of_status :: "TaskStatus \<Rightarrow> TaskState" where
  "state_of_status TaskStatus.Queued = Queued"
| "state_of_status TaskStatus.Assigned = Scheduled"
| "state_of_status TaskStatus.Running = Running"
| "state_of_status TaskStatus.Completed = Completed"
| "state_of_status TaskStatus.Failed = Failed"
| "state_of_status TaskStatus.TimedOut = Failed"
| "state_of_status TaskStatus.Retried = Retrying"
| "state_of_status TaskStatus.Cancelled = Cancelled"

section \<open>Index keys\<close>

datatype QueueOrderKey = OrderKey (qk_priority: nat) (qk_sequence: nat) (qk_task_id: uuid)

definition order_rank :: "QueueOrderKey \<Rightarrow> int \<times> nat \<times> uuid" where
  "order_rank k = (- int (qk_priority k), qk_sequence k, qk_task_id k)"

lemma order_rank_inject: "order_rank a = order_rank b \<longleftrightarrow> a = b"
  by (cases a; cases b) (auto simp: order_rank_def)

text \<open>Higher priority first (\<^verbatim>\<open>Reverse\<close>), then submission order, then the task id.\<close>

instantiation QueueOrderKey :: linorder
begin

definition less_QueueOrderKey :: "QueueOrderKey \<Rightarrow> QueueOrderKey \<Rightarrow> bool" where
  "less_QueueOrderKey a b \<longleftrightarrow>
     qk_priority b < qk_priority a
     \<or> qk_priority a = qk_priority b
       \<and> (qk_sequence a < qk_sequence b
          \<or> qk_sequence a = qk_sequence b \<and> qk_task_id a < qk_task_id b)"

definition less_eq_QueueOrderKey :: "QueueOrderKey \<Rightarrow> QueueOrderKey \<Rightarrow> bool" where
  "less_eq_QueueOrderKey a b \<longleftrightarrow> a < b \<or> a = (b :: QueueOrderKey)"

lemma order_rank_less: "(a :: QueueOrderKey) < b \<longleftrightarrow> order_rank a < order_rank b"
  by (auto simp: less_QueueOrderKey_def order_rank_def)

lemma order_rank_le: "(a :: QueueOrderKey) \<le> b \<longleftrightarrow> order_rank a \<le> order_rank b"
  by (auto simp: less_eq_QueueOrderKey_def order_rank_less order_rank_inject le_less)

instance
proof
  fix x y z :: QueueOrderKey
  show "x < y \<longleftrightarrow> x \<le> y \<and> \<not> y \<le> x"
    unfolding order_rank_less order_rank_le by (rule less_le_not_le)
  show "x \<le> x" unfolding order_rank_le by (rule order.refl)
  show "x \<le> y \<Longrightarrow> y \<le> z \<Longrightarrow> x \<le> z" unfolding order_rank_le by (rule order.trans)
  show "x \<le> y \<Longrightarrow> y \<le> x \<Longrightarrow> x = y"
    unfolding order_rank_le order_rank_inject [symmetric] by (rule order.antisym)
  show "x \<le> y \<or> y \<le> x" unfolding order_rank_le by (rule linear)
qed

end

datatype DelayedRetryKey = RetryKey (dk_retry_after: nat) (dk_task_id: uuid)

definition retry_rank :: "DelayedRetryKey \<Rightarrow> nat \<times> uuid" where
  "retry_rank k = (dk_retry_after k, dk_task_id k)"

lemma retry_rank_inject: "retry_rank a = retry_rank b \<longleftrightarrow> a = b"
  by (cases a; cases b) (auto simp: retry_rank_def)

instantiation DelayedRetryKey :: linorder
begin

definition less_DelayedRetryKey :: "DelayedRetryKey \<Rightarrow> DelayedRetryKey \<Rightarrow> bool" where
  "less_DelayedRetryKey a b \<longleftrightarrow>
     dk_retry_after a < dk_retry_after b
     \<or> dk_retry_after a = dk_retry_after b \<and> dk_task_id a < dk_task_id b"

definition less_eq_DelayedRetryKey :: "DelayedRetryKey \<Rightarrow> DelayedRetryKey \<Rightarrow> bool" where
  "less_eq_DelayedRetryKey a b \<longleftrightarrow> a < b \<or> a = (b :: DelayedRetryKey)"

lemma retry_rank_less: "(a :: DelayedRetryKey) < b \<longleftrightarrow> retry_rank a < retry_rank b"
  by (auto simp: less_DelayedRetryKey_def retry_rank_def)

lemma retry_rank_le: "(a :: DelayedRetryKey) \<le> b \<longleftrightarrow> retry_rank a \<le> retry_rank b"
  by (auto simp: less_eq_DelayedRetryKey_def retry_rank_less retry_rank_inject le_less)

instance
proof
  fix x y z :: DelayedRetryKey
  show "x < y \<longleftrightarrow> x \<le> y \<and> \<not> y \<le> x"
    unfolding retry_rank_less retry_rank_le by (rule less_le_not_le)
  show "x \<le> x" unfolding retry_rank_le by (rule order.refl)
  show "x \<le> y \<Longrightarrow> y \<le> z \<Longrightarrow> x \<le> z" unfolding retry_rank_le by (rule order.trans)
  show "x \<le> y \<Longrightarrow> y \<le> x \<Longrightarrow> x = y"
    unfolding retry_rank_le retry_rank_inject [symmetric] by (rule order.antisym)
  show "x \<le> y \<or> y \<le> x" unfolding retry_rank_le by (rule linear)
qed

end

section \<open>Properties\<close>

text \<open>
  The master's life cycle has exactly the three final states it declares: a state is final
  if and only if no transition leaves it, and from a final state no chain of transitions leads
  anywhere else.
\<close>

theorem fsm_terminal_final:
  "(is_terminal a \<longleftrightarrow> (\<forall>b. \<not> can_transition_to a b))
   \<and> (can_transition_to\<^sup>*\<^sup>* a b \<and> is_terminal a \<longrightarrow> b = a)"
  using state_fsm.terminal_iff_stuck [of a] state_fsm.terminal_absorbing [of a b] by blast

theorem fsm_terminal_final_witness: "\<not> can_transition_to\<^sup>*\<^sup>* Cancelled Queued"
  using fsm_terminal_final [of Cancelled Queued] by simp

text \<open>
  The two life cycles of the repository, the one of the wire status and the one of the master's
  queue, disagree on exactly these transitions: the master makes them, and the published status
  life cycle forbids them.  The translation between the two loses only the initial state.
\<close>

theorem fsm_status_divergence:
  "(can_transition_to a b \<and> \<not> status_can_transition_to (status_of_state a) (status_of_state b)
     \<longleftrightarrow> (a, b) \<in> {(Submitted, Queued), (Submitted, Failed), (Queued, Failed), (Scheduled, Completed),
                   (Running, Queued), (Retrying, Cancelled)})
   \<and> state_of_status (status_of_state a) = (if a = Submitted then Queued else a)"
  by (cases a; cases b; simp)

end
