(* ===== verification/Queue_State.thy ===== *)
theory Queue_State
  imports Queue_Types Protocol_Caps
begin

text \<open>
  The records of the task queue and the helpers its operations share: the retry policy and its
  backoff, the byte charge of a task, the two byte ledgers (active and retained tasks) and the
  eviction of finished tasks.
\<close>

section \<open>Records\<close>

record call_env =
  ce_now :: nat
  ce_epoch :: nat
  ce_fmt_id :: "uuid \<Rightarrow> string"
  ce_order :: "uuid list \<Rightarrow> uuid list"

definition DEFAULT_MAX_FAILOVERS :: nat where "DEFAULT_MAX_FAILOVERS = 10"
definition MAX_WORKER_REJECTIONS_PER_TASK :: nat where "MAX_WORKER_REJECTIONS_PER_TASK = 3"

record RetryPolicy =
  rp_max_retries :: nat
  rp_max_failovers :: nat
  rp_initial_backoff_ms :: nat
  rp_max_backoff_ms :: nat
  rp_backoff_multiplier :: rat
  rp_retry_on_execution_failure :: bool
  rp_retry_on_worker_disconnect :: bool

definition retry_policy_default :: RetryPolicy where
  "retry_policy_default =
     \<lparr>rp_max_retries = 3, rp_max_failovers = DEFAULT_MAX_FAILOVERS, rp_initial_backoff_ms = 500,
      rp_max_backoff_ms = 30000, rp_backoff_multiplier = 2, rp_retry_on_execution_failure = False,
      rp_retry_on_worker_disconnect = True\<rparr>"

record RetryAttempt =
  ra_attempt :: nat
  ra_timestamp_utc :: nat
  ra_failed_worker_id :: "uuid option"
  ra_reason :: string
  ra_exit_code :: "int option"
  ra_error :: "string option"

record TaskEntry =
  te_task :: Task
  te_priority :: nat
  te_sequence :: nat
  te_state :: TaskState
  te_assigned_worker_id :: "uuid option"
  te_submitted_at_utc :: nat
  te_submitted_instant :: nat
  te_scheduled_instant :: "nat option"
  te_started_instant :: "nat option"
  te_retry_after_instant :: "nat option"
  te_retry_count :: nat
  te_failover_count :: nat
  te_rejection_count :: nat
  te_avoid_workers :: "uuid list"
  te_assigned_session :: "nat option"
  te_retry_history :: "RetryAttempt list"
  te_result :: "TaskResult option"
  te_error_message :: "string option"

record TaskInfo =
  ti_task_id :: uuid
  ti_state :: TaskState
  ti_priority :: nat
  ti_gpu_required :: bool
  ti_assigned_worker_id :: "uuid option"
  ti_retry_count :: nat
  ti_submitted_at_utc :: nat
  ti_execution_time_ms :: "nat option"
  ti_exit_code :: "int option"
  ti_error_message :: "string option"

definition to_info :: "TaskEntry \<Rightarrow> TaskInfo" where
  "to_info e =
     \<lparr>ti_task_id = t_id (te_task e), ti_state = te_state e, ti_priority = te_priority e,
      ti_gpu_required =
        (gpu_required (t_requirements (te_task e)) \<or> spec_requires_gpu (t_spec (te_task e))),
      ti_assigned_worker_id = te_assigned_worker_id e, ti_retry_count = te_retry_count e,
      ti_submitted_at_utc = te_submitted_at_utc e,
      ti_execution_time_ms = map_option tr_execution_time_ms (te_result e),
      ti_exit_code = map_option tr_exit_code (te_result e),
      ti_error_message = te_error_message e\<rparr>"

record QueueStats =
  qs_total :: nat
  qs_queued :: nat
  qs_scheduled :: nat
  qs_running :: nat
  qs_retrying :: nat
  qs_completed :: nat
  qs_failed :: nat
  qs_cancelled :: nat
  qs_active_bytes :: nat
  qs_max_active_bytes :: nat

definition cluster_buckets :: "QueueStats \<Rightarrow> nat \<times> nat \<times> nat \<times> nat" where
  "cluster_buckets s =
     (qs_queued s + qs_retrying s, qs_scheduled s + qs_running s, qs_completed s,
      qs_failed s + qs_cancelled s)"

record TaskQueueInner =
  tasks :: "(uuid, TaskEntry) hmap"
  ready_queue :: "QueueOrderKey list"
  delayed_retries :: "DelayedRetryKey list"
  worker_assignments :: "(uuid, uuid list) hmap"
  next_sequence :: nat
  retry_policy :: RetryPolicy
  capacity :: "nat option"
  max_terminal_tasks :: nat
  max_terminal_bytes :: nat
  max_active_bytes :: nat
  terminal_order :: "uuid list"
  terminal_sizes :: "(uuid, nat) hmap"
  terminal_bytes :: nat
  active_sizes :: "(uuid, nat) hmap"
  active_bytes :: nat

definition DEFAULT_MAX_TERMINAL_TASKS :: nat where "DEFAULT_MAX_TERMINAL_TASKS = 10000"
definition DEFAULT_MAX_TERMINAL_BYTES :: nat where "DEFAULT_MAX_TERMINAL_BYTES = 268435456"
definition DEFAULT_MAX_ACTIVE_BYTES :: nat where "DEFAULT_MAX_ACTIVE_BYTES = 268435456"
definition RETAINED_ENTRY_OVERHEAD_BYTES :: nat where "RETAINED_ENTRY_OVERHEAD_BYTES = 1024"
definition BLOB_REF_BYTES :: nat where "BLOB_REF_BYTES = 48"

definition with_retention_limits ::
  "RetryPolicy \<Rightarrow> nat option \<Rightarrow> nat \<Rightarrow> nat \<Rightarrow> nat \<Rightarrow> TaskQueueInner" where
  "with_retention_limits policy cap max_tasks max_bytes max_active =
     \<lparr>tasks = [], ready_queue = [], delayed_retries = [], worker_assignments = [],
      next_sequence = 1, retry_policy = policy, capacity = cap, max_terminal_tasks = max_tasks,
      max_terminal_bytes = max_bytes, max_active_bytes = max_active, terminal_order = [],
      terminal_sizes = [], terminal_bytes = 0, active_sizes = [], active_bytes = 0\<rparr>"

definition with_retention :: "RetryPolicy \<Rightarrow> nat option \<Rightarrow> nat \<Rightarrow> TaskQueueInner" where
  "with_retention policy cap max_tasks =
     with_retention_limits policy cap max_tasks DEFAULT_MAX_TERMINAL_BYTES DEFAULT_MAX_ACTIVE_BYTES"

definition with_config :: "RetryPolicy \<Rightarrow> nat option \<Rightarrow> TaskQueueInner" where
  "with_config policy cap = with_retention policy cap DEFAULT_MAX_TERMINAL_TASKS"

definition queue_new :: TaskQueueInner where
  "queue_new = with_config retry_policy_default None"

section \<open>Retry policy\<close>

definition failover_budget :: "RetryPolicy \<Rightarrow> TaskEntry \<Rightarrow> bool \<times> nat" where
  "failover_budget p e =
     (case req_max_retries (t_requirements (te_task e)) of
        Some bound \<Rightarrow> (te_retry_count e < bound, bound)
      | None \<Rightarrow>
          let cap = (if rp_max_retries p = 0 then 0 else max (rp_max_failovers p) (rp_max_retries p))
          in (te_failover_count e < cap, cap))"

text \<open>
  The product of the initial delay and the power of the multiplier is computed exactly, where
  the code computes it in \<^verbatim>\<open>f64\<close>; the conversion to \<^verbatim>\<open>u64\<close> saturates at both ends.
\<close>

definition calculate_backoff :: "RetryPolicy \<Rightarrow> nat \<Rightarrow> nat" where
  "calculate_backoff p attempt =
     (if attempt = 0 then 0
      else let factor = rp_backoff_multiplier p ^ (attempt - 1);
               delay = min usize_max (nat (round (of_nat (rp_initial_backoff_ms p) * factor)))
           in min delay (rp_max_backoff_ms p))"

section \<open>Byte charges\<close>

definition map_or_zero :: "('a \<Rightarrow> nat) \<Rightarrow> 'a option \<Rightarrow> nat" where
  "map_or_zero f x = (case x of None \<Rightarrow> 0 | Some y \<Rightarrow> f y)"

lemma map_or_zero_simps [simp]: "map_or_zero f None = 0" "map_or_zero f (Some y) = f y"
  by (simp_all add: map_or_zero_def)

definition lens :: "string list \<Rightarrow> nat" where
  "lens xs = (\<Sum>x \<leftarrow> xs. length x)"

definition env_bytes :: "env_map \<Rightarrow> nat" where
  "env_bytes m = (\<Sum>(k, v) \<leftarrow> m. length k + length v)"

fun spec_bytes :: "TaskSpec \<Rightarrow> nat" where
  "spec_bytes (Command p a e wd si) =
     length p + lens a + env_bytes e + map_or_zero length wd + map_or_zero length si"
| "spec_bytes (ShellScript s i e) = length s + map_or_zero length i + env_bytes e"
| "spec_bytes (RustCompilation n fs flags td) =
     length n + env_bytes fs + lens flags + map_or_zero length td"
| "spec_bytes (GpuCompute k d _ _ _) = length k + length d"
| "spec_bytes (BuiltinTest n _ _ _ _) = length n"
| "spec_bytes (Generative3D g) =
     map_or_zero length (g3_prompt g) + map_or_zero length (g3_image_data g) + length (g3_quality g)
     + map_or_zero length (g3_engine_preference g)"
| "spec_bytes (AutoRig a) =
     length (ar_input_mesh a) + length (ar_rig_preset a) + lens (ar_embed_animations a)
     + map_or_zero length (ar_preferred_provider a)"

definition task_active_bytes :: "Task \<Rightarrow> nat" where
  "task_active_bytes t =
     RETAINED_ENTRY_OVERHEAD_BYTES
     + spec_bytes (t_spec t)
     + (\<Sum>f \<leftarrow> t_staged_files t. length (sf_path f) + length (sf_data f))
     + lens (t_expected_outputs t)
     + ((\<Sum>i \<leftarrow> t_inputs t. length (ti_path i) + BLOB_REF_BYTES) + lens (t_output_globs t))
     + map_or_zero (length \<circ> cp_delta_state) (t_latest_checkpoint t)
     + lens (t_tags t)"

definition result_bytes :: "TaskResult \<Rightarrow> nat" where
  "result_bytes r =
     length (tr_stdout r) + length (tr_stderr r) + map_or_zero length (tr_error r)
     + map_or_zero length (tr_device_name r) + map_or_zero length (tr_asset_bytes r)
     + (\<Sum>a \<leftarrow> tr_artifacts r. length (oa_path a) + length (oa_data a))
     + (\<Sum>b \<leftarrow> tr_outputs r. length (bf_path b) + BLOB_REF_BYTES)"

definition history_bytes :: "RetryAttempt list \<Rightarrow> nat" where
  "history_bytes h = (\<Sum>a \<leftarrow> h. length (ra_reason a) + map_or_zero length (ra_error a))"

definition retained_bytes :: "TaskEntry \<Rightarrow> nat" where
  "retained_bytes e =
     task_active_bytes (te_task e) + map_or_zero result_bytes (te_result e)
     + history_bytes (te_retry_history e) + map_or_zero length (te_error_message e)"

section \<open>The two byte ledgers\<close>

definition charge_active :: "uuid \<Rightarrow> nat \<Rightarrow> TaskQueueInner \<Rightarrow> TaskQueueInner" where
  "charge_active tid n q =
     q\<lparr>active_sizes := hm_put tid n (active_sizes q), active_bytes := sat_add (active_bytes q) n\<rparr>"

definition untrack_active_task :: "uuid \<Rightarrow> TaskQueueInner \<Rightarrow> TaskQueueInner" where
  "untrack_active_task tid q =
     (case hm_get (active_sizes q) tid of
        None \<Rightarrow> q
      | Some sz \<Rightarrow>
          q\<lparr>active_sizes := hm_del tid (active_sizes q), active_bytes := active_bytes q - sz\<rparr>)"

definition update_active_task :: "uuid \<Rightarrow> TaskQueueInner \<Rightarrow> TaskQueueInner" where
  "update_active_task tid q0 =
     (let q = untrack_active_task tid q0
      in case hm_get (tasks q) tid of
           None \<Rightarrow> q
         | Some e \<Rightarrow> if is_terminal (te_state e) then q else charge_active tid (retained_bytes e) q)"

definition charge_terminal :: "uuid \<Rightarrow> nat \<Rightarrow> TaskQueueInner \<Rightarrow> TaskQueueInner" where
  "charge_terminal tid n q =
     q\<lparr>terminal_sizes := hm_put tid n (terminal_sizes q), terminal_bytes := terminal_bytes q + n\<rparr>"

definition untrack_terminal_task :: "uuid \<Rightarrow> TaskQueueInner \<Rightarrow> TaskQueueInner" where
  "untrack_terminal_task tid q =
     (case hm_get (terminal_sizes q) tid of
        None \<Rightarrow> q
      | Some sz \<Rightarrow>
          q\<lparr>terminal_sizes := hm_del tid (terminal_sizes q), terminal_bytes := terminal_bytes q - sz\<rparr>)"

interpretation active_ledger:
  byte_ledger active_sizes active_bytes charge_active untrack_active_task "\<lambda>n. n \<le> usize_max"
  by unfold_locales
    (auto simp: charge_active_def untrack_active_task_def sat_add_exact hm_del_absent split: option.splits)

interpretation terminal_ledger:
  byte_ledger terminal_sizes terminal_bytes charge_terminal untrack_terminal_task "\<lambda>_. True"
  by unfold_locales
    (auto simp: charge_terminal_def untrack_terminal_task_def hm_del_absent split: option.splits)

section \<open>Retention of finished tasks\<close>

definition remove_retained :: "uuid \<Rightarrow> TaskQueueInner \<Rightarrow> TaskQueueInner" where
  "remove_retained tid q =
     untrack_terminal_task tid (untrack_active_task tid (q\<lparr>tasks := hm_del tid (tasks q)\<rparr>))"

definition evict_oldest_terminal :: "TaskQueueInner \<Rightarrow> bool \<times> TaskQueueInner" where
  "evict_oldest_terminal q =
     (case terminal_order q of
        [] \<Rightarrow> (False, q)
      | oldest # rest \<Rightarrow>
          let q1 = q\<lparr>terminal_order := rest\<rparr>
          in (True,
              case hm_get (tasks q1) oldest of
                Some e \<Rightarrow>
                  if is_terminal (te_state e) then remove_retained oldest q1
                  else q1\<lparr>terminal_sizes := hm_del oldest (terminal_sizes q1)\<rparr>
              | None \<Rightarrow> q1\<lparr>terminal_sizes := hm_del oldest (terminal_sizes q1)\<rparr>))"

lemma untrack_active_other [simp]:
  "tasks (untrack_active_task tid q) = tasks q"
  "ready_queue (untrack_active_task tid q) = ready_queue q"
  "delayed_retries (untrack_active_task tid q) = delayed_retries q"
  "worker_assignments (untrack_active_task tid q) = worker_assignments q"
  "next_sequence (untrack_active_task tid q) = next_sequence q"
  "retry_policy (untrack_active_task tid q) = retry_policy q"
  "capacity (untrack_active_task tid q) = capacity q"
  "max_terminal_tasks (untrack_active_task tid q) = max_terminal_tasks q"
  "max_terminal_bytes (untrack_active_task tid q) = max_terminal_bytes q"
  "max_active_bytes (untrack_active_task tid q) = max_active_bytes q"
  "terminal_order (untrack_active_task tid q) = terminal_order q"
  "terminal_sizes (untrack_active_task tid q) = terminal_sizes q"
  "terminal_bytes (untrack_active_task tid q) = terminal_bytes q"
  by (simp_all add: untrack_active_task_def split: option.splits)

lemma untrack_terminal_other [simp]:
  "tasks (untrack_terminal_task tid q) = tasks q"
  "ready_queue (untrack_terminal_task tid q) = ready_queue q"
  "delayed_retries (untrack_terminal_task tid q) = delayed_retries q"
  "worker_assignments (untrack_terminal_task tid q) = worker_assignments q"
  "next_sequence (untrack_terminal_task tid q) = next_sequence q"
  "retry_policy (untrack_terminal_task tid q) = retry_policy q"
  "capacity (untrack_terminal_task tid q) = capacity q"
  "max_terminal_tasks (untrack_terminal_task tid q) = max_terminal_tasks q"
  "max_terminal_bytes (untrack_terminal_task tid q) = max_terminal_bytes q"
  "max_active_bytes (untrack_terminal_task tid q) = max_active_bytes q"
  "terminal_order (untrack_terminal_task tid q) = terminal_order q"
  "active_sizes (untrack_terminal_task tid q) = active_sizes q"
  "active_bytes (untrack_terminal_task tid q) = active_bytes q"
  by (simp_all add: untrack_terminal_task_def split: option.splits)

lemma remove_retained_other [simp]:
  "ready_queue (remove_retained tid q) = ready_queue q"
  "delayed_retries (remove_retained tid q) = delayed_retries q"
  "worker_assignments (remove_retained tid q) = worker_assignments q"
  "next_sequence (remove_retained tid q) = next_sequence q"
  "retry_policy (remove_retained tid q) = retry_policy q"
  "capacity (remove_retained tid q) = capacity q"
  "max_terminal_tasks (remove_retained tid q) = max_terminal_tasks q"
  "max_terminal_bytes (remove_retained tid q) = max_terminal_bytes q"
  "max_active_bytes (remove_retained tid q) = max_active_bytes q"
  "terminal_order (remove_retained tid q) = terminal_order q"
  "tasks (remove_retained tid q) = hm_del tid (tasks q)"
  by (simp_all add: remove_retained_def)

lemma evict_oldest_shorter:
  "evict_oldest_terminal q = (True, q') \<Longrightarrow> length (terminal_order q') < length (terminal_order q)"
  by (auto simp: evict_oldest_terminal_def Let_def split: list.splits option.splits if_splits)

text \<open>The eviction loop: \<open>while over(q) { if !evict_oldest { break } }\<close>.\<close>

function evict_while :: "(TaskQueueInner \<Rightarrow> bool) \<Rightarrow> TaskQueueInner \<Rightarrow> TaskQueueInner" where
  "evict_while over q =
     (if over q then
        (case evict_oldest_terminal q of (ok, q') \<Rightarrow> if ok then evict_while over q' else q')
      else q)"
  by pat_completeness auto
termination
  by (relation "measure (\<lambda>(over, q). length (terminal_order q))") (auto dest: evict_oldest_shorter [OF sym])

declare evict_while.simps [simp del]

definition over_count :: "TaskQueueInner \<Rightarrow> bool" where
  "over_count q \<longleftrightarrow> max_terminal_tasks q < length (terminal_order q)"

definition over_bytes :: "TaskQueueInner \<Rightarrow> bool" where
  "over_bytes q \<longleftrightarrow> max_terminal_bytes q < terminal_bytes q \<and> 1 < length (terminal_order q)"

definition enforce_terminal_limits :: "TaskQueueInner \<Rightarrow> TaskQueueInner" where
  "enforce_terminal_limits q = evict_while over_bytes (evict_while over_count q)"

definition track_terminal_task :: "uuid \<Rightarrow> TaskQueueInner \<Rightarrow> TaskQueueInner" where
  "track_terminal_task tid q0 =
     (let q = untrack_active_task tid q0
      in case hm_get (terminal_sizes q) tid of
           Some _ \<Rightarrow> q
         | None \<Rightarrow>
             let sz = map_or_zero retained_bytes (hm_get (tasks q) tid);
                 q1 = charge_terminal tid sz q
             in enforce_terminal_limits (q1\<lparr>terminal_order := terminal_order q1 @ [tid]\<rparr>))"

function evict_terminal_tasks :: "nat \<Rightarrow> nat \<Rightarrow> TaskQueueInner \<Rightarrow> nat \<times> TaskQueueInner" where
  "evict_terminal_tasks max_retained evicted q =
     (if max_retained < length (terminal_order q) then
        let had_entry = (case terminal_order q of
                           [] \<Rightarrow> False
                         | oldest # _ \<Rightarrow>
                             (case hm_get (tasks q) oldest of None \<Rightarrow> False | Some e \<Rightarrow> is_terminal (te_state e)))
        in case evict_oldest_terminal q of
             (ok, q') \<Rightarrow>
               if ok then evict_terminal_tasks max_retained (if had_entry then evicted + 1 else evicted) q'
               else (evicted, q')
      else (evicted, q))"
  by pat_completeness auto
termination
  by (relation "measure (\<lambda>(n, m, q). length (terminal_order q))") (auto dest: evict_oldest_shorter [OF sym])

declare evict_terminal_tasks.simps [simp del]

section \<open>Ownership and rejections\<close>

definition WORKER_REJECTION_MARKERS :: "string list" where
  "WORKER_REJECTION_MARKERS =
     [''rejected by worker'', ''exceed worker capabilities'', ''capabilities insufficient'',
      ''lacks gpu capability'']"

definition is_worker_rejection :: "TaskResult \<Rightarrow> bool" where
  "is_worker_rejection r =
     (if tr_exit_code r = 0 \<or> tr_exit_code r = 130 \<or> tr_execution_time_ms r \<noteq> 0 \<or> tr_stdout r \<noteq> []
      then False
      else let msg = (case tr_error r of None \<Rightarrow> [] | Some m \<Rightarrow> m) @ '' '' @ bytes_to_string_lossy (tr_stderr r)
           in list_ex (contains_str (to_ascii_lowercase msg)) WORKER_REJECTION_MARKERS)"

definition owned_by :: "TaskEntry \<Rightarrow> uuid \<Rightarrow> nat option \<Rightarrow> bool" where
  "owned_by e w session \<longleftrightarrow>
     te_assigned_worker_id e = Some w
     \<and> (case (session, te_assigned_session e) of
          (Some claimed, Some assigned) \<Rightarrow> claimed = assigned
        | _ \<Rightarrow> True)"

section \<open>Hash-set valued maps\<close>

definition hs_insert :: "'a \<Rightarrow> 'a list \<Rightarrow> 'a list" where
  "hs_insert x s = (if x \<in> set s then s else s @ [x])"

definition hs_remove :: "'a \<Rightarrow> 'a list \<Rightarrow> 'a list" where
  "hs_remove x s = filter (\<lambda>y. y \<noteq> x) s"

definition assign_insert :: "uuid \<Rightarrow> uuid \<Rightarrow> (uuid, uuid list) hmap \<Rightarrow> (uuid, uuid list) hmap" where
  "assign_insert w tid m = hm_put w (hs_insert tid (case hm_get m w of None \<Rightarrow> [] | Some s \<Rightarrow> s)) m"

definition assign_remove :: "uuid \<Rightarrow> uuid \<Rightarrow> (uuid, uuid list) hmap \<Rightarrow> (uuid, uuid list) hmap" where
  "assign_remove w tid m = (case hm_get m w of None \<Rightarrow> m | Some s \<Rightarrow> hm_put w (hs_remove tid s) m)"

definition order_key :: "TaskEntry \<Rightarrow> uuid \<Rightarrow> QueueOrderKey" where
  "order_key e tid = OrderKey (te_priority e) (te_sequence e) tid"

end
