(* ===== verification/Queue_Ops.thy ===== *)
theory Queue_Ops
  imports Queue_State
begin

text \<open>
  The operations of the task queue (\<^verbatim>\<open>impl TaskQueue\<close> of \<^verbatim>\<open>crates/master/src/queue.rs\<close>).
  Every method takes the queue's lock once and runs to its end under it, so each is one function
  from the queue's state to its result and the new state.  \<^verbatim>\<open>try_submit_slot\<close>, which takes the lock
  twice, has the state its first check reads as a separate argument.
\<close>

datatype queue_message = InvalidTask task_error | TaskSlotEmpty | TaskExists uuid TaskState

type_synonym queue_error = "queue_message GridError"

section \<open>Submission\<close>

definition active_count :: "TaskQueueInner \<Rightarrow> nat" where
  "active_count q = hm_count (\<lambda>e. \<not> is_terminal (te_state e)) (tasks q)"

definition check_capacity :: "TaskQueueInner \<Rightarrow> queue_error + unit" where
  "check_capacity q =
     (case capacity q of
        None \<Rightarrow> Inr ()
      | Some cap \<Rightarrow> if cap \<le> active_count q then Inl (QueueFull cap) else Inr ())"

definition check_bytes :: "nat \<Rightarrow> TaskQueueInner \<Rightarrow> queue_error + unit" where
  "check_bytes task_bytes q =
     (if max_active_bytes q < sat_add (active_bytes q) task_bytes
      then Inl (QueueByteLimitExceeded task_bytes (active_bytes q) (max_active_bytes q))
      else Inr ())"

definition check_room :: "nat \<Rightarrow> TaskQueueInner \<Rightarrow> queue_error + unit" where
  "check_room task_bytes q =
     (case check_capacity q of Inl e \<Rightarrow> Inl e | Inr _ \<Rightarrow> check_bytes task_bytes q)"

definition new_entry :: "call_env \<Rightarrow> Task \<Rightarrow> nat \<Rightarrow> nat \<Rightarrow> TaskEntry" where
  "new_entry env task priority sequence =
     \<lparr>te_task = task, te_priority = priority, te_sequence = sequence, te_state = Queued,
      te_assigned_worker_id = None, te_submitted_at_utc = ce_epoch env,
      te_submitted_instant = ce_now env, te_scheduled_instant = None, te_started_instant = None,
      te_retry_after_instant = None, te_retry_count = 0, te_failover_count = 0,
      te_rejection_count = 0, te_avoid_workers = [], te_assigned_session = None,
      te_retry_history = [], te_result = None, te_error_message = None\<rparr>"

definition admit :: "TaskEntry \<Rightarrow> nat \<Rightarrow> TaskQueueInner \<Rightarrow> TaskQueueInner" where
  "admit e entry_bytes q =
     (let tid = t_id (te_task e);
          q1 = charge_active tid entry_bytes (q\<lparr>tasks := hm_put tid e (tasks q)\<rparr>)
      in q1\<lparr>ready_queue := bts_insert (order_key e tid) (ready_queue q1)\<rparr>)"

definition try_submit_slot ::
  "call_env \<Rightarrow> TaskQueueInner \<Rightarrow> Task option \<Rightarrow> TaskQueueInner
     \<Rightarrow> (queue_error + uuid) \<times> Task option \<times> TaskQueueInner" where
  "try_submit_slot env read_q slot q =
     (case slot of
        None \<Rightarrow> (Inl (Config TaskSlotEmpty), slot, q)
      | Some task \<Rightarrow>
     (case task_validate task of
        Inl e \<Rightarrow> (Inl (Config (InvalidTask e)), slot, q)
      | Inr _ \<Rightarrow>
     let entry_bytes = task_active_bytes task in
     (case check_room entry_bytes read_q of
        Inl e \<Rightarrow> (Inl e, slot, q)
      | Inr _ \<Rightarrow>
     (case hm_get (tasks q) (t_id task) of
        Some existing \<Rightarrow> (Inl (Config (TaskExists (t_id task) (te_state existing))), slot, q)
      | None \<Rightarrow>
     (case check_capacity q of
        Inl e \<Rightarrow> (Inl e, slot, q)
      | Inr _ \<Rightarrow>
     (case check_bytes entry_bytes q of
        Inl e \<Rightarrow> (Inl e, slot, q)
      | Inr _ \<Rightarrow>
          let q1 = q\<lparr>next_sequence := next_sequence q + 1\<rparr>;
              e = new_entry env task 0 (next_sequence q)
          in (Inr (t_id task), None, admit e entry_bytes q1)))))))"

definition submit_with_priority ::
  "call_env \<Rightarrow> Task \<Rightarrow> nat \<Rightarrow> TaskQueueInner \<Rightarrow> (queue_error + uuid) \<times> TaskQueueInner" where
  "submit_with_priority env task priority q =
     (case task_validate task of
        Inl e \<Rightarrow> (Inl (Config (InvalidTask e)), q)
      | Inr _ \<Rightarrow>
     (case hm_get (tasks q) (t_id task) of
        Some existing \<Rightarrow> (Inl (Config (TaskExists (t_id task) (te_state existing))), q)
      | None \<Rightarrow>
     (case check_capacity q of
        Inl e \<Rightarrow> (Inl e, q)
      | Inr _ \<Rightarrow>
     let e = new_entry env task priority (next_sequence q);
         q1 = q\<lparr>next_sequence := next_sequence q + 1\<rparr>
     in case check_bytes (retained_bytes e) q1 of
          Inl err \<Rightarrow> (Inl err, q1)
        | Inr _ \<Rightarrow> (Inr (t_id task), admit e (retained_bytes e) q1))))"

definition submit :: "call_env \<Rightarrow> Task \<Rightarrow> TaskQueueInner \<Rightarrow> (queue_error + uuid) \<times> TaskQueueInner" where
  "submit env task q = submit_with_priority env task 0 q"

section \<open>Queries of the scheduler\<close>

record TaskView =
  tv_task_id :: uuid
  tv_requirements :: TaskRequirements
  tv_requires_gpu :: bool
  tv_heavy :: bool
  tv_required_features :: ProtocolCapabilities
  tv_avoid :: "uuid list"
  tv_placement :: "placement_error + Placement"

definition required_features :: "Task \<Rightarrow> ProtocolCapabilities" where
  "required_features t =
     (let f0 = caps_empty;
          f1 = (if t_staged_files t \<noteq> [] \<or> t_expected_outputs t \<noteq> [] then caps_insert f0 FILE_STAGING else f0)
      in if uses_blobs t then caps_insert f1 BLOB_TRANSFER else f1)"

definition view_of :: "Task \<Rightarrow> TaskView" where
  "view_of t =
     \<lparr>tv_task_id = t_id t, tv_requirements = t_requirements t,
      tv_requires_gpu = (gpu_required (t_requirements t) \<or> spec_requires_gpu (t_spec t)),
      tv_heavy = (case t_spec t of RustCompilation _ _ _ _ \<Rightarrow> True | GpuCompute _ _ _ _ _ \<Rightarrow> True | _ \<Rightarrow> False),
      tv_required_features = required_features t, tv_avoid = [], tv_placement = task_placement t\<rparr>"

definition queued_entry :: "TaskQueueInner \<Rightarrow> QueueOrderKey \<Rightarrow> TaskEntry option" where
  "queued_entry q k =
     (case hm_get (tasks q) (qk_task_id k) of
        Some e \<Rightarrow> if te_state e = Queued then Some e else None
      | None \<Rightarrow> None)"

definition get_schedulable_tasks :: "TaskQueueInner \<Rightarrow> Task list" where
  "get_schedulable_tasks q =
     List.map_filter (\<lambda>k. map_option te_task (queued_entry q k)) (ready_queue q)"

fun ready_views_loop ::
  "TaskQueueInner \<Rightarrow> nat \<Rightarrow> TaskView list \<Rightarrow> QueueOrderKey list \<Rightarrow> TaskView list \<times> QueueOrderKey option" where
  "ready_views_loop q page views [] = (views, None)"
| "ready_views_loop q page views (k # ks) =
     (case queued_entry q k of
        None \<Rightarrow> ready_views_loop q page views ks
      | Some e \<Rightarrow>
          let views' = views @ [(view_of (te_task e))\<lparr>tv_avoid := te_avoid_workers e\<rparr>]
          in if page \<le> length views' then (views', Some k) else ready_views_loop q page views' ks)"

definition keys_after :: "QueueOrderKey option \<Rightarrow> QueueOrderKey list \<Rightarrow> QueueOrderKey list" where
  "keys_after after ks = (case after of None \<Rightarrow> ks | Some k \<Rightarrow> filter (\<lambda>k'. k < k') ks)"

definition ready_views ::
  "TaskQueueInner \<Rightarrow> QueueOrderKey option \<Rightarrow> nat \<Rightarrow> TaskView list \<times> QueueOrderKey option" where
  "ready_views q after page = ready_views_loop q page [] (keys_after after (ready_queue q))"

definition ready_task_ids :: "TaskQueueInner \<Rightarrow> nat \<Rightarrow> uuid list" where
  "ready_task_ids q n =
     map qk_task_id (take n (filter (\<lambda>k. queued_entry q k \<noteq> None) (ready_queue q)))"

definition any_queued :: "TaskQueueInner \<Rightarrow> (Task \<Rightarrow> bool) \<Rightarrow> bool" where
  "any_queued q pred =
     list_ex (\<lambda>k. case queued_entry q k of None \<Rightarrow> False | Some e \<Rightarrow> pred (te_task e)) (ready_queue q)"

record AssignedLoad =
  al_tasks :: nat
  al_slots :: nat
  al_unstarted_ram_mb :: nat

definition load_default :: AssignedLoad where
  "load_default = \<lparr>al_tasks = 0, al_slots = 0, al_unstarted_ram_mb = 0\<rparr>"

fun load_of :: "TaskQueueInner \<Rightarrow> AssignedLoad \<Rightarrow> uuid list \<Rightarrow> AssignedLoad" where
  "load_of q l [] = l"
| "load_of q l (tid # rest) =
     (case hm_get (tasks q) tid of
        None \<Rightarrow> load_of q l rest
      | Some e \<Rightarrow>
          if \<not> is_active (te_state e) then load_of q l rest
          else load_of q
                 (l\<lparr>al_tasks := al_tasks l + 1,
                    al_slots := al_slots l + max 1 (cpu_cores (t_requirements (te_task e))),
                    al_unstarted_ram_mb :=
                      (if te_state e = Scheduled
                       then al_unstarted_ram_mb l + ram_mb (t_requirements (te_task e))
                       else al_unstarted_ram_mb l)\<rparr>) rest)"

fun loads_loop ::
  "TaskQueueInner \<Rightarrow> (uuid, AssignedLoad) hmap \<Rightarrow> (uuid, uuid list) hmap \<Rightarrow> (uuid, AssignedLoad) hmap" where
  "loads_loop q loads [] = loads"
| "loads_loop q loads ((w, tids) # rest) =
     (let l = load_of q load_default tids
      in loads_loop q (if 0 < al_tasks l then hm_put w l loads else loads) rest)"

definition assigned_loads :: "TaskQueueInner \<Rightarrow> (uuid, AssignedLoad) hmap" where
  "assigned_loads q = loads_loop q [] (worker_assignments q)"

fun avoided_workers_for :: "TaskQueueInner \<Rightarrow> uuid list \<Rightarrow> (uuid, uuid list) hmap \<Rightarrow> (uuid, uuid list) hmap" where
  "avoided_workers_for q [] acc = acc"
| "avoided_workers_for q (tid # rest) acc =
     avoided_workers_for q rest
       (case hm_get (tasks q) tid of
          Some e \<Rightarrow> if te_avoid_workers e = [] then acc else hm_put tid (te_avoid_workers e) acc
        | None \<Rightarrow> acc)"

section \<open>Assignment\<close>

definition put_entry :: "uuid \<Rightarrow> TaskEntry \<Rightarrow> TaskQueueInner \<Rightarrow> TaskQueueInner" where
  "put_entry tid e q = q\<lparr>tasks := hm_put tid e (tasks q)\<rparr>"

definition ready_insert :: "QueueOrderKey \<Rightarrow> TaskQueueInner \<Rightarrow> TaskQueueInner" where
  "ready_insert k q = q\<lparr>ready_queue := bts_insert k (ready_queue q)\<rparr>"

definition ready_remove :: "QueueOrderKey \<Rightarrow> TaskQueueInner \<Rightarrow> TaskQueueInner" where
  "ready_remove k q = q\<lparr>ready_queue := bts_remove k (ready_queue q)\<rparr>"

definition delayed_insert :: "DelayedRetryKey \<Rightarrow> TaskQueueInner \<Rightarrow> TaskQueueInner" where
  "delayed_insert k q = q\<lparr>delayed_retries := bts_insert k (delayed_retries q)\<rparr>"

definition delayed_remove :: "DelayedRetryKey \<Rightarrow> TaskQueueInner \<Rightarrow> TaskQueueInner" where
  "delayed_remove k q = q\<lparr>delayed_retries := bts_remove k (delayed_retries q)\<rparr>"

definition assign_to :: "uuid \<Rightarrow> uuid \<Rightarrow> TaskQueueInner \<Rightarrow> TaskQueueInner" where
  "assign_to w tid q = q\<lparr>worker_assignments := assign_insert w tid (worker_assignments q)\<rparr>"

definition unassign :: "uuid \<Rightarrow> uuid \<Rightarrow> TaskQueueInner \<Rightarrow> TaskQueueInner" where
  "unassign w tid q = q\<lparr>worker_assignments := assign_remove w tid (worker_assignments q)\<rparr>"

definition mark_scheduled :: "call_env \<Rightarrow> uuid \<Rightarrow> nat option \<Rightarrow> TaskEntry \<Rightarrow> TaskEntry" where
  "mark_scheduled env w session e =
     e\<lparr>te_state := Scheduled, te_assigned_worker_id := Some w, te_assigned_session := session,
       te_scheduled_instant := Some (ce_now env)\<rparr>"

definition pop_and_schedule ::
  "call_env \<Rightarrow> uuid \<Rightarrow> (TaskRequirements \<Rightarrow> bool) \<Rightarrow> TaskQueueInner \<Rightarrow> Task option \<times> TaskQueueInner" where
  "pop_and_schedule env w pred q =
     (case find (\<lambda>k. case hm_get (tasks q) (qk_task_id k) of
                       Some e \<Rightarrow> te_state e = Queued \<and> pred (t_requirements (te_task e))
                     | None \<Rightarrow> False) (ready_queue q) of
        None \<Rightarrow> (None, q)
      | Some k \<Rightarrow>
          let tid = qk_task_id k; q1 = ready_remove k q
          in case hm_get (tasks q1) tid of
               None \<Rightarrow> (None, q1)
             | Some e \<Rightarrow>
                 (Some (te_task e), assign_to w tid (put_entry tid (mark_scheduled env w None e) q1)))"

definition schedule_task ::
  "call_env \<Rightarrow> uuid \<Rightarrow> uuid \<Rightarrow> TaskQueueInner \<Rightarrow> Task option \<times> TaskQueueInner" where
  "schedule_task env tid w q =
     (case hm_get (tasks q) tid of
        None \<Rightarrow> (None, q)
      | Some e \<Rightarrow>
          if te_state e \<noteq> Queued then (None, q)
          else (Some (te_task e),
                assign_to w tid (put_entry tid (mark_scheduled env w None e)
                  (ready_remove (order_key e tid) q))))"

fun schedule_batch_inner ::
  "call_env \<Rightarrow> (uuid \<times> uuid \<times> nat option) list \<Rightarrow> TaskQueueInner
     \<Rightarrow> (uuid \<times> uuid \<times> Task) list \<times> TaskQueueInner" where
  "schedule_batch_inner env [] q = ([], q)"
| "schedule_batch_inner env ((tid, w, session) # rest) q =
     (case hm_get (tasks q) tid of
        None \<Rightarrow> schedule_batch_inner env rest q
      | Some e \<Rightarrow>
          if te_state e \<noteq> Queued
          then schedule_batch_inner env rest (ready_remove (order_key e tid) q)
          else let q1 = assign_to w tid (put_entry tid (mark_scheduled env w session e)
                          (ready_remove (order_key e tid) q))
               in case schedule_batch_inner env rest q1 of
                    (done, q') \<Rightarrow> ((tid, w, te_task e) # done, q'))"

definition schedule_tasks_batch ::
  "call_env \<Rightarrow> (uuid \<times> uuid) list \<Rightarrow> TaskQueueInner \<Rightarrow> (uuid \<times> uuid \<times> Task) list \<times> TaskQueueInner" where
  "schedule_tasks_batch env as q = schedule_batch_inner env (map (\<lambda>(t, w). (t, w, None)) as) q"

definition schedule_tasks_batch_in_sessions ::
  "call_env \<Rightarrow> (uuid \<times> uuid \<times> nat) list \<Rightarrow> TaskQueueInner \<Rightarrow> (uuid \<times> uuid \<times> Task) list \<times> TaskQueueInner" where
  "schedule_tasks_batch_in_sessions env as q =
     schedule_batch_inner env (map (\<lambda>(t, w, s). (t, w, Some s)) as) q"

section \<open>Dispatch\<close>

definition requeue_task :: "uuid \<Rightarrow> TaskQueueInner \<Rightarrow> (queue_error + unit) \<times> TaskQueueInner" where
  "requeue_task tid q =
     (case hm_get (tasks q) tid of
        None \<Rightarrow> (Inl (TaskNotFound tid), q)
      | Some e \<Rightarrow>
          if is_terminal (te_state e)
          then (Inl (InvalidTaskState tid (state_debug (te_state e)) ''Queued''), q)
          else let q1 = (case te_assigned_worker_id e of Some w \<Rightarrow> unassign w tid q | None \<Rightarrow> q);
                   e' = e\<lparr>te_assigned_session := None, te_assigned_worker_id := None,
                          te_state := Queued, te_scheduled_instant := None\<rparr>
               in (Inr (), ready_insert (order_key e tid) (put_entry tid e' q1)))"

definition deliver_if_scheduled ::
  "uuid \<Rightarrow> uuid \<Rightarrow> nat \<Rightarrow> (unit \<Rightarrow> 'r) \<Rightarrow> TaskQueueInner \<Rightarrow> 'r option" where
  "deliver_if_scheduled tid w session deliver q =
     (case hm_get (tasks q) tid of
        None \<Rightarrow> None
      | Some e \<Rightarrow>
          if te_state e \<noteq> Scheduled \<or> \<not> owned_by e w (Some session) then None else Some (deliver ()))"

definition requeue_dispatch_failure ::
  "uuid \<Rightarrow> uuid \<Rightarrow> nat \<Rightarrow> TaskQueueInner \<Rightarrow> (queue_error + bool) \<times> TaskQueueInner" where
  "requeue_dispatch_failure tid w session q =
     (case hm_get (tasks q) tid of
        None \<Rightarrow> (Inl (TaskNotFound tid), q)
      | Some e \<Rightarrow>
          if te_state e \<noteq> Scheduled \<or> \<not> owned_by e w (Some session) then (Inr False, q)
          else let e' = e\<lparr>te_state := Queued, te_assigned_worker_id := None,
                          te_assigned_session := None, te_scheduled_instant := None\<rparr>
               in (Inr True, ready_insert (order_key e tid) (unassign w tid (put_entry tid e' q))))"

definition not_assigned_here :: string where
  "not_assigned_here = '' (not assigned to this worker/session)''"

definition mark_running_from ::
  "call_env \<Rightarrow> uuid \<Rightarrow> nat option \<Rightarrow> uuid \<Rightarrow> TaskQueueInner \<Rightarrow> (queue_error + unit) \<times> TaskQueueInner" where
  "mark_running_from env w session tid q =
     (case hm_get (tasks q) tid of
        None \<Rightarrow> (Inl (TaskNotFound tid), q)
      | Some e \<Rightarrow>
          if \<not> owned_by e w session
          then (Inl (InvalidTaskState tid (state_debug (te_state e) @ not_assigned_here) ''Running''), q)
          else if \<not> can_transition_to (te_state e) Running
          then (Inl (InvalidTaskState tid (state_debug (te_state e)) ''Running''), q)
          else (Inr (), put_entry tid
                  (e\<lparr>te_state := Running, te_started_instant := Some (ce_now env)\<rparr>) q))"

definition mark_running ::
  "call_env \<Rightarrow> uuid \<Rightarrow> uuid \<Rightarrow> TaskQueueInner \<Rightarrow> (queue_error + unit) \<times> TaskQueueInner" where
  "mark_running env tid w q = mark_running_from env w None tid q"

section \<open>Checkpoints\<close>

definition is_newer_checkpoint :: "TaskEntry \<Rightarrow> CheckpointData \<Rightarrow> bool" where
  "is_newer_checkpoint e cp =
     (case t_latest_checkpoint (te_task e) of
        Some existing \<Rightarrow> cp_sequence existing < cp_sequence cp
      | None \<Rightarrow> True)"

definition checkpoint_exceeds_active_cap ::
  "TaskEntry \<Rightarrow> CheckpointData \<Rightarrow> nat \<Rightarrow> nat \<Rightarrow> nat option" where
  "checkpoint_exceeds_active_cap e cp in_use limit_bytes =
     (if \<not> is_newer_checkpoint e cp then None
      else let old_cp = map_or_zero (length \<circ> cp_delta_state) (t_latest_checkpoint (te_task e));
               new_cp = length (cp_delta_state cp)
           in if old_cp < new_cp \<and> limit_bytes < sat_add (in_use - old_cp) new_cp
              then Some (sat_add (retained_bytes e - old_cp) new_cp) else None)"

definition apply_checkpoint :: "TaskEntry \<Rightarrow> CheckpointData \<Rightarrow> bool \<times> TaskEntry" where
  "apply_checkpoint e cp =
     (if is_newer_checkpoint e cp then (True, e\<lparr>te_task := update_checkpoint cp (te_task e)\<rparr>)
      else (False, e))"

definition store_checkpoint ::
  "uuid \<Rightarrow> TaskEntry \<Rightarrow> CheckpointData \<Rightarrow> TaskQueueInner \<Rightarrow> (queue_error + bool) \<times> TaskQueueInner" where
  "store_checkpoint tid e cp q =
     (case checkpoint_exceeds_active_cap e cp (active_bytes q) (max_active_bytes q) of
        Some task_bytes \<Rightarrow>
          (Inl (QueueByteLimitExceeded task_bytes (active_bytes q) (max_active_bytes q)), q)
      | None \<Rightarrow>
          (case apply_checkpoint e cp of
             (applied, e') \<Rightarrow>
               let q1 = put_entry tid e' q
               in (Inr applied, if applied then update_active_task tid q1 else q1)))"

definition record_checkpoint ::
  "uuid \<Rightarrow> CheckpointData \<Rightarrow> TaskQueueInner \<Rightarrow> (queue_error + unit) \<times> TaskQueueInner" where
  "record_checkpoint tid cp q =
     (case hm_get (tasks q) tid of
        None \<Rightarrow> (Inl (TaskNotFound tid), q)
      | Some e \<Rightarrow>
          if is_terminal (te_state e) then (Inr (), q)
          else (case store_checkpoint tid e cp q of (r, q') \<Rightarrow> (map_sum (\<lambda>e. e) (\<lambda>_. ()) r, q')))"

definition record_checkpoint_from ::
  "uuid \<Rightarrow> nat option \<Rightarrow> uuid \<Rightarrow> CheckpointData \<Rightarrow> TaskQueueInner \<Rightarrow> (queue_error + bool) \<times> TaskQueueInner" where
  "record_checkpoint_from w session tid cp q =
     (case hm_get (tasks q) tid of
        None \<Rightarrow> (Inl (TaskNotFound tid), q)
      | Some e \<Rightarrow>
          if \<not> is_active (te_state e) \<or> \<not> owned_by e w session then (Inr False, q)
          else store_checkpoint tid e cp q)"

definition get_checkpoint :: "uuid \<Rightarrow> TaskQueueInner \<Rightarrow> CheckpointData option" where
  "get_checkpoint tid q =
     (case hm_get (tasks q) tid of None \<Rightarrow> None | Some e \<Rightarrow> t_latest_checkpoint (te_task e))"

section \<open>Results\<close>

datatype ResultDisposition = Terminal | Requeued | Late | Stale

record ResultOutcome =
  ro_disposition :: ResultDisposition
  ro_state :: TaskState
  ro_rejected :: bool

text \<open>What \<^verbatim>\<open>record_result_from\<close> does to the entry, and the index key it decides to insert.\<close>

datatype result_index = NoKey | ReadyKey QueueOrderKey | DelayKey DelayedRetryKey

definition millis :: "nat \<Rightarrow> nat" where
  "millis ms = ms * 1000000"

definition settle_rejected :: "call_env \<Rightarrow> uuid \<Rightarrow> TaskResult \<Rightarrow> TaskEntry \<Rightarrow> TaskEntry" where
  "settle_rejected env w r e =
     (let n = te_retry_count e + 1
      in e\<lparr>te_rejection_count := te_rejection_count e + 1,
           te_failover_count := te_failover_count e + 1,
           te_retry_count := n,
           te_avoid_workers :=
             (if w \<in> set (te_avoid_workers e) then te_avoid_workers e else te_avoid_workers e @ [w]),
           te_retry_history := te_retry_history e @
             [\<lparr>ra_attempt = n, ra_timestamp_utc = ce_epoch env, ra_failed_worker_id = Some w,
               ra_reason = ''Worker rejected the task without running it'',
               ra_exit_code = Some (tr_exit_code r), ra_error = tr_error r\<rparr>],
           te_state := Queued, te_assigned_worker_id := None, te_assigned_session := None,
           te_scheduled_instant := None, te_started_instant := None\<rparr>)"

definition settle_retry :: "call_env \<Rightarrow> RetryPolicy \<Rightarrow> uuid \<Rightarrow> TaskResult \<Rightarrow> TaskEntry \<Rightarrow> TaskEntry" where
  "settle_retry env p w r e =
     (let n = te_retry_count e + 1
      in e\<lparr>te_retry_count := n, te_state := Retrying, te_assigned_worker_id := None,
           te_assigned_session := None,
           te_retry_after_instant := Some (ce_now env + millis (calculate_backoff p n)),
           te_retry_history := te_retry_history e @
             [\<lparr>ra_attempt = n, ra_timestamp_utc = ce_epoch env, ra_failed_worker_id = Some w,
               ra_reason = ''Non-zero exit code execution failure'',
               ra_exit_code = Some (tr_exit_code r), ra_error = tr_error r\<rparr>]\<rparr>)"

definition settle ::
  "call_env \<Rightarrow> RetryPolicy \<Rightarrow> uuid \<Rightarrow> TaskResult \<Rightarrow> TaskEntry
     \<Rightarrow> queue_error + (TaskEntry \<times> result_index \<times> ResultDisposition)" where
  "settle env p w r e =
     (let tid = tr_task_id r in
      if is_success r then
        if \<not> can_transition_to (te_state e) Completed
        then Inl (InvalidTaskState tid (state_debug (te_state e)) ''Completed'')
        else Inr (e\<lparr>te_state := Completed, te_result := Some r\<rparr>, NoKey, Terminal)
      else if tr_exit_code r = 130 then
        Inr (e\<lparr>te_state := Cancelled,
               te_error_message := (case tr_error r of Some m \<Rightarrow> Some m | None \<Rightarrow> Some ''Cancelled''),
               te_result := Some r\<rparr>, NoKey, Terminal)
      else if is_worker_rejection r \<and> rp_retry_on_worker_disconnect p
           \<and> te_rejection_count e < MAX_WORKER_REJECTIONS_PER_TASK \<and> fst (failover_budget p e) then
        Inr (settle_rejected env w r e, ReadyKey (order_key e tid), Requeued)
      else if rp_retry_on_execution_failure p
           \<and> te_retry_count e - te_failover_count e < rp_max_retries p then
        let e' = settle_retry env p w r e
        in Inr (e', DelayKey (RetryKey (ce_now env + millis (calculate_backoff p (te_retry_count e'))) tid),
                Requeued)
      else Inr (e\<lparr>te_state := Failed, te_error_message := tr_error r, te_result := Some r\<rparr>,
                NoKey, Terminal))"

definition insert_index :: "result_index \<Rightarrow> TaskQueueInner \<Rightarrow> TaskQueueInner" where
  "insert_index k q = (case k of NoKey \<Rightarrow> q | ReadyKey r \<Rightarrow> ready_insert r q | DelayKey d \<Rightarrow> delayed_insert d q)"

definition record_result_from ::
  "call_env \<Rightarrow> uuid \<Rightarrow> nat option \<Rightarrow> TaskResult \<Rightarrow> TaskQueueInner
     \<Rightarrow> (queue_error + ResultOutcome) \<times> TaskQueueInner" where
  "record_result_from env w session r q =
     (let tid = tr_task_id r in
      case hm_get (tasks q) tid of
        None \<Rightarrow> (Inl (TaskNotFound tid), q)
      | Some e \<Rightarrow>
          if \<not> owned_by e w session
          then (Inr \<lparr>ro_disposition = Stale, ro_state = te_state e, ro_rejected = False\<rparr>, q)
          else let q1 = unassign w tid q in
            if is_terminal (te_state e)
            then (Inr \<lparr>ro_disposition = Late, ro_state = te_state e, ro_rejected = False\<rparr>, q1)
            else (case settle env (retry_policy q) w r e of
                    Inl err \<Rightarrow> (Inl err, q1)
                  | Inr (e', k, disp) \<Rightarrow>
                      let q2 = insert_index k (put_entry tid e' q1);
                          q3 = (if is_terminal (te_state e') then track_terminal_task tid q2
                                else update_active_task tid q2)
                      in (Inr \<lparr>ro_disposition = disp, ro_state = te_state e',
                               ro_rejected = is_worker_rejection r\<rparr>, q3)))"

definition record_result ::
  "call_env \<Rightarrow> TaskResult \<Rightarrow> TaskQueueInner \<Rightarrow> (queue_error + TaskState) \<times> TaskQueueInner" where
  "record_result env r q =
     (case record_result_from env (tr_worker_id r) None r q of
        (res, q') \<Rightarrow> (map_sum (\<lambda>e. e) ro_state res, q'))"

definition fail_unsendable_assignment ::
  "uuid \<Rightarrow> nat option \<Rightarrow> TaskResult \<Rightarrow> TaskQueueInner \<Rightarrow> (queue_error + ResultDisposition) \<times> TaskQueueInner" where
  "fail_unsendable_assignment w session r q =
     (let tid = tr_task_id r in
      case hm_get (tasks q) tid of
        None \<Rightarrow> (Inl (TaskNotFound tid), q)
      | Some e \<Rightarrow>
          if \<not> owned_by e w session then (Inr Stale, q)
          else let q1 = unassign w tid q in
            if is_terminal (te_state e) then (Inr Late, q1)
            else if \<not> can_transition_to (te_state e) Failed
            then (Inl (InvalidTaskState tid (state_debug (te_state e)) ''Failed''), q1)
            else (Inr Terminal,
                  track_terminal_task tid (put_entry tid
                    (e\<lparr>te_state := Failed, te_error_message := tr_error r, te_result := Some r\<rparr>) q1)))"

section \<open>Worker loss\<close>

record sweep =
  sw_queue :: TaskQueueInner
  sw_affected :: "uuid list"
  sw_delays :: "DelayedRetryKey list"
  sw_ready :: "QueueOrderKey list"
  sw_terminal :: "uuid list"

definition session_matches :: "nat option \<Rightarrow> TaskEntry \<Rightarrow> bool" where
  "session_matches session e =
     (case (session, te_assigned_session e) of
        (Some swept, Some assigned) \<Rightarrow> assigned \<le> swept
      | _ \<Rightarrow> True)"

definition evicted_error :: "string \<Rightarrow> string" where
  "evicted_error reason = ''Worker evicted ('' @ reason @ '')''"

definition exhausted_error :: "call_env \<Rightarrow> nat \<Rightarrow> nat \<Rightarrow> uuid \<Rightarrow> string \<Rightarrow> string" where
  "exhausted_error env cap used w reason =
     ''Task execution failed: maximum retry limit ('' @ show_nat cap
     @ '') reached after worker eviction (Worker disconnected and retries exhausted ('' @ show_nat used
     @ ''/'' @ show_nat cap @ ''), last failure on worker '' @ ce_fmt_id env w @ '': '' @ reason @ '')''"

definition failover_entry :: "call_env \<Rightarrow> uuid \<Rightarrow> string \<Rightarrow> TaskEntry \<Rightarrow> TaskEntry" where
  "failover_entry env w reason e =
     e\<lparr>te_retry_count := te_retry_count e + 1,
       te_failover_count := te_failover_count e + 1,
       te_assigned_worker_id := None, te_assigned_session := None,
       te_retry_history := te_retry_history e @
         [\<lparr>ra_attempt = te_retry_count e + 1, ra_timestamp_utc = ce_epoch env,
           ra_failed_worker_id = Some w, ra_reason = reason, ra_exit_code = None,
           ra_error = Some (evicted_error reason)\<rparr>]\<rparr>"

definition exhausted_entry :: "call_env \<Rightarrow> nat \<Rightarrow> uuid \<Rightarrow> string \<Rightarrow> TaskEntry \<Rightarrow> uuid \<Rightarrow> TaskEntry" where
  "exhausted_entry env cap w reason e tid =
     (let used = (if req_max_retries (t_requirements (te_task e)) \<noteq> None
                  then te_retry_count e else te_failover_count e);
          msg = exhausted_error env cap used w reason
      in e\<lparr>te_state := Failed, te_assigned_worker_id := None, te_assigned_session := None,
           te_error_message := Some msg,
           te_result := Some (result_failure w tid 1 [] [] 0 (Some msg))\<rparr>)"

definition sweep_task ::
  "call_env \<Rightarrow> RetryPolicy \<Rightarrow> uuid \<Rightarrow> nat option \<Rightarrow> string \<Rightarrow> bool \<Rightarrow> uuid \<Rightarrow> sweep \<Rightarrow> sweep" where
  "sweep_task env p w session reason immediate tid s =
     (case hm_get (tasks (sw_queue s)) tid of
        None \<Rightarrow> s
      | Some e \<Rightarrow>
          if \<not> is_active (te_state e) \<or> te_assigned_worker_id e \<noteq> Some w \<or> \<not> session_matches session e
          then s
          else let q1 = unassign w tid (sw_queue s); s1 = s\<lparr>sw_affected := sw_affected s @ [tid]\<rparr>
               in case failover_budget p e of
                    (budget_left, cap) \<Rightarrow>
                      if rp_retry_on_worker_disconnect p \<and> budget_left then
                        let e1 = failover_entry env w reason e;
                            delay_ms = (if immediate then 0 else calculate_backoff p (te_failover_count e1))
                        in if delay_ms = 0 then
                             let e2 = e1\<lparr>te_state := Queued, te_scheduled_instant := None,
                                         te_started_instant := None, te_retry_after_instant := None\<rparr>
                             in s1\<lparr>sw_queue := put_entry tid e2 q1, sw_ready := sw_ready s @ [order_key e tid]\<rparr>
                           else
                             let retry_after = ce_now env + millis delay_ms;
                                 e2 = e1\<lparr>te_state := Retrying, te_retry_after_instant := Some retry_after\<rparr>
                             in s1\<lparr>sw_queue := put_entry tid e2 q1,
                                   sw_delays := sw_delays s @ [RetryKey retry_after tid]\<rparr>
                      else s1\<lparr>sw_queue := put_entry tid (exhausted_entry env cap w reason e tid) q1,
                              sw_terminal := sw_terminal s @ [tid]\<rparr>)"

definition swept_tasks :: "uuid \<Rightarrow> TaskQueueInner \<Rightarrow> uuid list" where
  "swept_tasks w q =
     fold (\<lambda>(tid, e) acc.
             if te_assigned_worker_id e = Some w \<and> is_active (te_state e) then hs_insert tid acc else acc)
       (tasks q) (case hm_get (worker_assignments q) w of None \<Rightarrow> [] | Some s \<Rightarrow> s)"

definition drop_empty_assignment :: "uuid \<Rightarrow> TaskQueueInner \<Rightarrow> TaskQueueInner" where
  "drop_empty_assignment w q =
     (case hm_get (worker_assignments q) w of
        Some [] \<Rightarrow> q\<lparr>worker_assignments := hm_del w (worker_assignments q)\<rparr>
      | _ \<Rightarrow> q)"

definition sweep_all ::
  "call_env \<Rightarrow> uuid \<Rightarrow> nat option \<Rightarrow> string \<Rightarrow> bool \<Rightarrow> TaskQueueInner \<Rightarrow> sweep" where
  "sweep_all env w session reason immediate q =
     fold (sweep_task env (retry_policy q) w session reason immediate)
       (ce_order env (swept_tasks w q))
       \<lparr>sw_queue = q, sw_affected = [], sw_delays = [], sw_ready = [], sw_terminal = []\<rparr>"

definition handle_session_disconnected ::
  "call_env \<Rightarrow> uuid \<Rightarrow> nat option \<Rightarrow> string \<Rightarrow> bool \<Rightarrow> TaskQueueInner \<Rightarrow> uuid list \<times> TaskQueueInner" where
  "handle_session_disconnected env w session reason immediate q =
     (let s = sweep_all env w session reason immediate q;
          q1 = drop_empty_assignment w (sw_queue s);
          q2 = fold (\<lambda>k q. update_active_task (dk_task_id k) (delayed_insert k q)) (sw_delays s) q1;
          q3 = fold (\<lambda>k q. update_active_task (qk_task_id k) (ready_insert k q)) (sw_ready s) q2;
          q4 = fold track_terminal_task (sw_terminal s) q3
      in (sw_affected s, q4))"

definition handle_worker_disconnected ::
  "call_env \<Rightarrow> uuid \<Rightarrow> string \<Rightarrow> bool \<Rightarrow> TaskQueueInner \<Rightarrow> uuid list \<times> TaskQueueInner" where
  "handle_worker_disconnected env w reason immediate q =
     handle_session_disconnected env w None reason immediate q"

section \<open>Backoff\<close>

fun due_retries :: "nat \<Rightarrow> DelayedRetryKey list \<Rightarrow> uuid list \<times> DelayedRetryKey list" where
  "due_retries now [] = ([], [])"
| "due_retries now (k # ks) =
     (if dk_retry_after k \<le> now
      then (case due_retries now ks of (due, rest) \<Rightarrow> (dk_task_id k # due, rest))
      else ([], k # ks))"

definition promote_retry :: "uuid \<Rightarrow> TaskQueueInner \<Rightarrow> TaskQueueInner" where
  "promote_retry tid q =
     (case hm_get (tasks q) tid of
        None \<Rightarrow> q
      | Some e \<Rightarrow>
          if te_state e = Retrying
          then ready_insert (order_key e tid)
                 (put_entry tid (e\<lparr>te_state := Queued, te_retry_after_instant := None\<rparr>) q)
          else q)"

definition process_delayed_retries :: "call_env \<Rightarrow> TaskQueueInner \<Rightarrow> nat \<times> TaskQueueInner" where
  "process_delayed_retries env q =
     (case due_retries (ce_now env) (delayed_retries q) of
        (due, rest) \<Rightarrow> (length due, fold promote_retry due (q\<lparr>delayed_retries := rest\<rparr>)))"

section \<open>Cancellation\<close>

record CancelOutcome =
  co_newly_cancelled :: bool
  co_worker_to_notify :: "uuid option"
  co_result :: "TaskResult option"

definition cancel_reason :: "string option \<Rightarrow> string option" where
  "cancel_reason reason = (case reason of Some m \<Rightarrow> Some m | None \<Rightarrow> Some ''Cancelled by user'')"

definition unindex_cancelled :: "uuid \<Rightarrow> TaskEntry \<Rightarrow> TaskQueueInner \<Rightarrow> uuid option \<times> TaskQueueInner" where
  "unindex_cancelled tid e q =
     (case te_state e of
        Queued \<Rightarrow> (None, ready_remove (order_key e tid) q)
      | Retrying \<Rightarrow>
          (None, case te_retry_after_instant e of
                   Some after \<Rightarrow> delayed_remove (RetryKey after tid) q
                 | None \<Rightarrow> q)
      | Scheduled \<Rightarrow>
          (te_assigned_worker_id e,
           case te_assigned_worker_id e of Some w \<Rightarrow> unassign w tid q | None \<Rightarrow> q)
      | Running \<Rightarrow>
          (te_assigned_worker_id e,
           case te_assigned_worker_id e of Some w \<Rightarrow> unassign w tid q | None \<Rightarrow> q)
      | _ \<Rightarrow> (None, q))"

definition cancelled_entry :: "uuid \<Rightarrow> string option \<Rightarrow> TaskEntry \<Rightarrow> TaskEntry" where
  "cancelled_entry tid reason e =
     (let r = result_failure (case te_assigned_worker_id e of Some w \<Rightarrow> w | None \<Rightarrow> 0) tid 130 [] [] 0
                (cancel_reason reason)
      in e\<lparr>te_state := Cancelled, te_error_message := cancel_reason reason,
           te_result := (case te_result e of None \<Rightarrow> Some r | Some old \<Rightarrow> Some old)\<rparr>)"

definition cancel_task_detailed ::
  "uuid \<Rightarrow> string option \<Rightarrow> TaskQueueInner \<Rightarrow> (queue_error + CancelOutcome) \<times> TaskQueueInner" where
  "cancel_task_detailed tid reason q =
     (case hm_get (tasks q) tid of
        None \<Rightarrow> (Inl (TaskNotFound tid), q)
      | Some e \<Rightarrow>
          if is_terminal (te_state e)
          then (Inr \<lparr>co_newly_cancelled = False, co_worker_to_notify = None, co_result = te_result e\<rparr>, q)
          else (case unindex_cancelled tid e q of
                  (notify, q1) \<Rightarrow>
                    let e' = cancelled_entry tid reason e
                    in (Inr \<lparr>co_newly_cancelled = True, co_worker_to_notify = notify,
                             co_result = te_result e'\<rparr>,
                        track_terminal_task tid (put_entry tid e' q1))))"

definition cancel_task ::
  "uuid \<Rightarrow> string option \<Rightarrow> TaskQueueInner \<Rightarrow> (queue_error + uuid option) \<times> TaskQueueInner" where
  "cancel_task tid reason q =
     (case cancel_task_detailed tid reason q of
        (r, q') \<Rightarrow> (map_sum (\<lambda>e. e) co_worker_to_notify r, q'))"

section \<open>Queries and limits\<close>

definition get_task :: "uuid \<Rightarrow> TaskQueueInner \<Rightarrow> TaskInfo option" where
  "get_task tid q = map_option to_info (hm_get (tasks q) tid)"

definition get_task_spec :: "uuid \<Rightarrow> TaskQueueInner \<Rightarrow> Task option" where
  "get_task_spec tid q = map_option te_task (hm_get (tasks q) tid)"

definition get_state :: "uuid \<Rightarrow> TaskQueueInner \<Rightarrow> TaskState option" where
  "get_state tid q = map_option te_state (hm_get (tasks q) tid)"

definition get_result :: "uuid \<Rightarrow> TaskQueueInner \<Rightarrow> TaskResult option" where
  "get_result tid q = (case hm_get (tasks q) tid of None \<Rightarrow> None | Some e \<Rightarrow> te_result e)"

definition list_tasks :: "TaskQueueInner \<Rightarrow> TaskInfo list" where
  "list_tasks q = map (to_info \<circ> snd) (tasks q)"

text \<open>
  \<open>select\<close> is the partial selection of the standard library: it permutes its argument so that
  the element at the given index is the one a full sort would put there, with nothing later
  before it and nothing earlier behind it.
\<close>

definition newest_first :: "TaskEntry list \<Rightarrow> TaskEntry list" where
  "newest_first es = rev (sort_key te_sequence es)"

definition recent_tasks ::
  "(nat \<Rightarrow> TaskEntry list \<Rightarrow> TaskEntry list) \<Rightarrow> (TaskEntry \<Rightarrow> bool) \<Rightarrow> nat \<Rightarrow> nat \<Rightarrow> TaskQueueInner \<Rightarrow> TaskInfo list" where
  "recent_tasks select accept offset n q =
     (let matching = filter accept (map snd (tasks q));
          wanted = sat_add offset n;
          kept = (if wanted < length matching \<and> 0 < wanted
                  then take wanted (select (wanted - 1) matching) else matching)
      in map to_info (take n (drop offset (newest_first kept))))"

definition count_state :: "TaskState \<Rightarrow> TaskQueueInner \<Rightarrow> nat" where
  "count_state st q = hm_count (\<lambda>e. te_state e = st) (tasks q)"

definition count_entry :: "TaskEntry \<Rightarrow> QueueStats \<Rightarrow> QueueStats" where
  "count_entry e s =
     (case te_state e of
        Submitted \<Rightarrow> s
      | Queued \<Rightarrow> s\<lparr>qs_queued := qs_queued s + 1\<rparr>
      | Scheduled \<Rightarrow> s\<lparr>qs_scheduled := qs_scheduled s + 1\<rparr>
      | Running \<Rightarrow> s\<lparr>qs_running := qs_running s + 1\<rparr>
      | Retrying \<Rightarrow> s\<lparr>qs_retrying := qs_retrying s + 1\<rparr>
      | Completed \<Rightarrow> s\<lparr>qs_completed := qs_completed s + 1\<rparr>
      | Failed \<Rightarrow> s\<lparr>qs_failed := qs_failed s + 1\<rparr>
      | Cancelled \<Rightarrow> s\<lparr>qs_cancelled := qs_cancelled s + 1\<rparr>)"

definition stats :: "TaskQueueInner \<Rightarrow> QueueStats" where
  "stats q =
     fold count_entry (map snd (tasks q))
       \<lparr>qs_total = length (tasks q), qs_queued = 0, qs_scheduled = 0, qs_running = 0, qs_retrying = 0,
        qs_completed = 0, qs_failed = 0, qs_cancelled = 0, qs_active_bytes = active_bytes q,
        qs_max_active_bytes = max_active_bytes q\<rparr>"

definition set_max_terminal_tasks :: "nat \<Rightarrow> TaskQueueInner \<Rightarrow> TaskQueueInner" where
  "set_max_terminal_tasks n q = enforce_terminal_limits (q\<lparr>max_terminal_tasks := n\<rparr>)"

definition set_max_terminal_bytes :: "nat \<Rightarrow> TaskQueueInner \<Rightarrow> TaskQueueInner" where
  "set_max_terminal_bytes n q = enforce_terminal_limits (q\<lparr>max_terminal_bytes := n\<rparr>)"

end
