(* ===== verification/Queue_Inv.thy ===== *)
theory Queue_Inv
  imports Queue_Ops
begin

text \<open>
  The invariant of the task queue and the lemmas that carry its preservation.  The queue keeps
  five indexes beside the table of entries (the ready queue, the delayed retries, the worker
  assignments and the two byte ledgers); the invariant says that each of them is exactly what
  the entries say it should be.
\<close>

section \<open>The invariant\<close>

definition entry_ok :: "uuid \<Rightarrow> TaskEntry \<Rightarrow> bool" where
  "entry_ok tid e \<longleftrightarrow>
     t_id (te_task e) = tid \<and> te_state e \<noteq> Submitted
     \<and> (is_terminal (te_state e) \<longleftrightarrow> te_result e \<noteq> None)
     \<and> (te_error_message e \<noteq> None \<longrightarrow> is_terminal (te_state e))
     \<and> (is_active (te_state e) \<longrightarrow> te_assigned_worker_id e \<noteq> None)
     \<and> (te_state e \<in> {Queued, Retrying} \<longrightarrow> te_assigned_worker_id e = None \<and> te_assigned_session e = None)
     \<and> te_rejection_count e \<le> te_failover_count e \<and> te_failover_count e \<le> te_retry_count e
     \<and> te_rejection_count e \<le> MAX_WORKER_REJECTIONS_PER_TASK
     \<and> length (te_retry_history e) = te_retry_count e
     \<and> distinct (te_avoid_workers e) \<and> length (te_avoid_workers e) \<le> te_rejection_count e"

definition tasks_ok :: "(uuid, TaskEntry) hmap \<Rightarrow> nat \<Rightarrow> bool" where
  "tasks_ok T n \<longleftrightarrow>
     hm_wf T
     \<and> (\<forall>tid e. hm_get T tid = Some e \<longrightarrow> entry_ok tid e \<and> te_sequence e < n)
     \<and> (\<forall>i j e f. hm_get T i = Some e \<and> hm_get T j = Some f \<and> te_sequence e = te_sequence f \<longrightarrow> i = j)"

definition ready_ok :: "(uuid, TaskEntry) hmap \<Rightarrow> QueueOrderKey list \<Rightarrow> bool" where
  "ready_ok T R \<longleftrightarrow>
     bts_wf R
     \<and> (\<forall>k. k \<in> set R \<longleftrightarrow>
          (\<exists>e. hm_get T (qk_task_id k) = Some e \<and> te_state e = Queued \<and> k = order_key e (qk_task_id k)))"

text \<open>The retries in \<open>P\<close> have been taken out of the index and are about to be promoted.\<close>

definition delayed_ok :: "uuid set \<Rightarrow> (uuid, TaskEntry) hmap \<Rightarrow> DelayedRetryKey list \<Rightarrow> bool" where
  "delayed_ok P T D \<longleftrightarrow>
     bts_wf D
     \<and> (\<forall>tid e. tid \<notin> P \<and> hm_get T tid = Some e \<and> te_state e = Retrying \<longrightarrow>
          (\<exists>t. te_retry_after_instant e = Some t \<and> RetryKey t tid \<in> set D))"

definition assigned_ids :: "(uuid, uuid list) hmap \<Rightarrow> uuid \<Rightarrow> uuid set" where
  "assigned_ids A w = (case hm_get A w of None \<Rightarrow> {} | Some s \<Rightarrow> set s)"

definition assign_wf :: "(uuid, uuid list) hmap \<Rightarrow> bool" where
  "assign_wf A \<longleftrightarrow> hm_wf A \<and> (\<forall>w s. hm_get A w = Some s \<longrightarrow> distinct s)"

definition carries :: "TaskEntry \<Rightarrow> uuid \<Rightarrow> bool" where
  "carries e w \<longleftrightarrow> is_active (te_state e) \<and> te_assigned_worker_id e = Some w"

definition assign_ok :: "(uuid, TaskEntry) hmap \<Rightarrow> (uuid, uuid list) hmap \<Rightarrow> bool" where
  "assign_ok T A \<longleftrightarrow>
     assign_wf A \<and> (\<forall>w tid. tid \<in> assigned_ids A w \<longleftrightarrow> (\<exists>e. hm_get T tid = Some e \<and> carries e w))"

definition core_ok ::
  "uuid set \<Rightarrow> (uuid, TaskEntry) hmap \<Rightarrow> QueueOrderKey list \<Rightarrow> DelayedRetryKey list
     \<Rightarrow> (uuid, uuid list) hmap \<Rightarrow> nat \<Rightarrow> bool" where
  "core_ok P T R D A n \<longleftrightarrow> tasks_ok T n \<and> ready_ok T R \<and> delayed_ok P T D \<and> assign_ok T A"

text \<open>What the two ledgers should hold for a task.\<close>

definition active_charge :: "TaskEntry option \<Rightarrow> nat option" where
  "active_charge x =
     (case x of None \<Rightarrow> None | Some e \<Rightarrow> if is_terminal (te_state e) then None else Some (retained_bytes e))"

definition terminal_charge :: "TaskEntry option \<Rightarrow> nat option" where
  "terminal_charge x =
     (case x of None \<Rightarrow> None | Some e \<Rightarrow> if is_terminal (te_state e) then Some (retained_bytes e) else None)"

text \<open>The books are up to date for every task outside \<open>P\<close>; those in \<open>P\<close> are in no retention list yet.\<close>

definition books_ok :: "uuid set \<Rightarrow> TaskQueueInner \<Rightarrow> bool" where
  "books_ok P q \<longleftrightarrow>
     distinct (terminal_order q)
     \<and> (\<forall>i. i \<notin> P \<longrightarrow>
          hm_get (active_sizes q) i = active_charge (hm_get (tasks q) i)
          \<and> hm_get (terminal_sizes q) i = terminal_charge (hm_get (tasks q) i)
          \<and> (i \<in> set (terminal_order q) \<longleftrightarrow> terminal_charge (hm_get (tasks q) i) \<noteq> None))
     \<and> (\<forall>i \<in> P. hm_get (terminal_sizes q) i = None \<and> i \<notin> set (terminal_order q))"

definition sums_ok :: "TaskQueueInner \<Rightarrow> bool" where
  "sums_ok q \<longleftrightarrow> active_ledger.exact q \<and> terminal_ledger.exact q"

definition limits_ok :: "TaskQueueInner \<Rightarrow> bool" where
  "limits_ok q \<longleftrightarrow> \<not> over_count q \<and> \<not> over_bytes q"

abbreviation core :: "uuid set \<Rightarrow> TaskQueueInner \<Rightarrow> bool" where
  "core P q \<equiv> core_ok P (tasks q) (ready_queue q) (delayed_retries q) (worker_assignments q) (next_sequence q)"

definition queue_inv :: "TaskQueueInner \<Rightarrow> bool" where
  "queue_inv q \<longleftrightarrow> core {} q \<and> books_ok {} q \<and> sums_ok q \<and> limits_ok q"

section \<open>Assignment tables\<close>

lemma set_hs_insert [simp]: "set (hs_insert x s) = insert x (set s)"
  by (auto simp: hs_insert_def)

lemma set_hs_remove [simp]: "set (hs_remove x s) = set s - {x}"
  by (auto simp: hs_remove_def)

lemma distinct_hs_insert [simp]: "distinct (hs_insert x s) \<longleftrightarrow> distinct s"
  by (auto simp: hs_insert_def)

lemma distinct_hs_remove [simp]: "distinct s \<Longrightarrow> distinct (hs_remove x s)"
  by (simp add: hs_remove_def)

lemma assigned_insert:
  "assigned_ids (assign_insert w tid A) v = (if v = w then insert tid (assigned_ids A w) else assigned_ids A v)"
  by (simp add: assigned_ids_def assign_insert_def hmap_simps split: option.splits)

lemma assigned_remove:
  "assigned_ids (assign_remove w tid A) v = (if v = w then assigned_ids A w - {tid} else assigned_ids A v)"
  by (simp add: assigned_ids_def assign_remove_def hmap_simps split: option.splits)

lemma assign_wf_insert [simp]: "assign_wf A \<Longrightarrow> assign_wf (assign_insert w tid A)"
  by (auto simp: assign_wf_def assign_insert_def hmap_simps split: option.splits if_splits)

lemma assign_wf_remove [simp]: "assign_wf A \<Longrightarrow> assign_wf (assign_remove w tid A)"
  by (auto simp: assign_wf_def assign_remove_def hmap_simps split: option.splits if_splits)

section \<open>Moving one task through the indexes\<close>

lemma order_key_id [simp]: "qk_task_id (order_key e tid) = tid"
  by (simp add: order_key_def)

lemma order_key_eq:
  "order_key e tid = order_key f tid \<longleftrightarrow> te_priority e = te_priority f \<and> te_sequence e = te_sequence f"
  by (auto simp: order_key_def)

lemma ready_key_iff:
  "core_ok P T R D A n \<Longrightarrow> hm_get T tid = Some e \<Longrightarrow> order_key e tid \<in> set R \<longleftrightarrow> te_state e = Queued"
  by (auto simp: core_ok_def ready_ok_def)

lemma carried_iff:
  "core_ok P T R D A n \<Longrightarrow> hm_get T tid = Some e \<Longrightarrow> tid \<in> assigned_ids A w \<longleftrightarrow> carries e w"
  by (auto simp: core_ok_def assign_ok_def)

lemma core_entry:
  "core_ok P T R D A n \<Longrightarrow> hm_get T tid = Some e \<Longrightarrow> entry_ok tid e"
  by (auto simp: core_ok_def tasks_ok_def)

lemma core_wf:
  assumes "core_ok P T R D A n"
  shows "hm_wf T" "bts_wf R" "bts_wf D" "assign_wf A"
  using assms by (auto simp: core_ok_def tasks_ok_def ready_ok_def delayed_ok_def assign_ok_def)

lemma tasks_ok_put:
  assumes "tasks_ok T n" "hm_get T tid = Some e" "entry_ok tid e'" "te_sequence e' = te_sequence e"
  shows "tasks_ok (hm_put tid e' T) n"
  using assms unfolding tasks_ok_def by (simp add: hmap_simps) blast

lemma ready_ok_put:
  assumes "ready_ok T R" "hm_get T tid = Some e" "order_key e' tid = order_key e tid"
    and "bts_wf R'"
    and "set R' = set R - {order_key e tid} \<union> (if te_state e' = Queued then {order_key e tid} else {})"
  shows "ready_ok (hm_put tid e' T) R'"
  unfolding ready_ok_def
proof (intro conjI allI)
  fix k
  have old: "k \<in> set R \<longleftrightarrow> (\<exists>e. hm_get T (qk_task_id k) = Some e \<and> te_state e = Queued \<and> k = order_key e (qk_task_id k))"
    using assms(1) by (simp add: ready_ok_def)
  show "k \<in> set R' \<longleftrightarrow> (\<exists>f. hm_get (hm_put tid e' T) (qk_task_id k) = Some f \<and> te_state f = Queued \<and> k = order_key f (qk_task_id k))"
  proof (cases "qk_task_id k = tid")
    case True
    then have "k \<in> set R \<Longrightarrow> k = order_key e tid" using old assms(2) by auto
    then show ?thesis using True assms(3,5) by (auto simp: hmap_simps)
  next
    case False
    then have "k \<noteq> order_key e tid" by auto
    then show ?thesis using False old assms(5) by (auto simp: hmap_simps)
  qed
qed (rule assms(4))

lemma delayed_ok_put:
  assumes "delayed_ok P T D" "bts_wf D'" "{k \<in> set D. dk_task_id k \<noteq> tid} \<subseteq> set D'"
    and "te_state e' = Retrying \<Longrightarrow> \<exists>t. te_retry_after_instant e' = Some t \<and> RetryKey t tid \<in> set D'"
    and "P - {tid} \<subseteq> P'"
  shows "delayed_ok P' (hm_put tid e' T) D'"
  unfolding delayed_ok_def
proof (intro conjI allI impI)
  fix i f assume f: "i \<notin> P' \<and> hm_get (hm_put tid e' T) i = Some f \<and> te_state f = Retrying"
  show "\<exists>t. te_retry_after_instant f = Some t \<and> RetryKey t i \<in> set D'"
  proof (cases "i = tid")
    case True
    with f assms(4) show ?thesis by (simp add: hmap_simps)
  next
    case False
    then have "i \<notin> P" "hm_get T i = Some f" using f assms(5) by (auto simp: hmap_simps)
    then obtain t where "te_retry_after_instant f = Some t" "RetryKey t i \<in> set D"
      using f assms(1) by (auto simp: delayed_ok_def)
    with False assms(3) show ?thesis by auto
  qed
qed (rule assms(2))

lemma assign_ok_put:
  assumes "assign_ok T A" "assign_wf A'"
    and "\<And>w. assigned_ids A' w = assigned_ids A w - {tid} \<union> (if carries e' w then {tid} else {})"
  shows "assign_ok (hm_put tid e' T) A'"
  using assms by (auto simp: assign_ok_def hmap_simps)

lemma core_move:
  assumes "core_ok P T R D A n" "hm_get T tid = Some e" "entry_ok tid e'"
    and "te_priority e' = te_priority e" "te_sequence e' = te_sequence e"
    and "bts_wf R'" "set R' = set R - {order_key e tid} \<union> (if te_state e' = Queued then {order_key e tid} else {})"
    and "bts_wf D'" "{k \<in> set D. dk_task_id k \<noteq> tid} \<subseteq> set D'"
    and "te_state e' = Retrying \<Longrightarrow> \<exists>t. te_retry_after_instant e' = Some t \<and> RetryKey t tid \<in> set D'"
    and "P - {tid} \<subseteq> P'"
    and "assign_wf A'"
    and "\<And>w. assigned_ids A' w = assigned_ids A w - {tid} \<union> (if carries e' w then {tid} else {})"
  shows "core_ok P' (hm_put tid e' T) R' D' A' n"
proof -
  note ok = assms(1) [unfolded core_ok_def]
  have "tasks_ok (hm_put tid e' T) n" using ok assms(2,3,5) by (blast intro: tasks_ok_put)
  moreover have "ready_ok (hm_put tid e' T) R'"
    using ok assms(2,4,5) assms(6,7) by (intro ready_ok_put [of T R tid e e' R']) (simp_all add: order_key_eq)
  moreover have "delayed_ok P' (hm_put tid e' T) D'"
    using ok assms(8-11) by (intro delayed_ok_put [of P T D D' tid e' P']) simp_all
  moreover have "assign_ok (hm_put tid e' T) A'"
    using ok assms(12,13) by (intro assign_ok_put [of T A A' tid e']) simp_all
  ultimately show ?thesis by (simp add: core_ok_def)
qed

lemma core_add:
  assumes "core_ok P T R D A n" "hm_get T tid = None" "entry_ok tid e" "te_state e = Queued" "te_sequence e = n"
  shows "core_ok P (hm_put tid e T) (bts_insert (order_key e tid) R) D A (n + 1)"
proof -
  note ok = assms(1) [unfolded core_ok_def]
  have "tasks_ok (hm_put tid e T) (n + 1)"
    using ok assms unfolding tasks_ok_def by (auto simp: hmap_simps) fastforce+
  moreover have "ready_ok (hm_put tid e T) (bts_insert (order_key e tid) R)"
    unfolding ready_ok_def
  proof (intro conjI allI)
    fix k
    have old: "k \<in> set R \<longleftrightarrow> (\<exists>e. hm_get T (qk_task_id k) = Some e \<and> te_state e = Queued \<and> k = order_key e (qk_task_id k))"
      using ok by (simp add: ready_ok_def)
    show "k \<in> set (bts_insert (order_key e tid) R) \<longleftrightarrow>
      (\<exists>f. hm_get (hm_put tid e T) (qk_task_id k) = Some f \<and> te_state f = Queued \<and> k = order_key f (qk_task_id k))"
      using old assms(2,4) by (cases "qk_task_id k = tid") (auto simp: hmap_simps bts_simps)
  qed (use ok in \<open>simp add: ready_ok_def\<close>)
  moreover have "delayed_ok P (hm_put tid e T) D"
    using ok assms(4) by (auto simp: delayed_ok_def hmap_simps)
  moreover have "assign_ok (hm_put tid e T) A"
    using ok assms(2,4) by (auto simp: assign_ok_def hmap_simps carries_def)
  ultimately show ?thesis by (simp add: core_ok_def)
qed

lemma core_evict:
  assumes "core_ok P T R D A n" "hm_get T tid = Some e" "is_terminal (te_state e)"
  shows "core_ok P (hm_del tid T) R D A n"
proof -
  note ok = assms(1) [unfolded core_ok_def]
  have "tasks_ok (hm_del tid T) n"
    using ok unfolding tasks_ok_def by (auto simp: hmap_simps)
  moreover have "ready_ok (hm_del tid T) R"
    using ok assms(2,3) by (auto simp: ready_ok_def hmap_simps)
  moreover have "delayed_ok P (hm_del tid T) D"
    using ok by (auto simp: delayed_ok_def hmap_simps)
  moreover have "assign_ok (hm_del tid T) A"
    using ok assms(2,3) by (auto simp: assign_ok_def hmap_simps carries_def state_fsm.active_not_terminal)
  ultimately show ?thesis by (simp add: core_ok_def)
qed

section \<open>The books\<close>

definition mem_bytes :: "(uuid, TaskEntry) hmap \<Rightarrow> nat" where
  "mem_bytes T = hm_total (hm_map retained_bytes T)"

text \<open>The payloads of the tasks in memory fit the address space.\<close>

definition fits :: "TaskQueueInner \<Rightarrow> bool" where
  "fits q \<longleftrightarrow> mem_bytes (tasks q) \<le> usize_max"

definition stale_le :: "uuid set \<Rightarrow> TaskQueueInner \<Rightarrow> bool" where
  "stale_le P q \<longleftrightarrow>
     (\<forall>i \<in> P. \<forall>n. hm_get (active_sizes q) i = Some n \<longrightarrow>
        (\<exists>e. hm_get (tasks q) i = Some e \<and> n \<le> retained_bytes e))"

lemma charge_active_other [simp]:
  "tasks (charge_active tid n q) = tasks q"
  "ready_queue (charge_active tid n q) = ready_queue q"
  "delayed_retries (charge_active tid n q) = delayed_retries q"
  "worker_assignments (charge_active tid n q) = worker_assignments q"
  "next_sequence (charge_active tid n q) = next_sequence q"
  "retry_policy (charge_active tid n q) = retry_policy q"
  "capacity (charge_active tid n q) = capacity q"
  "max_terminal_tasks (charge_active tid n q) = max_terminal_tasks q"
  "max_terminal_bytes (charge_active tid n q) = max_terminal_bytes q"
  "max_active_bytes (charge_active tid n q) = max_active_bytes q"
  "terminal_order (charge_active tid n q) = terminal_order q"
  "terminal_sizes (charge_active tid n q) = terminal_sizes q"
  "terminal_bytes (charge_active tid n q) = terminal_bytes q"
  by (simp_all add: charge_active_def)

lemma update_active_other [simp]:
  "tasks (update_active_task tid q) = tasks q"
  "ready_queue (update_active_task tid q) = ready_queue q"
  "delayed_retries (update_active_task tid q) = delayed_retries q"
  "worker_assignments (update_active_task tid q) = worker_assignments q"
  "next_sequence (update_active_task tid q) = next_sequence q"
  "retry_policy (update_active_task tid q) = retry_policy q"
  "capacity (update_active_task tid q) = capacity q"
  "max_terminal_tasks (update_active_task tid q) = max_terminal_tasks q"
  "max_terminal_bytes (update_active_task tid q) = max_terminal_bytes q"
  "max_active_bytes (update_active_task tid q) = max_active_bytes q"
  "terminal_order (update_active_task tid q) = terminal_order q"
  "terminal_sizes (update_active_task tid q) = terminal_sizes q"
  "terminal_bytes (update_active_task tid q) = terminal_bytes q"
  by (simp_all add: update_active_task_def Let_def split: option.splits)

lemma active_sizes_update:
  "hm_get (active_sizes (update_active_task tid q)) i =
     (if i = tid then active_charge (hm_get (tasks q) tid) else hm_get (active_sizes q) i)"
  by (simp add: update_active_task_def Let_def active_charge_def active_ledger.sizes_charge
      active_ledger.sizes_discharge hmap_simps split: option.splits)

lemma books_update:
  assumes "books_ok P q" "hm_get (tasks q) tid = Some e" "\<not> is_terminal (te_state e)"
  shows "books_ok (P - {tid}) (update_active_task tid q)"
  using assms by (auto simp: books_ok_def active_sizes_update terminal_charge_def)

lemma active_sizes_le_mem:
  assumes "books_ok P q" "stale_le P q" "hm_get (active_sizes q) i = Some n"
  shows "\<exists>m. hm_get (hm_map retained_bytes (tasks q)) i = Some m \<and> n \<le> m"
proof (cases "i \<in> P")
  case True
  with assms(2,3) obtain e where "hm_get (tasks q) i = Some e" "n \<le> retained_bytes e"
    by (auto simp: stale_le_def)
  then show ?thesis by (simp add: hm_get_map)
next
  case False
  with assms(1,3) have "active_charge (hm_get (tasks q) i) = Some n" by (simp add: books_ok_def)
  then show ?thesis by (auto simp: active_charge_def hm_get_map split: option.splits if_splits)
qed

lemma sums_update:
  assumes "sums_ok q" "books_ok P q" "stale_le (P - {tid}) q" "hm_wf (tasks q)" "fits q"
    and "hm_get (tasks q) tid = Some e" "\<not> is_terminal (te_state e)"
  shows "sums_ok (update_active_task tid q)"
proof -
  let ?u = "untrack_active_task tid q"
  have u: "active_ledger.exact ?u" using assms(1) by (simp add: sums_ok_def active_ledger.exact_discharge)
  have upd: "update_active_task tid q = charge_active tid (retained_bytes e) ?u"
    using assms(6,7) by (simp add: update_active_task_def)
  have "hm_total (active_sizes (update_active_task tid q)) \<le> mem_bytes (tasks q)"
    unfolding mem_bytes_def
  proof (rule hm_total_mono)
    show "hm_wf (active_sizes (update_active_task tid q))"
      using u by (simp add: upd active_ledger.sizes_charge active_ledger.exact_def)
    have b: "books_ok (P - {tid}) (update_active_task tid q)"
      using assms(2,6,7) by (rule books_update)
    have s: "stale_le (P - {tid}) (update_active_task tid q)"
      using assms(3) by (auto simp: stale_le_def active_sizes_update)
    fix i n assume "hm_get (active_sizes (update_active_task tid q)) i = Some n"
    with active_sizes_le_mem [OF b s] show "\<exists>m. hm_get (hm_map retained_bytes (tasks q)) i = Some m \<and> n \<le> m"
      by simp
  qed (use assms(4) in simp)
  moreover have "hm_total (active_sizes (update_active_task tid q)) = active_bytes ?u + retained_bytes e"
    using u by (simp add: upd active_ledger.sizes_charge active_ledger.exact_def hm_total_put_absent
        active_ledger.discharge_absent)
  ultimately have "active_bytes ?u + retained_bytes e \<le> usize_max"
    using assms(5) by (simp add: fits_def)
  with u have "active_ledger.exact (update_active_task tid q)"
    unfolding upd by (intro active_ledger.exact_charge active_ledger.discharge_absent)
  with assms(1) show ?thesis
    by (simp add: sums_ok_def terminal_ledger.exact_def)
qed

section \<open>Eviction\<close>

text \<open>What eviction may do to a queue: forget finished tasks, nothing else.\<close>

definition forgets :: "(uuid, TaskEntry) hmap \<Rightarrow> (uuid, TaskEntry) hmap \<Rightarrow> bool" where
  "forgets T T' \<longleftrightarrow>
     (\<forall>i. hm_get T' i = hm_get T i
        \<or> hm_get T' i = None \<and> (\<exists>e. hm_get T i = Some e \<and> is_terminal (te_state e)))"

definition evicted :: "TaskQueueInner \<Rightarrow> TaskQueueInner \<Rightarrow> bool" where
  "evicted q q' \<longleftrightarrow>
     ready_queue q' = ready_queue q \<and> delayed_retries q' = delayed_retries q
     \<and> worker_assignments q' = worker_assignments q \<and> next_sequence q' = next_sequence q
     \<and> retry_policy q' = retry_policy q \<and> capacity q' = capacity q
     \<and> max_terminal_tasks q' = max_terminal_tasks q \<and> max_terminal_bytes q' = max_terminal_bytes q
     \<and> max_active_bytes q' = max_active_bytes q \<and> forgets (tasks q) (tasks q')"

lemma forgets_trans:
  assumes "forgets T U" "forgets U V"
  shows "forgets T V"
  unfolding forgets_def
proof
  fix i
  show "hm_get V i = hm_get T i \<or> hm_get V i = None \<and> (\<exists>e. hm_get T i = Some e \<and> is_terminal (te_state e))"
    using assms [unfolded forgets_def, THEN spec, of i] by (cases "hm_get T i") auto
qed

lemma evicted_refl [simp]: "evicted q q"
  by (simp add: evicted_def forgets_def)

lemma evicted_trans: "evicted q r \<Longrightarrow> evicted r s \<Longrightarrow> evicted q s"
  by (auto simp: evicted_def intro: forgets_trans)

text \<open>Everything the eviction loops preserve.\<close>

definition evict_ok :: "uuid set \<Rightarrow> uuid set \<Rightarrow> TaskQueueInner \<Rightarrow> TaskQueueInner \<Rightarrow> bool" where
  "evict_ok P B q0 q \<longleftrightarrow>
     core P q \<and> books_ok B q \<and> sums_ok q \<and> evicted q0 q \<and> stale_le B q
     \<and> (\<forall>i \<in> B. hm_get (tasks q) i = hm_get (tasks q0) i)"

lemma evict_oldest_eq:
  assumes "books_ok B q" "terminal_order q = x # rest"
  obtains e where "hm_get (tasks q) x = Some e" "is_terminal (te_state e)" "x \<notin> B"
    "evict_oldest_terminal q = (True, remove_retained x (q\<lparr>terminal_order := rest\<rparr>))"
proof -
  have x: "x \<in> set (terminal_order q)" using assms(2) by simp
  then have "x \<notin> B" using assms(1) by (auto simp: books_ok_def)
  with x assms(1) have "terminal_charge (hm_get (tasks q) x) \<noteq> None" by (simp add: books_ok_def)
  then obtain e where e: "hm_get (tasks q) x = Some e" "is_terminal (te_state e)"
    by (auto simp: terminal_charge_def split: option.splits if_splits)
  with assms(2) have "evict_oldest_terminal q = (True, remove_retained x (q\<lparr>terminal_order := rest\<rparr>))"
    by (simp add: evict_oldest_terminal_def)
  with e \<open>x \<notin> B\<close> that show ?thesis by blast
qed

lemma evict_oldest_ok:
  assumes "evict_ok P B q0 q" "terminal_order q = x # rest"
  shows "evict_ok P B q0 (snd (evict_oldest_terminal q))"
proof -
  have ok: "core P q" "books_ok B q" "sums_ok q" "evicted q0 q" "stale_le B q"
    and kept: "\<forall>i \<in> B. hm_get (tasks q) i = hm_get (tasks q0) i"
    using assms(1) by (simp_all add: evict_ok_def)
  obtain e where e: "hm_get (tasks q) x = Some e" "is_terminal (te_state e)" "x \<notin> B"
    and ev: "evict_oldest_terminal q = (True, remove_retained x (q\<lparr>terminal_order := rest\<rparr>))"
    using evict_oldest_eq [OF ok(2) assms(2)] .
  let ?q = "remove_retained x (q\<lparr>terminal_order := rest\<rparr>)"
  have sizes: "hm_get (active_sizes ?q) i = (if i = x then None else hm_get (active_sizes q) i)"
    "hm_get (terminal_sizes ?q) i = (if i = x then None else hm_get (terminal_sizes q) i)" for i
    by (simp_all add: remove_retained_def active_ledger.sizes_discharge terminal_ledger.sizes_discharge hmap_simps)
  have "core P ?q" using core_evict [OF ok(1) e(1,2)] by simp
  moreover have "books_ok B ?q"
    using ok(2) assms(2) e(3) by (auto simp: books_ok_def sizes hmap_simps active_charge_def terminal_charge_def)
  moreover have "sums_ok ?q"
  proof -
    let ?r = "q\<lparr>terminal_order := rest, tasks := hm_del x (tasks q)\<rparr>"
    have "active_ledger.exact ?r" "terminal_ledger.exact ?r"
      using ok(3) by (simp_all add: sums_ok_def active_ledger.exact_def terminal_ledger.exact_def)
    then have "active_ledger.exact (untrack_active_task x ?r)" "terminal_ledger.exact (untrack_active_task x ?r)"
      by (simp_all add: active_ledger.exact_discharge terminal_ledger.exact_def)
    then show ?thesis
      by (simp add: sums_ok_def remove_retained_def terminal_ledger.exact_discharge active_ledger.exact_def)
  qed
  moreover have "evicted q ?q" using e by (simp add: evicted_def forgets_def hmap_simps)
  then have "evicted q0 ?q" using ok(4) by (blast intro: evicted_trans)
  moreover have "stale_le B ?q" using ok(5) e(3) by (auto simp: stale_le_def sizes hmap_simps)
  moreover have "\<forall>i \<in> B. hm_get (tasks ?q) i = hm_get (tasks q0) i" using kept e(3) by (auto simp: hmap_simps)
  ultimately show ?thesis by (simp add: evict_ok_def ev)
qed

lemma evict_while_rule:
  assumes "I q" and "\<And>q x rest. I q \<Longrightarrow> terminal_order q = x # rest \<Longrightarrow> I (snd (evict_oldest_terminal q))"
  shows "I (evict_while over q)"
  using assms(1)
proof (induction over q rule: evict_while.induct)
  case (1 over q)
  show ?case
  proof (cases "terminal_order q")
    case Nil
    then have "evict_while over q = q"
      by (subst evict_while.simps) (simp add: evict_oldest_terminal_def)
    with 1 show ?thesis by simp
  next
    case (Cons x rest)
    obtain ok q' where ev: "evict_oldest_terminal q = (ok, q')" by fastforce
    with Cons have ok: ok by (simp add: evict_oldest_terminal_def Let_def)
    have q': "I q'" using assms(2) [OF "1.prems" Cons] ev by simp
    show ?thesis
    proof (cases "over q")
      case True
      have "I (evict_while over q')" using "1.IH" [OF True ev [symmetric] ok q'] .
      with True ev ok show ?thesis by (subst evict_while.simps) simp
    next
      case False
      with "1.prems" show ?thesis by (subst evict_while.simps) simp
    qed
  qed
qed

lemma evict_while_done:
  assumes "\<And>q. over q \<Longrightarrow> terminal_order q \<noteq> []"
  shows "\<not> over (evict_while over q)"
  using assms
proof (induction over q rule: evict_while.induct)
  case (1 over q)
  show ?case
  proof (cases "over q")
    case True
    obtain ok q' where ev: "evict_oldest_terminal q = (ok, q')" by fastforce
    have ok: ok
      using "1.prems" [OF True] ev by (auto simp: evict_oldest_terminal_def Let_def split: list.splits)
    have "\<not> over (evict_while over q')" using "1.IH" [OF True ev [symmetric] ok "1.prems"] .
    with True ev ok show ?thesis by (subst evict_while.simps) simp
  next
    case False
    then show ?thesis by (subst evict_while.simps) simp
  qed
qed

lemma over_count_ne: "over_count q \<Longrightarrow> terminal_order q \<noteq> []"
  by (auto simp: over_count_def)

lemma over_bytes_ne: "over_bytes q \<Longrightarrow> terminal_order q \<noteq> []"
  by (auto simp: over_bytes_def)

lemmas evict_while_ok = evict_while_rule [where I = "evict_ok P B q0" for P B q0, OF _ evict_oldest_ok]

lemma enforce_ok: "evict_ok P B q0 q \<Longrightarrow> evict_ok P B q0 (enforce_terminal_limits q)"
  by (simp add: enforce_terminal_limits_def evict_while_ok)

lemma enforce_limits:
  assumes "evict_ok P B q0 q"
  shows "limits_ok (enforce_terminal_limits q)"
proof -
  let ?q = "evict_while over_count q"
  have "evict_ok P B q0 ?q" using assms by (rule evict_while_ok)
  moreover have "\<not> over_count ?q" by (rule evict_while_done) (rule over_count_ne)
  ultimately have start: "evict_ok P B q0 ?q \<and> \<not> over_count ?q" by blast
  have "evict_ok P B q0 (evict_while over_bytes ?q) \<and> \<not> over_count (evict_while over_bytes ?q)"
  proof (rule evict_while_rule [where I = "\<lambda>q. evict_ok P B q0 q \<and> \<not> over_count q", OF start])
    fix q x rest assume q: "evict_ok P B q0 q \<and> \<not> over_count q" and ord: "terminal_order q = x # rest"
    have "books_ok B q" using q by (simp add: evict_ok_def)
    then obtain e where "evict_oldest_terminal q = (True, remove_retained x (q\<lparr>terminal_order := rest\<rparr>))"
      using ord by (rule evict_oldest_eq)
    then have "\<not> over_count (snd (evict_oldest_terminal q))"
      using q ord by (simp add: over_count_def)
    with q ord show "evict_ok P B q0 (snd (evict_oldest_terminal q)) \<and> \<not> over_count (snd (evict_oldest_terminal q))"
      by (blast intro: evict_oldest_ok)
  qed
  then show ?thesis
    using evict_while_done [of over_bytes ?q] over_bytes_ne by (simp add: limits_ok_def enforce_terminal_limits_def)
qed

text \<open>Entering a finished task into the retention list.\<close>

lemma charge_terminal_other [simp]:
  "tasks (charge_terminal tid n q) = tasks q"
  "ready_queue (charge_terminal tid n q) = ready_queue q"
  "delayed_retries (charge_terminal tid n q) = delayed_retries q"
  "worker_assignments (charge_terminal tid n q) = worker_assignments q"
  "next_sequence (charge_terminal tid n q) = next_sequence q"
  "retry_policy (charge_terminal tid n q) = retry_policy q"
  "capacity (charge_terminal tid n q) = capacity q"
  "max_terminal_tasks (charge_terminal tid n q) = max_terminal_tasks q"
  "max_terminal_bytes (charge_terminal tid n q) = max_terminal_bytes q"
  "max_active_bytes (charge_terminal tid n q) = max_active_bytes q"
  "terminal_order (charge_terminal tid n q) = terminal_order q"
  "active_sizes (charge_terminal tid n q) = active_sizes q"
  "active_bytes (charge_terminal tid n q) = active_bytes q"
  by (simp_all add: charge_terminal_def)

lemma track_terminal_ok:
  assumes "core P q" "books_ok B q" "sums_ok q" "stale_le (B - {tid}) q" "tid \<in> B"
    and "hm_get (tasks q) tid = Some e" "is_terminal (te_state e)"
  shows "evict_ok P (B - {tid}) q (track_terminal_task tid q)" and "limits_ok (track_terminal_task tid q)"
proof -
  let ?u = "untrack_active_task tid q"
  let ?c = "charge_terminal tid (retained_bytes e) ?u"
  let ?q = "?c\<lparr>terminal_order := terminal_order ?c @ [tid]\<rparr>"
  have none: "hm_get (terminal_sizes ?u) tid = None"
    using assms(2,5) by (simp add: books_ok_def)
  have track: "track_terminal_task tid q = enforce_terminal_limits ?q"
    using none assms(6) by (simp add: track_terminal_task_def)
  have sizes: "hm_get (active_sizes ?u) i = (if i = tid then None else hm_get (active_sizes q) i)"
    "hm_get (terminal_sizes ?c) i = (if i = tid then Some (retained_bytes e) else hm_get (terminal_sizes q) i)" for i
    by (simp_all add: active_ledger.sizes_discharge terminal_ledger.sizes_charge hmap_simps)
  have "active_ledger.exact ?u" "terminal_ledger.exact ?u"
    using assms(3) by (simp_all add: sums_ok_def active_ledger.exact_discharge terminal_ledger.exact_def)
  moreover from this none have "terminal_ledger.exact ?c" by (intro terminal_ledger.exact_charge) simp_all
  ultimately have "sums_ok ?q"
    by (simp add: sums_ok_def active_ledger.exact_def terminal_ledger.exact_def)
  moreover have "books_ok (B - {tid}) ?q"
    using assms(2,5,6,7) by (auto simp: books_ok_def sizes active_charge_def terminal_charge_def)
  moreover have "core P ?q" using assms(1) by simp
  moreover have "evicted q ?q" by (simp add: evicted_def forgets_def)
  moreover have "stale_le (B - {tid}) ?q" using assms(4) by (auto simp: stale_le_def sizes)
  ultimately have ok: "evict_ok P (B - {tid}) q ?q" by (simp add: evict_ok_def)
  show "evict_ok P (B - {tid}) q (track_terminal_task tid q)"
    unfolding track by (rule enforce_ok [OF ok])
  show "limits_ok (track_terminal_task tid q)"
    unfolding track by (rule enforce_limits [OF ok])
qed

end
