(* ===== verification/Queue_Steps.thy ===== *)
theory Queue_Steps
  imports Queue_Inv
begin

text \<open>
  Every operation of the queue preserves its invariant.  The first part states once what moving
  an entry does to each index; the operations then pick the facts they need.
\<close>

section \<open>Frame lemmas\<close>

lemma put_entry_fields [simp]:
  "tasks (put_entry tid e q) = hm_put tid e (tasks q)"
  "ready_queue (put_entry tid e q) = ready_queue q"
  "delayed_retries (put_entry tid e q) = delayed_retries q"
  "worker_assignments (put_entry tid e q) = worker_assignments q"
  "next_sequence (put_entry tid e q) = next_sequence q"
  "retry_policy (put_entry tid e q) = retry_policy q"
  "max_active_bytes (put_entry tid e q) = max_active_bytes q"
  "active_sizes (put_entry tid e q) = active_sizes q"
  "active_bytes (put_entry tid e q) = active_bytes q"
  "terminal_order (put_entry tid e q) = terminal_order q"
  "terminal_sizes (put_entry tid e q) = terminal_sizes q"
  "terminal_bytes (put_entry tid e q) = terminal_bytes q"
  by (simp_all add: put_entry_def)

lemma ready_insert_fields [simp]:
  "tasks (ready_insert k q) = tasks q"
  "ready_queue (ready_insert k q) = bts_insert k (ready_queue q)"
  "delayed_retries (ready_insert k q) = delayed_retries q"
  "worker_assignments (ready_insert k q) = worker_assignments q"
  "next_sequence (ready_insert k q) = next_sequence q"
  "retry_policy (ready_insert k q) = retry_policy q"
  "active_sizes (ready_insert k q) = active_sizes q"
  by (simp_all add: ready_insert_def)

lemma ready_remove_fields [simp]:
  "tasks (ready_remove k q) = tasks q"
  "ready_queue (ready_remove k q) = bts_remove k (ready_queue q)"
  "delayed_retries (ready_remove k q) = delayed_retries q"
  "worker_assignments (ready_remove k q) = worker_assignments q"
  "next_sequence (ready_remove k q) = next_sequence q"
  "retry_policy (ready_remove k q) = retry_policy q"
  by (simp_all add: ready_remove_def)

lemma delayed_insert_fields [simp]:
  "tasks (delayed_insert d q) = tasks q"
  "ready_queue (delayed_insert d q) = ready_queue q"
  "delayed_retries (delayed_insert d q) = bts_insert d (delayed_retries q)"
  "worker_assignments (delayed_insert d q) = worker_assignments q"
  "next_sequence (delayed_insert d q) = next_sequence q"
  "retry_policy (delayed_insert d q) = retry_policy q"
  "active_sizes (delayed_insert d q) = active_sizes q"
  by (simp_all add: delayed_insert_def)

lemma delayed_remove_fields [simp]:
  "tasks (delayed_remove d q) = tasks q"
  "ready_queue (delayed_remove d q) = ready_queue q"
  "delayed_retries (delayed_remove d q) = bts_remove d (delayed_retries q)"
  "worker_assignments (delayed_remove d q) = worker_assignments q"
  "next_sequence (delayed_remove d q) = next_sequence q"
  "retry_policy (delayed_remove d q) = retry_policy q"
  by (simp_all add: delayed_remove_def)

lemma assign_to_fields [simp]:
  "tasks (assign_to w tid q) = tasks q"
  "ready_queue (assign_to w tid q) = ready_queue q"
  "delayed_retries (assign_to w tid q) = delayed_retries q"
  "worker_assignments (assign_to w tid q) = assign_insert w tid (worker_assignments q)"
  "next_sequence (assign_to w tid q) = next_sequence q"
  "retry_policy (assign_to w tid q) = retry_policy q"
  by (simp_all add: assign_to_def)

lemma unassign_fields [simp]:
  "tasks (unassign w tid q) = tasks q"
  "ready_queue (unassign w tid q) = ready_queue q"
  "delayed_retries (unassign w tid q) = delayed_retries q"
  "worker_assignments (unassign w tid q) = assign_remove w tid (worker_assignments q)"
  "next_sequence (unassign w tid q) = next_sequence q"
  "retry_policy (unassign w tid q) = retry_policy q"
  "active_sizes (unassign w tid q) = active_sizes q"
  by (simp_all add: unassign_def)

lemma sums_frame [simp]:
  "sums_ok (put_entry tid e q) = sums_ok q"
  "sums_ok (ready_insert k q) = sums_ok q"
  "sums_ok (ready_remove k q) = sums_ok q"
  "sums_ok (delayed_insert d q) = sums_ok q"
  "sums_ok (delayed_remove d q) = sums_ok q"
  "sums_ok (assign_to w tid q) = sums_ok q"
  "sums_ok (unassign w tid q) = sums_ok q"
  "sums_ok (q\<lparr>delayed_retries := D\<rparr>) = sums_ok q"
  "sums_ok (q\<lparr>worker_assignments := A\<rparr>) = sums_ok q"
  "sums_ok (q\<lparr>next_sequence := n\<rparr>) = sums_ok q"
  by (simp_all add: sums_ok_def active_ledger.exact_def terminal_ledger.exact_def put_entry_def
      ready_insert_def ready_remove_def delayed_insert_def delayed_remove_def assign_to_def unassign_def)

lemma limits_frame [simp]:
  "limits_ok (put_entry tid e q) = limits_ok q"
  "limits_ok (ready_insert k q) = limits_ok q"
  "limits_ok (ready_remove k q) = limits_ok q"
  "limits_ok (delayed_insert d q) = limits_ok q"
  "limits_ok (delayed_remove d q) = limits_ok q"
  "limits_ok (assign_to w tid q) = limits_ok q"
  "limits_ok (unassign w tid q) = limits_ok q"
  "limits_ok (q\<lparr>delayed_retries := D\<rparr>) = limits_ok q"
  "limits_ok (q\<lparr>worker_assignments := A\<rparr>) = limits_ok q"
  "limits_ok (q\<lparr>next_sequence := n\<rparr>) = limits_ok q"
  "limits_ok (update_active_task tid q) = limits_ok q"
  by (simp_all add: limits_ok_def over_count_def over_bytes_def put_entry_def
      ready_insert_def ready_remove_def delayed_insert_def delayed_remove_def assign_to_def unassign_def)

lemma books_frame [simp]:
  "books_ok B (ready_insert k q) = books_ok B q"
  "books_ok B (ready_remove k q) = books_ok B q"
  "books_ok B (delayed_insert d q) = books_ok B q"
  "books_ok B (delayed_remove d q) = books_ok B q"
  "books_ok B (assign_to w tid q) = books_ok B q"
  "books_ok B (unassign w tid q) = books_ok B q"
  "books_ok B (q\<lparr>delayed_retries := D\<rparr>) = books_ok B q"
  "books_ok B (q\<lparr>worker_assignments := A\<rparr>) = books_ok B q"
  "books_ok B (q\<lparr>next_sequence := n\<rparr>) = books_ok B q"
  by (simp_all add: books_ok_def ready_insert_def ready_remove_def delayed_insert_def delayed_remove_def
      assign_to_def unassign_def)

lemma unassign_put: "unassign w tid (put_entry i e q) = put_entry i e (unassign w tid q)"
  by (simp add: unassign_def put_entry_def)

lemma put_entry_same: "hm_get (tasks q) tid = Some e \<Longrightarrow> put_entry tid e q = q"
  by (simp add: put_entry_def hm_put_same)

section \<open>What a move does to each index\<close>

lemma books_put_same:
  assumes "books_ok B q" "hm_get (tasks q) tid = Some e"
    and "is_terminal (te_state e') = is_terminal (te_state e)" "retained_bytes e' = retained_bytes e"
  shows "books_ok B (put_entry tid e' q)"
  using assms by (auto simp: books_ok_def hmap_simps active_charge_def terminal_charge_def)

lemma books_put_stale:
  assumes "books_ok B q" "hm_get (tasks q) tid = Some e" "\<not> is_terminal (te_state e)"
  shows "books_ok (insert tid B) (put_entry tid e' q)"
  using assms by (auto simp: books_ok_def hmap_simps active_charge_def terminal_charge_def)

lemma ready_unchanged:
  assumes "core_ok P T R D A n" "hm_get T tid = Some e" "te_state e \<noteq> Queued" "te_state e' \<noteq> Queued"
  shows "set R = set R - {order_key e tid} \<union> (if te_state e' = Queued then {order_key e tid} else {})"
  using assms by (auto simp: ready_key_iff)

lemma ready_entered:
  "te_state e' = Queued \<Longrightarrow>
     set (bts_insert (order_key e tid) R) =
       set R - {order_key e tid} \<union> (if te_state e' = Queued then {order_key e tid} else {})"
  by (auto simp: bts_simps)

lemma ready_left:
  "te_state e' \<noteq> Queued \<Longrightarrow>
     set (bts_remove (order_key e tid) R) =
       set R - {order_key e tid} \<union> (if te_state e' = Queued then {order_key e tid} else {})"
  by (auto simp: bts_simps)

lemma assign_unchanged:
  assumes "core_ok P T R D A n" "hm_get T tid = Some e" "\<And>w. carries e' w = carries e w"
  shows "assigned_ids A w = assigned_ids A w - {tid} \<union> (if carries e' w then {tid} else {})"
  using assms by (auto simp: carried_iff)

lemma assign_dropped:
  assumes "core_ok P T R D A n" "hm_get T tid = Some e" "te_assigned_worker_id e = Some v" "\<not> carries e' w"
  shows "assigned_ids (assign_remove v tid A) w = assigned_ids A w - {tid} \<union> (if carries e' w then {tid} else {})"
  using assms carried_iff [OF assms(1,2), of w] by (auto simp: assigned_remove carries_def)

lemma assign_gained:
  assumes "core_ok P T R D A n" "hm_get T tid = Some e" "\<And>w. \<not> carries e w" "\<And>w. carries e' w \<longleftrightarrow> w = v"
  shows "assigned_ids (assign_insert v tid A) w = assigned_ids A w - {tid} \<union> (if carries e' w then {tid} else {})"
  using assms carried_iff [OF assms(1,2), of w] by (auto simp: assigned_insert)

lemma queue_invI:
  "core {} q \<Longrightarrow> books_ok {} q \<Longrightarrow> sums_ok q \<Longrightarrow> limits_ok q \<Longrightarrow> queue_inv q"
  by (simp add: queue_inv_def)

lemma queue_invD:
  assumes "queue_inv q"
  shows "core {} q" "books_ok {} q" "sums_ok q" "limits_ok q"
  using assms by (simp_all add: queue_inv_def)

lemma stale_le_empty [simp]: "stale_le {} q"
  by (simp add: stale_le_def)

text \<open>Closing a move: the entry is finished, or its charge is refreshed.\<close>

lemma finish_inv:
  assumes "core {} q" "books_ok {tid} q" "sums_ok q"
    and "hm_get (tasks q) tid = Some e" "is_terminal (te_state e)"
  shows "queue_inv (track_terminal_task tid q)" and "evicted q (track_terminal_task tid q)"
  using track_terminal_ok [OF assms(1-3) _ _ assms(4,5)] by (auto simp: evict_ok_def intro: queue_invI)

lemma refresh_inv:
  assumes "core {} q" "books_ok {tid} q" "sums_ok q" "limits_ok q" "fits q"
    and "hm_get (tasks q) tid = Some e" "\<not> is_terminal (te_state e)"
  shows "queue_inv (update_active_task tid q)"
proof -
  have "books_ok ({tid} - {tid}) (update_active_task tid q)" using assms(2,6,7) by (rule books_update)
  moreover have "sums_ok (update_active_task tid q)"
    using assms(3,2) _ core_wf(1) [OF assms(1)] assms(5-7) by (rule sums_update) simp
  ultimately show ?thesis using assms by (intro queue_invI) simp_all
qed

section \<open>Submission\<close>

lemma new_entry_ok: "entry_ok (t_id task) (new_entry env task pr sq)"
  by (simp add: entry_ok_def new_entry_def)

lemma retained_new_entry: "retained_bytes (new_entry env task pr sq) = task_active_bytes task"
  by (simp add: retained_bytes_def new_entry_def history_bytes_def)

lemma admit_fields [simp]:
  "tasks (admit e n q) = hm_put (t_id (te_task e)) e (tasks q)"
  "terminal_order (admit e n q) = terminal_order q"
  "terminal_sizes (admit e n q) = terminal_sizes q"
  "terminal_bytes (admit e n q) = terminal_bytes q"
  "max_terminal_tasks (admit e n q) = max_terminal_tasks q"
  "max_terminal_bytes (admit e n q) = max_terminal_bytes q"
  "active_sizes (admit e n q) = hm_put (t_id (te_task e)) n (active_sizes q)"
  "active_bytes (admit e n q) = sat_add (active_bytes q) n"
  "ready_queue (admit e n q) = bts_insert (order_key e (t_id (te_task e))) (ready_queue q)"
  "delayed_retries (admit e n q) = delayed_retries q"
  "worker_assignments (admit e n q) = worker_assignments q"
  "next_sequence (admit e n q) = next_sequence q"
  "retry_policy (admit e n q) = retry_policy q"
  by (simp_all add: admit_def Let_def charge_active_def)

lemma admit_inv:
  assumes "queue_inv q" "hm_get (tasks q) tid = None" "entry_ok tid e" "te_state e = Queued"
    and "te_sequence e = next_sequence q" "n = retained_bytes e"
    and "q' = admit e n (q\<lparr>next_sequence := next_sequence q + 1\<rparr>)" "fits q'"
  shows "queue_inv q'"
proof (rule queue_invI)
  note inv = queue_invD [OF assms(1)]
  have tid: "t_id (te_task e) = tid" using assms(3) by (simp add: entry_ok_def)
  have sizes: "hm_get (active_sizes q) tid = None"
    using inv(2) assms(2) by (simp add: books_ok_def active_charge_def)
  show core: "core {} q'"
    unfolding assms(7) using core_add [OF inv(1) assms(2-5)] tid by simp
  show books: "books_ok {} q'"
    unfolding assms(7) using inv(2) assms(2,4,6) tid
    by (auto simp: books_ok_def hmap_simps active_charge_def terminal_charge_def)
  have exact: "active_ledger.exact q" "terminal_ledger.exact q" using inv(3) by (simp_all add: sums_ok_def)
  have wf: "hm_wf (active_sizes q')"
    using exact(1) by (simp add: assms(7) active_ledger.exact_def)
  have "hm_total (active_sizes q') \<le> mem_bytes (tasks q')"
    unfolding mem_bytes_def using active_sizes_le_mem [OF books stale_le_empty] core_wf(1) [OF core] wf
    by (intro hm_total_mono) simp_all
  moreover have "hm_total (active_sizes q') = active_bytes q + n"
    using exact(1) sizes tid by (simp add: assms(7) active_ledger.exact_def hm_total_put_absent)
  ultimately have "active_bytes q + n \<le> usize_max" using assms(8) by (simp add: fits_def)
  with \<open>hm_total (active_sizes q') = active_bytes q + n\<close> exact(2) wf show "sums_ok q'"
    by (simp add: sums_ok_def active_ledger.exact_def terminal_ledger.exact_def assms(7) sat_add_exact)
  show "limits_ok q'"
    using inv(4) by (simp add: limits_ok_def over_count_def over_bytes_def assms(7))
qed

lemma next_sequence_inv: "queue_inv q \<Longrightarrow> n \<ge> next_sequence q \<Longrightarrow> queue_inv (q\<lparr>next_sequence := n\<rparr>)"
  by (auto simp: queue_inv_def core_ok_def tasks_ok_def) (meson less_le_trans)

lemma submit_cases:
  assumes "submit_with_priority env task pr q = (r, q')"
  obtains "q' = q" "\<exists>e. r = Inl e"
  | "q' = q\<lparr>next_sequence := next_sequence q + 1\<rparr>" "\<exists>e. r = Inl e"
  | "r = Inr (t_id task)" "task_validate task = Inr ()" "hm_get (tasks q) (t_id task) = None"
      "check_room (task_active_bytes task) q = Inr ()"
      "q' = admit (new_entry env task pr (next_sequence q)) (task_active_bytes task)
              (q\<lparr>next_sequence := next_sequence q + 1\<rparr>)"
proof (cases "task_validate task")
  case (Inl e)
  with assms have "q' = q \<and> (\<exists>e. r = Inl e)" by (auto simp: submit_with_priority_def)
  with that(1) show ?thesis by blast
next
  case valid: (Inr u)
  have same: "check_bytes n (q\<lparr>next_sequence := m\<rparr>) = check_bytes n q" for n m
    by (simp add: check_bytes_def)
  show ?thesis
  proof (cases "hm_get (tasks q) (t_id task)")
    case (Some e)
    with assms valid have "q' = q \<and> (\<exists>e. r = Inl e)" by (auto simp: submit_with_priority_def)
    with that(1) show ?thesis by blast
  next
    case fresh: None
    show ?thesis
    proof (cases "check_capacity q")
      case (Inl e)
      with assms valid fresh have "q' = q \<and> (\<exists>e. r = Inl e)" by (auto simp: submit_with_priority_def)
      with that(1) show ?thesis by blast
    next
      case room: (Inr u')
      show ?thesis
      proof (cases "check_bytes (task_active_bytes task) q")
        case (Inl e)
        with assms valid fresh room
        have "q' = q\<lparr>next_sequence := next_sequence q + 1\<rparr> \<and> (\<exists>e. r = Inl e)"
          by (auto simp: submit_with_priority_def Let_def same retained_new_entry)
        with that(2) show ?thesis by blast
      next
        case (Inr u'')
        with assms valid fresh room have "r = Inr (t_id task)"
          "q' = admit (new_entry env task pr (next_sequence q)) (task_active_bytes task)
              (q\<lparr>next_sequence := next_sequence q + 1\<rparr>)"
          by (simp_all add: submit_with_priority_def Let_def same retained_new_entry)
        moreover have "check_room (task_active_bytes task) q = Inr ()"
          using room Inr by (simp add: check_room_def)
        ultimately show ?thesis using valid fresh by (intro that(3)) simp_all
      qed
    qed
  qed
qed

lemma admit_new_inv:
  assumes "queue_inv q" "hm_get (tasks q) (t_id task) = None"
    and "q' = admit (new_entry env task pr (next_sequence q)) (task_active_bytes task)
              (q\<lparr>next_sequence := next_sequence q + 1\<rparr>)" "fits q'"
  shows "queue_inv q'"
proof (rule admit_inv [OF assms(1,2) new_entry_ok _ _ _ assms(3,4)])
  show "task_active_bytes task = retained_bytes (new_entry env task pr (next_sequence q))"
    by (simp add: retained_new_entry)
qed (simp_all add: new_entry_def)

lemma submit_inv:
  assumes "queue_inv q" "submit_with_priority env task pr q = (r, q')" "fits q'"
  shows "queue_inv q'"
  using assms(2)
proof (cases rule: submit_cases)
  case 1
  with assms(1) show ?thesis by simp
next
  case 2
  with next_sequence_inv [OF assms(1), of "next_sequence q + 1"] show ?thesis by simp
next
  case 3
  then show ?thesis using admit_new_inv [OF assms(1) _ _ assms(3)] by blast
qed

lemma try_submit_cases:
  assumes "try_submit_slot env q0 slot q = (r, slot', q')"
  obtains "q' = q" "slot' = slot" "\<exists>e. r = Inl e"
  | task where "slot = Some task" "slot' = None" "r = Inr (t_id task)" "task_validate task = Inr ()"
      "hm_get (tasks q) (t_id task) = None" "check_room (task_active_bytes task) q = Inr ()"
      "q' = admit (new_entry env task 0 (next_sequence q)) (task_active_bytes task)
              (q\<lparr>next_sequence := next_sequence q + 1\<rparr>)"
proof (cases slot)
  case None
  with assms have "q' = q \<and> slot' = slot \<and> r = Inl (Config TaskSlotEmpty)" by (simp add: try_submit_slot_def)
  with that(1) show ?thesis by blast
next
  case (Some task)
  have same: "q' = q \<and> slot' = slot \<and> (\<exists>e. r = Inl e) \<Longrightarrow> ?thesis" using that(1) by blast
  show ?thesis
  proof (cases "task_validate task")
    case (Inl e)
    with Some assms have "q' = q \<and> slot' = slot \<and> (\<exists>e. r = Inl e)" by (auto simp: try_submit_slot_def)
    then show ?thesis by (rule same)
  next
    case valid: (Inr u)
    show ?thesis
    proof (cases "check_room (task_active_bytes task) q0")
      case (Inl e)
      with Some assms valid have "q' = q \<and> slot' = slot \<and> (\<exists>e. r = Inl e)"
        by (auto simp: try_submit_slot_def)
      then show ?thesis by (rule same)
    next
      case first: (Inr u0)
      show ?thesis
      proof (cases "hm_get (tasks q) (t_id task)")
        case (Some e)
        with \<open>slot = Some task\<close> assms valid first have "q' = q \<and> slot' = slot \<and> (\<exists>e. r = Inl e)"
          by (auto simp: try_submit_slot_def)
        then show ?thesis by (rule same)
      next
        case fresh: None
        show ?thesis
        proof (cases "check_room (task_active_bytes task) q")
          case (Inl e)
          with Some assms valid first fresh have "q' = q \<and> slot' = slot \<and> (\<exists>e. r = Inl e)"
            by (auto simp: try_submit_slot_def check_room_def split: sum.splits)
          then show ?thesis by (rule same)
        next
          case (Inr u1)
          with Some assms valid first fresh show ?thesis
            by (intro that(2) [OF Some]) (simp_all add: try_submit_slot_def Let_def check_room_def split: sum.splits)
        qed
      qed
    qed
  qed
qed

lemma try_submit_inv:
  assumes "queue_inv q" "try_submit_slot env q0 slot q = (r, slot', q')" "fits q'"
  shows "queue_inv q'"
  using assms(2)
proof (cases rule: try_submit_cases)
  case 1
  with assms(1) show ?thesis by simp
next
  case (2 task)
  then show ?thesis using admit_new_inv [OF assms(1) _ _ assms(3)] by blast
qed

section \<open>Assignment\<close>

lemma carries_simps [simp]:
  "carries (mark_scheduled env w s e) v \<longleftrightarrow> v = w"
  by (auto simp: carries_def mark_scheduled_def)

lemma not_active_not_carried: "\<not> is_active (te_state e) \<Longrightarrow> \<not> carries e w"
  by (simp add: carries_def)

lemma schedule_entry_inv:
  assumes "queue_inv q" "hm_get (tasks q) tid = Some e" "te_state e = Queued"
  shows "queue_inv (assign_to w tid (put_entry tid (mark_scheduled env w s e) (ready_remove (order_key e tid) q)))"
    (is "queue_inv ?q")
proof (rule queue_invI)
  note inv = queue_invD [OF assms(1)]
  let ?e = "mark_scheduled env w s e"
  have "core_ok {} (hm_put tid ?e (tasks q)) (bts_remove (order_key e tid) (ready_queue q))
      (delayed_retries q) (assign_insert w tid (worker_assignments q)) (next_sequence q)"
  proof (rule core_move [OF inv(1) assms(2)])
    show "entry_ok tid ?e"
      using core_entry [OF inv(1) assms(2)] assms(3) by (simp add: entry_ok_def mark_scheduled_def)
    show "assigned_ids (assign_insert w tid (worker_assignments q)) v =
        assigned_ids (worker_assignments q) v - {tid} \<union> (if carries ?e v then {tid} else {})" for v
      by (rule assign_gained [OF inv(1) assms(2)]) (simp_all add: carries_def [of e] assms(3))
    show "set (bts_remove (order_key e tid) (ready_queue q)) =
        set (ready_queue q) - {order_key e tid} \<union> (if te_state ?e = Queued then {order_key e tid} else {})"
      by (rule ready_left) (simp add: mark_scheduled_def)
  qed (use core_wf [OF inv(1)] in \<open>auto simp: mark_scheduled_def\<close>)
  then show "core {} ?q" by simp
  have "books_ok {} (put_entry tid ?e (ready_remove (order_key e tid) q))"
    by (rule books_put_same [where e = e])
      (simp_all add: inv(2) assms(2,3) mark_scheduled_def retained_bytes_def)
  then show "books_ok {} ?q" by simp
qed (use queue_invD [OF assms(1)] in simp_all)

lemma ready_absent:
  assumes "core_ok P T R D A n" "hm_get T tid = Some e" "te_state e \<noteq> Queued"
  shows "bts_remove (order_key e tid) R = R"
  using ready_key_iff [OF assms(1,2)] assms(3) by (auto simp: bts_remove_def filter_id_conv)

lemma ready_remove_stale:
  assumes "queue_inv q" "hm_get (tasks q) tid = Some e" "te_state e \<noteq> Queued"
  shows "ready_remove (order_key e tid) q = q"
  using ready_absent [OF queue_invD(1) [OF assms(1)] assms(2,3)] by (simp add: ready_remove_def)

lemma schedule_task_inv: "queue_inv q \<Longrightarrow> schedule_task env tid w q = (r, q') \<Longrightarrow> queue_inv q'"
  by (auto simp: schedule_task_def schedule_entry_inv split: option.splits if_splits)

lemma schedule_batch_inv: "queue_inv q \<Longrightarrow> queue_inv (snd (schedule_batch_inner env as q))"
proof (induction env as q rule: schedule_batch_inner.induct)
  case (2 env tid w session rest q)
  show ?case
  proof (cases "hm_get (tasks q) tid")
    case None
    with "2.IH"(1) [OF None "2.prems"] show ?thesis by simp
  next
    case (Some e)
    show ?thesis
    proof (cases "te_state e = Queued")
      case True
      let ?q = "assign_to w tid (put_entry tid (mark_scheduled env w session e) (ready_remove (order_key e tid) q))"
      have "queue_inv (snd (schedule_batch_inner env rest ?q))"
        using "2.IH"(3) [OF Some _ refl] schedule_entry_inv [OF "2.prems" Some True] True by simp
      with Some True show ?thesis by (simp add: Let_def case_prod_unfold)
    next
      case False
      then have "ready_remove (order_key e tid) q = q" using "2.prems" Some by (intro ready_remove_stale)
      with "2.IH"(2) [OF Some False] "2.prems" Some False show ?thesis by simp
    qed
  qed
qed simp

lemma pop_key:
  assumes "queue_inv q" "find F (ready_queue q) = Some k" "hm_get (tasks q) (qk_task_id k) = Some e"
  shows "te_state e = Queued" "k = order_key e (qk_task_id k)"
proof -
  have "ready_ok (tasks q) (ready_queue q)" using assms(1) by (simp add: queue_inv_def core_ok_def)
  moreover have "k \<in> set (ready_queue q)" using find_SomeD [OF assms(2)] by simp
  ultimately show "te_state e = Queued" "k = order_key e (qk_task_id k)"
    using assms(3) by (auto simp: ready_ok_def)
qed

lemma pop_and_schedule_inv: "queue_inv q \<Longrightarrow> pop_and_schedule env w pred q = (r, q') \<Longrightarrow> queue_inv q'"
proof -
  assume q: "queue_inv q" and pop: "pop_and_schedule env w pred q = (r, q')"
  let ?F = "\<lambda>k. case hm_get (tasks q) (qk_task_id k) of
      Some e \<Rightarrow> te_state e = Queued \<and> pred (t_requirements (te_task e)) | None \<Rightarrow> False"
  show ?thesis
  proof (cases "find ?F (ready_queue q)")
    case None
    with pop q show ?thesis by (simp add: pop_and_schedule_def)
  next
    case (Some k)
    then obtain e where e: "hm_get (tasks q) (qk_task_id k) = Some e"
      using find_SomeD [OF Some] by (auto split: option.splits)
    have "te_state e = Queued" "k = order_key e (qk_task_id k)" using pop_key [OF q Some e] .
    with pop Some e schedule_entry_inv [OF q e, of w env None] show ?thesis
      by (simp add: pop_and_schedule_def Let_def)
  qed
qed

section \<open>The three ways a task leaves its worker\<close>

definition release :: "TaskEntry \<Rightarrow> uuid \<Rightarrow> (uuid, uuid list) hmap \<Rightarrow> (uuid, uuid list) hmap" where
  "release e tid A = (case te_assigned_worker_id e of Some w \<Rightarrow> assign_remove w tid A | None \<Rightarrow> A)"

lemma release_wf [simp]: "assign_wf A \<Longrightarrow> assign_wf (release e tid A)"
  by (simp add: release_def split: option.splits)

lemma release_ids:
  assumes "core_ok P T R D A n" "hm_get T tid = Some e" "\<not> is_active (te_state e')"
  shows "assigned_ids (release e tid A) w = assigned_ids A w - {tid} \<union> (if carries e' w then {tid} else {})"
  using carried_iff [OF assms(1,2), of w] assms(3)
  by (auto simp: release_def carries_def assigned_remove split: option.splits)

lemma release_none: "te_assigned_worker_id e = None \<Longrightarrow> release e tid A = A"
  by (simp add: release_def)

lemma release_some: "te_assigned_worker_id e = Some w \<Longrightarrow> release e tid A = assign_remove w tid A"
  by (simp add: release_def)

lemma core_to_queued:
  assumes "core_ok P T R D A n" "hm_get T tid = Some e" "entry_ok tid e'" "te_state e' = Queued"
    and "te_priority e' = te_priority e" "te_sequence e' = te_sequence e" "P - {tid} \<subseteq> P'"
  shows "core_ok P' (hm_put tid e' T) (bts_insert (order_key e tid) R) D (release e tid A) n"
  by (rule core_move [OF assms(1,2,3,5,6)])
    (use core_wf [OF assms(1)] assms(4,7) in
      \<open>simp_all add: ready_entered release_ids [OF assms(1,2)]\<close>)

lemma core_to_retrying:
  assumes "core_ok P T R D A n" "hm_get T tid = Some e" "te_state e \<noteq> Queued" "entry_ok tid e'"
    and "te_state e' = Retrying" "te_retry_after_instant e' = Some t"
    and "te_priority e' = te_priority e" "te_sequence e' = te_sequence e"
  shows "core_ok P (hm_put tid e' T) R (bts_insert (RetryKey t tid) D) (release e tid A) n"
  by (rule core_move [OF assms(1,2,4,7,8)])
    (use core_wf [OF assms(1)] assms(5,6) ready_unchanged [OF assms(1-3), of e'] in
      \<open>auto simp: bts_simps release_ids [OF assms(1,2)]\<close>)

lemma core_to_terminal:
  assumes "core_ok P T R D A n" "hm_get T tid = Some e" "entry_ok tid e'" "is_terminal (te_state e')"
    and "te_priority e' = te_priority e" "te_sequence e' = te_sequence e"
    and "bts_wf D'" "{k \<in> set D. dk_task_id k \<noteq> tid} \<subseteq> set D'"
  shows "core_ok P (hm_put tid e' T) (bts_remove (order_key e tid) R) D' (release e tid A) n"
proof (rule core_move [OF assms(1,2,3,5,6) _ _ assms(7,8)])
  have "te_state e' \<noteq> Queued" "te_state e' \<noteq> Retrying" "\<not> is_active (te_state e')"
    using assms(4) state_fsm.active_not_terminal by auto
  then show "set (bts_remove (order_key e tid) R) =
      set R - {order_key e tid} \<union> (if te_state e' = Queued then {order_key e tid} else {})"
    and "te_state e' = Retrying \<Longrightarrow> \<exists>t. te_retry_after_instant e' = Some t \<and> RetryKey t tid \<in> set D'"
    and "\<And>w. assigned_ids (release e tid A) w = assigned_ids A w - {tid} \<union> (if carries e' w then {tid} else {})"
    by (simp_all add: ready_left release_ids [OF assms(1,2)])
qed (use core_wf [OF assms(1)] in simp_all)

lemma live_states:
  assumes "entry_ok tid e" "\<not> is_terminal (te_state e)"
  shows "te_state e \<in> {Queued, Scheduled, Running, Retrying}" "te_result e = None"
    and "te_assigned_worker_id e = Some w \<Longrightarrow> is_active (te_state e)" and "te_error_message e = None"
  using assms by (cases "te_state e"; auto simp: entry_ok_def)+

section \<open>Dispatch\<close>

lemma to_queued_inv:
  assumes "queue_inv q" "hm_get (tasks q) tid = Some e" "\<not> is_terminal (te_state e)" "entry_ok tid e'"
    and "te_state e' = Queued" "te_priority e' = te_priority e" "te_sequence e' = te_sequence e"
    and "retained_bytes e' = retained_bytes e"
    and "q' = ready_insert (order_key e tid) (put_entry tid e' (q\<lparr>worker_assignments := release e tid (worker_assignments q)\<rparr>))"
  shows "queue_inv q'"
proof (rule queue_invI)
  note inv = queue_invD [OF assms(1)]
  show "core {} q'"
    unfolding assms(9) using core_to_queued [OF inv(1) assms(2,4-7), of "{}"] by simp
  have "books_ok {} (put_entry tid e' (q\<lparr>worker_assignments := release e tid (worker_assignments q)\<rparr>))"
    by (rule books_put_same [where e = e]) (simp_all add: inv(2) assms(2,3,5,8))
  then show "books_ok {} q'" by (simp add: assms(9))
qed (simp_all add: assms(9) queue_invD [OF assms(1)])

lemma requeue_task_inv:
  assumes "queue_inv q" "requeue_task tid q = (r, q')"
  shows "queue_inv q'"
proof (cases "\<exists>e. hm_get (tasks q) tid = Some e \<and> \<not> is_terminal (te_state e)")
  case True
  then obtain e where e: "hm_get (tasks q) tid = Some e" "\<not> is_terminal (te_state e)" by blast
  let ?e = "e\<lparr>te_assigned_session := None, te_assigned_worker_id := None,
      te_state := Queued, te_scheduled_instant := None\<rparr>"
  have ok: "entry_ok tid e" using core_entry [OF queue_invD(1) [OF assms(1)] e(1)] .
  then have "entry_ok tid ?e" using live_states(2,4) [OF ok e(2)] by (simp add: entry_ok_def)
  moreover have "q' = ready_insert (order_key e tid) (put_entry tid ?e (q\<lparr>worker_assignments := release e tid (worker_assignments q)\<rparr>))"
    using assms(2) e by (auto simp: requeue_task_def Let_def release_def unassign_def split: option.splits)
  ultimately show ?thesis
    by (intro to_queued_inv [OF assms(1) e, where e' = ?e]) (simp_all add: retained_bytes_def)
next
  case False
  with assms show ?thesis by (auto simp: requeue_task_def split: option.splits if_splits)
qed

lemma requeue_dispatch_failure_inv:
  assumes "queue_inv q" "requeue_dispatch_failure tid w s q = (r, q')"
  shows "queue_inv q'"
proof (cases "\<exists>e. hm_get (tasks q) tid = Some e \<and> te_state e = Scheduled \<and> owned_by e w (Some s)")
  case True
  then obtain e where e: "hm_get (tasks q) tid = Some e" and own: "te_state e = Scheduled" "owned_by e w (Some s)"
    by blast
  let ?e = "e\<lparr>te_state := Queued, te_assigned_worker_id := None,
      te_assigned_session := None, te_scheduled_instant := None\<rparr>"
  have live: "\<not> is_terminal (te_state e)" using own by simp
  have ok: "entry_ok tid e" using core_entry [OF queue_invD(1) [OF assms(1)] e] .
  then have "entry_ok tid ?e" using live_states(2,4) [OF ok live] by (simp add: entry_ok_def)
  moreover have "te_assigned_worker_id e = Some w" using own by (simp add: owned_by_def)
  then have "q' = ready_insert (order_key e tid) (put_entry tid ?e (q\<lparr>worker_assignments := release e tid (worker_assignments q)\<rparr>))"
    using assms(2) e own
    by (simp add: requeue_dispatch_failure_def Let_def release_def unassign_put) (simp add: unassign_def)
  ultimately show ?thesis
    by (intro to_queued_inv [OF assms(1) e live, where e' = ?e]) (simp_all add: retained_bytes_def)
next
  case False
  with assms show ?thesis by (auto simp: requeue_dispatch_failure_def split: option.splits if_splits)
qed

lemma mark_running_from_inv:
  assumes "queue_inv q" "mark_running_from env w s tid q = (r, q')"
  shows "queue_inv q'"
proof (cases "\<exists>e. hm_get (tasks q) tid = Some e \<and> owned_by e w s \<and> can_transition_to (te_state e) Running")
  case True
  then obtain e where e: "hm_get (tasks q) tid = Some e" and own: "owned_by e w s"
    and go: "can_transition_to (te_state e) Running" by blast
  note inv = queue_invD [OF assms(1)]
  let ?e = "e\<lparr>te_state := Running, te_started_instant := Some (ce_now env)\<rparr>"
  have st: "te_state e = Scheduled" using go by (cases "te_state e") simp_all
  have w: "te_assigned_worker_id e = Some w" using own by (simp add: owned_by_def)
  have q': "q' = put_entry tid ?e q" using assms(2) e own go by (simp add: mark_running_from_def)
  have "entry_ok tid ?e"
    using core_entry [OF inv(1) e] st by (simp add: entry_ok_def)
  then have "core_ok {} (hm_put tid ?e (tasks q)) (ready_queue q) (delayed_retries q) (worker_assignments q) (next_sequence q)"
    using core_wf [OF inv(1)] st
    by (intro core_move [OF inv(1) e] ready_unchanged [OF inv(1) e] assign_unchanged [OF inv(1) e])
      (simp_all add: carries_def)
  moreover have "books_ok {} q'"
    unfolding q' by (rule books_put_same [where e = e]) (simp_all add: inv(2) e st retained_bytes_def)
  ultimately show ?thesis using inv by (intro queue_invI) (simp_all add: q')
next
  case False
  with assms show ?thesis by (auto simp: mark_running_from_def split: option.splits if_splits)
qed

section \<open>Checkpoints\<close>

lemma store_checkpoint_inv:
  assumes "queue_inv q" "hm_get (tasks q) tid = Some e" "\<not> is_terminal (te_state e)"
    and "store_checkpoint tid e cp q = (r, q')" "fits q'"
  shows "queue_inv q'"
proof (cases "checkpoint_exceeds_active_cap e cp (active_bytes q) (max_active_bytes q) = None \<and> is_newer_checkpoint e cp")
  case True
  note inv = queue_invD [OF assms(1)]
  let ?e = "e\<lparr>te_task := update_checkpoint cp (te_task e)\<rparr>"
  let ?q = "put_entry tid ?e q"
  have q': "q' = update_active_task tid ?q"
    using True assms(4) by (simp add: store_checkpoint_def apply_checkpoint_def Let_def)
  have eok: "entry_ok tid ?e"
    using core_entry [OF inv(1) assms(2)] by (auto simp: entry_ok_def update_checkpoint_def)
  have "core_ok {} (hm_put tid ?e (tasks q)) (ready_queue q) (delayed_retries q) (worker_assignments q) (next_sequence q)"
  proof (rule core_move [OF inv(1) assms(2) eok])
    show "set (ready_queue q) = set (ready_queue q) - {order_key e tid} \<union> (if te_state ?e = Queued then {order_key e tid} else {})"
      using ready_key_iff [OF inv(1) assms(2)] by auto
    show "te_state ?e = Retrying \<Longrightarrow> \<exists>t. te_retry_after_instant ?e = Some t \<and> RetryKey t tid \<in> set (delayed_retries q)"
      using inv(1) assms(2) by (simp add: core_ok_def delayed_ok_def)
    show "assigned_ids (worker_assignments q) w = assigned_ids (worker_assignments q) w - {tid} \<union> (if carries ?e w then {tid} else {})" for w
      by (rule assign_unchanged [OF inv(1) assms(2)]) (simp add: carries_def)
  qed (use core_wf [OF inv(1)] in simp_all)
  moreover have "books_ok {tid} ?q" using books_put_stale [OF inv(2) assms(2,3)] by simp
  ultimately show ?thesis
    unfolding q' using inv(3,4) assms(3,5) q'
    by (intro refresh_inv [where e = ?e]) (simp_all add: hmap_simps fits_def)
next
  case False
  then have "q' = q"
    using assms(2,4) by (auto simp: store_checkpoint_def apply_checkpoint_def put_entry_same split: option.splits)
  with assms(1) show ?thesis by simp
qed

lemma record_checkpoint_inv:
  assumes "queue_inv q" "record_checkpoint tid cp q = (r, q')" "fits q'"
  shows "queue_inv q'"
proof (cases "\<exists>e. hm_get (tasks q) tid = Some e \<and> \<not> is_terminal (te_state e)")
  case True
  then obtain e where e: "hm_get (tasks q) tid = Some e" "\<not> is_terminal (te_state e)" by blast
  obtain r' where "store_checkpoint tid e cp q = (r', q')"
    using assms(2) e by (auto simp: record_checkpoint_def split: prod.splits)
  then show ?thesis by (rule store_checkpoint_inv [OF assms(1) e _ assms(3)])
next
  case False
  with assms show ?thesis by (auto simp: record_checkpoint_def split: option.splits if_splits)
qed

lemma record_checkpoint_from_inv:
  assumes "queue_inv q" "record_checkpoint_from w s tid cp q = (r, q')" "fits q'"
  shows "queue_inv q'"
proof (cases "\<exists>e. hm_get (tasks q) tid = Some e \<and> is_active (te_state e) \<and> owned_by e w s")
  case True
  then obtain e where e: "hm_get (tasks q) tid = Some e" "is_active (te_state e)" "owned_by e w s" by blast
  then have "store_checkpoint tid e cp q = (r, q')" using assms(2) by (simp add: record_checkpoint_from_def)
  then show ?thesis
    using state_fsm.active_not_terminal [OF e(2)] by (intro store_checkpoint_inv [OF assms(1) e(1) _ _ assms(3)])
next
  case False
  with assms show ?thesis by (auto simp: record_checkpoint_from_def split: option.splits if_splits)
qed

section \<open>Results\<close>

lemma to_terminal_inv:
  assumes "queue_inv q" "hm_get (tasks q) tid = Some e" "\<not> is_terminal (te_state e)"
    and "entry_ok tid e'" "is_terminal (te_state e')"
    and "te_priority e' = te_priority e" "te_sequence e' = te_sequence e"
    and "bts_wf D'" "{k \<in> set (delayed_retries q). dk_task_id k \<noteq> tid} \<subseteq> set D'"
    and "q1 = put_entry tid e' (q\<lparr>ready_queue := bts_remove (order_key e tid) (ready_queue q),
           delayed_retries := D', worker_assignments := release e tid (worker_assignments q)\<rparr>)"
  shows "queue_inv (track_terminal_task tid q1)" "evicted q1 (track_terminal_task tid q1)"
proof -
  note inv = queue_invD [OF assms(1)]
  have "core {} q1"
    using core_to_terminal [OF inv(1) assms(2,4-9)] by (simp add: assms(10))
  moreover have "books_ok {tid} q1"
    using books_put_stale [OF inv(2) assms(2,3), of e'] by (simp add: assms(10) books_ok_def)
  moreover have "sums_ok q1"
    using inv(3) by (simp add: assms(10) sums_ok_def active_ledger.exact_def terminal_ledger.exact_def)
  moreover have "hm_get (tasks q1) tid = Some e'" by (simp add: assms(10) hmap_simps)
  ultimately show "queue_inv (track_terminal_task tid q1)" "evicted q1 (track_terminal_task tid q1)"
    using assms(5) by (blast intro: finish_inv)+
qed

lemma to_terminal_active_inv:
  assumes "queue_inv q" "hm_get (tasks q) tid = Some e" "is_active (te_state e)" "te_assigned_worker_id e = Some w"
    and "entry_ok tid e'" "is_terminal (te_state e')"
    and "te_priority e' = te_priority e" "te_sequence e' = te_sequence e"
  shows "queue_inv (track_terminal_task tid (put_entry tid e' (unassign w tid q)))"
proof -
  note inv = queue_invD [OF assms(1)]
  have "te_state e \<noteq> Queued" "\<not> is_terminal (te_state e)"
    using assms(3) state_fsm.active_not_terminal by auto
  then show ?thesis
    using core_wf [OF inv(1)]
    by (intro to_terminal_inv [OF assms(1,2) _ assms(5-8), where D' = "delayed_retries q"])
      (simp_all add: ready_absent [OF inv(1) assms(2)] release_some [OF assms(4)] unassign_def)
qed

lemma late_inv:
  assumes "queue_inv q" "hm_get (tasks q) tid = Some e" "is_terminal (te_state e)"
  shows "queue_inv (unassign w tid q)"
proof -
  note inv = queue_invD [OF assms(1)]
  have "tid \<notin> assigned_ids (worker_assignments q) w"
    using carried_iff [OF inv(1) assms(2)] assms(3) state_fsm.active_not_terminal by (auto simp: carries_def)
  then have "assigned_ids (assign_remove w tid (worker_assignments q)) v = assigned_ids (worker_assignments q) v" for v
    by (auto simp: assigned_remove)
  then have "core {} (unassign w tid q)"
    using inv(1) by (simp add: core_ok_def assign_ok_def)
  with inv show ?thesis by (intro queue_invI) simp_all
qed

lemma entry_finish:
  assumes "entry_ok tid e" "is_terminal st"
  shows "entry_ok tid (e\<lparr>te_state := st, te_error_message := m, te_result := Some r\<rparr>)"
    and "entry_ok tid (e\<lparr>te_state := st, te_result := Some r\<rparr>)"
proof -
  have "\<not> is_active st" "st \<noteq> Submitted" "st \<noteq> Queued" "st \<noteq> Retrying"
    using assms(2) state_fsm.active_not_terminal by auto
  with assms show "entry_ok tid (e\<lparr>te_state := st, te_error_message := m, te_result := Some r\<rparr>)"
    and "entry_ok tid (e\<lparr>te_state := st, te_result := Some r\<rparr>)"
    by (simp_all add: entry_ok_def)
qed

lemma entry_rejected:
  assumes "entry_ok tid e" "is_active (te_state e)" "te_rejection_count e < MAX_WORKER_REJECTIONS_PER_TASK"
  shows "entry_ok tid (settle_rejected env w r e)"
proof -
  have "\<not> is_terminal (te_state e)" using assms(2) by (rule state_fsm.active_not_terminal)
  with assms show ?thesis
    by (simp add: entry_ok_def settle_rejected_def Let_def)
qed

lemma entry_retry:
  assumes "entry_ok tid e" "is_active (te_state e)"
  shows "entry_ok tid (settle_retry env p w r e)"
proof -
  have "\<not> is_terminal (te_state e)" using assms(2) by (rule state_fsm.active_not_terminal)
  with assms show ?thesis
    by (simp add: entry_ok_def settle_retry_def Let_def)
qed

lemma settle_cases:
  assumes "settle env p w r e = Inr (e', k, disp)" "entry_ok (tr_task_id r) e" "is_active (te_state e)"
  obtains
    (finished) "k = NoKey" "disp = Terminal" "is_terminal (te_state e')" "entry_ok (tr_task_id r) e'"
      "te_priority e' = te_priority e" "te_sequence e' = te_sequence e"
  | (rejected) "e' = settle_rejected env w r e" "k = ReadyKey (order_key e (tr_task_id r))" "disp = Requeued"
      "te_state e' = Queued" "entry_ok (tr_task_id r) e'"
  | (retried) t where "e' = settle_retry env p w r e" "k = DelayKey (RetryKey t (tr_task_id r))" "disp = Requeued"
      "te_state e' = Retrying" "te_retry_after_instant e' = Some t" "entry_ok (tr_task_id r) e'"
proof -
  have go: "can_transition_to (te_state e) Completed" using assms(3) by (cases "te_state e") simp_all
  let ?fin = "k = NoKey \<and> disp = Terminal \<and> is_terminal (te_state e') \<and> entry_ok (tr_task_id r) e'
      \<and> te_priority e' = te_priority e \<and> te_sequence e' = te_sequence e"
  let ?rej = "is_worker_rejection r \<and> rp_retry_on_worker_disconnect p
      \<and> te_rejection_count e < MAX_WORKER_REJECTIONS_PER_TASK \<and> fst (failover_budget p e)"
  let ?rerun = "rp_retry_on_execution_failure p \<and> te_retry_count e - te_failover_count e < rp_max_retries p"
  consider "is_success r" | "\<not> is_success r" "tr_exit_code r = 130"
    | (rej) "\<not> is_success r" "tr_exit_code r \<noteq> 130" ?rej
    | (again) "\<not> is_success r" "tr_exit_code r \<noteq> 130" "\<not> ?rej" ?rerun
    | "\<not> is_success r" "tr_exit_code r \<noteq> 130" "\<not> ?rej" "\<not> ?rerun"
    by blast
  then show ?thesis
  proof cases
    case 1
    with assms(1) go have ?fin by (auto simp: settle_def entry_finish [OF assms(2)])
    with finished show ?thesis by blast
  next
    case 2
    with assms(1) have ?fin by (auto simp: settle_def Let_def entry_finish [OF assms(2)])
    with finished show ?thesis by blast
  next
    case rej
    with assms(1) have "e' = settle_rejected env w r e \<and> k = ReadyKey (order_key e (tr_task_id r)) \<and> disp = Requeued"
      by (simp add: settle_def)
    moreover from this have "te_state e' = Queued" by (simp add: settle_rejected_def Let_def)
    ultimately show ?thesis using rejected entry_rejected [OF assms(2,3)] rej by blast
  next
    case again
    with assms(1) have e': "e' = settle_retry env p w r e" "disp = Requeued"
      "k = DelayKey (RetryKey (ce_now env + millis (calculate_backoff p (te_retry_count e'))) (tr_task_id r))"
      by (auto simp: settle_def Let_def)
    moreover have "te_state e' = Retrying"
      "te_retry_after_instant e' = Some (ce_now env + millis (calculate_backoff p (te_retry_count e')))"
      by (simp_all add: e'(1) settle_retry_def Let_def)
    ultimately show ?thesis using retried entry_retry [OF assms(2,3)] by blast
  next
    case 5
    with assms(1) have "e' = e\<lparr>te_state := Failed, te_error_message := tr_error r, te_result := Some r\<rparr> \<and> k = NoKey \<and> disp = Terminal"
      by (simp add: settle_def)
    then have ?fin by (simp add: entry_finish [OF assms(2)])
    with finished show ?thesis by blast
  qed
qed

lemma settle_total:
  assumes "is_active (te_state e)"
  obtains e' k disp where "settle env p w r e = Inr (e', k, disp)"
proof -
  have "can_transition_to (te_state e) Completed" using assms by (cases "te_state e") simp_all
  then have "\<exists>x. settle env p w r e = Inr x" by (simp add: settle_def Let_def)
  then obtain x where "settle env p w r e = Inr x" ..
  with that show ?thesis by (cases x) blast
qed

lemma rejected_inv:
  assumes "queue_inv q" "hm_get (tasks q) tid = Some e" "is_active (te_state e)" "te_assigned_worker_id e = Some w"
    and "entry_ok tid e'" "te_state e' = Queued" "te_priority e' = te_priority e" "te_sequence e' = te_sequence e"
    and "q' = update_active_task tid (ready_insert (order_key e tid) (put_entry tid e' (unassign w tid q)))" "fits q'"
  shows "queue_inv q'"
proof -
  note inv = queue_invD [OF assms(1)]
  let ?q = "ready_insert (order_key e tid) (put_entry tid e' (unassign w tid q))"
  have "core {} ?q"
    using core_to_queued [OF inv(1) assms(2,5-8), of "{}"] by (simp add: release_some [OF assms(4)])
  moreover have "books_ok {tid} ?q"
    using books_put_stale [of "{}" "unassign w tid q" tid e e'] inv(2) assms(2,3) state_fsm.active_not_terminal by simp
  ultimately show ?thesis
    unfolding assms(9) using inv(3,4) assms(6,9,10)
    by (intro refresh_inv [where e = e']) (simp_all add: hmap_simps fits_def)
qed

lemma retried_inv:
  assumes "queue_inv q" "hm_get (tasks q) tid = Some e" "is_active (te_state e)" "te_assigned_worker_id e = Some w"
    and "entry_ok tid e'" "te_state e' = Retrying" "te_retry_after_instant e' = Some t"
    and "te_priority e' = te_priority e" "te_sequence e' = te_sequence e"
    and "q' = update_active_task tid (delayed_insert (RetryKey t tid) (put_entry tid e' (unassign w tid q)))" "fits q'"
  shows "queue_inv q'"
proof -
  note inv = queue_invD [OF assms(1)]
  let ?q = "delayed_insert (RetryKey t tid) (put_entry tid e' (unassign w tid q))"
  have "te_state e \<noteq> Queued" using assms(3) by auto
  then have "core {} ?q"
    using core_to_retrying [OF inv(1) assms(2) _ assms(5-9)] by (simp add: release_some [OF assms(4)])
  moreover have "books_ok {tid} ?q"
    using books_put_stale [of "{}" "unassign w tid q" tid e e'] inv(2) assms(2,3) state_fsm.active_not_terminal by simp
  ultimately show ?thesis
    unfolding assms(10) using inv(3,4) assms(6,10,11)
    by (intro refresh_inv [where e = e']) (simp_all add: hmap_simps fits_def)
qed

lemma owned_active:
  assumes "queue_inv q" "hm_get (tasks q) tid = Some e" "owned_by e w s" "\<not> is_terminal (te_state e)"
  shows "is_active (te_state e)" "te_assigned_worker_id e = Some w" "entry_ok tid e"
proof -
  show w: "te_assigned_worker_id e = Some w" using assms(3) by (simp add: owned_by_def)
  show ok: "entry_ok tid e" using core_entry [OF queue_invD(1) [OF assms(1)] assms(2)] .
  show "is_active (te_state e)" using live_states(3) [OF ok assms(4) w] .
qed

lemma record_result_from_inv:
  assumes "queue_inv q" "record_result_from env w s r q = (res, q')" "fits q'"
  shows "queue_inv q'"
proof (cases "\<exists>e. hm_get (tasks q) (tr_task_id r) = Some e \<and> owned_by e w s")
  case False
  with assms show ?thesis by (auto simp: record_result_from_def Let_def split: option.splits)
next
  case True
  then obtain e where e: "hm_get (tasks q) (tr_task_id r) = Some e" and own: "owned_by e w s" by blast
  show ?thesis
  proof (cases "is_terminal (te_state e)")
    case True
    with assms(2) e own late_inv [OF assms(1) e True, of w] show ?thesis
      by (auto simp: record_result_from_def Let_def)
  next
    case False
    note act = owned_active [OF assms(1) e own False]
    obtain e' k disp where set: "settle env (retry_policy q) w r e = Inr (e', k, disp)"
      using settle_total [OF act(1)] .
    have q': "q' = (if is_terminal (te_state e') then track_terminal_task (tr_task_id r)
          else update_active_task (tr_task_id r)) (insert_index k (put_entry (tr_task_id r) e' (unassign w (tr_task_id r) q)))"
      using assms(2) e own False set by (auto simp: record_result_from_def Let_def)
    show ?thesis
      using set act(3,1)
    proof (cases rule: settle_cases)
      case finished
      then show ?thesis
        using to_terminal_active_inv [OF assms(1) e act(1,2)] by (simp add: q' insert_index_def)
    next
      case rejected
      then show ?thesis
        using assms(3) by (intro rejected_inv [OF assms(1) e act(1,2), where e' = e'])
          (simp_all add: q' insert_index_def settle_rejected_def Let_def)
    next
      case (retried t)
      then show ?thesis
        using assms(3) by (intro retried_inv [OF assms(1) e act(1,2), where e' = e' and t = t])
          (simp_all add: q' insert_index_def settle_retry_def Let_def)
    qed
  qed
qed

lemma fail_unsendable_inv:
  assumes "queue_inv q" "fail_unsendable_assignment w s r q = (res, q')"
  shows "queue_inv q'"
proof (cases "\<exists>e. hm_get (tasks q) (tr_task_id r) = Some e \<and> owned_by e w s")
  case False
  with assms show ?thesis by (auto simp: fail_unsendable_assignment_def Let_def split: option.splits)
next
  case True
  then obtain e where e: "hm_get (tasks q) (tr_task_id r) = Some e" and own: "owned_by e w s" by blast
  show ?thesis
  proof (cases "is_terminal (te_state e)")
    case True
    with assms(2) e own late_inv [OF assms(1) e True, of w] show ?thesis
      by (auto simp: fail_unsendable_assignment_def Let_def)
  next
    case False
    note act = owned_active [OF assms(1) e own False]
    let ?e = "e\<lparr>te_state := Failed, te_error_message := tr_error r, te_result := Some r\<rparr>"
    have "can_transition_to (te_state e) Failed" using act(1) by (cases "te_state e") simp_all
    then have "q' = track_terminal_task (tr_task_id r) (put_entry (tr_task_id r) ?e (unassign w (tr_task_id r) q))"
      using assms(2) e own False by (simp add: fail_unsendable_assignment_def Let_def)
    moreover have "entry_ok (tr_task_id r) ?e" using act(3) by (simp add: entry_finish)
    ultimately show ?thesis using to_terminal_active_inv [OF assms(1) e act(1,2), of ?e] by simp
  qed
qed

end
