(* ===== verification/Queue_Recovery.thy ===== *)
theory Queue_Recovery
  imports Queue_Steps
begin

text \<open>
  The operations that touch many tasks at once: cancellation, the end of a backoff, the loss of
  a worker, and the retention limits.  Their preservation of the invariant needs the intermediate
  states, in which keys are waiting to be inserted and charges to be refreshed.
\<close>

section \<open>Cancellation\<close>

lemma unindex_eq:
  assumes "core {} q" "hm_get (tasks q) tid = Some e" "\<not> is_terminal (te_state e)"
  obtains D' where "snd (unindex_cancelled tid e q) = q\<lparr>ready_queue := bts_remove (order_key e tid) (ready_queue q),
      delayed_retries := D', worker_assignments := release e tid (worker_assignments q)\<rparr>"
    "bts_wf D'" "{k \<in> set (delayed_retries q). dk_task_id k \<noteq> tid} \<subseteq> set D'"
proof -
  have ok: "entry_ok tid e" using core_entry [OF assms(1,2)] .
  consider (queued) "te_state e = Queued" | (retrying) "te_state e = Retrying" | (active) "is_active (te_state e)"
    using live_states(1) [OF ok assms(3)] by (auto simp: is_active_def)
  then show ?thesis
  proof cases
    case queued
    then have "te_assigned_worker_id e = None" using ok by (simp add: entry_ok_def)
    with queued core_wf [OF assms(1)] show ?thesis
      by (intro that [of "delayed_retries q"]) (simp_all add: unindex_cancelled_def ready_remove_def release_none)
  next
    case retrying
    then have w: "te_assigned_worker_id e = None" using ok by (simp add: entry_ok_def)
    obtain t where "te_retry_after_instant e = Some t"
      using assms(1,2) retrying by (auto simp: core_ok_def delayed_ok_def)
    with w retrying core_wf [OF assms(1)] show ?thesis
      by (intro that [of "bts_remove (RetryKey t tid) (delayed_retries q)"])
        (auto simp: unindex_cancelled_def delayed_remove_def release_none ready_absent [OF assms(1,2)] bts_simps)
  next
    case active
    then obtain w where w: "te_assigned_worker_id e = Some w" using ok by (auto simp: entry_ok_def)
    have "te_state e \<noteq> Queued" "te_state e = Scheduled \<or> te_state e = Running"
      using active by (auto simp: is_active_def)
    with w core_wf [OF assms(1)] show ?thesis
      by (intro that [of "delayed_retries q"])
        (auto simp: unindex_cancelled_def unassign_def release_some ready_absent [OF assms(1,2)])
  qed
qed

lemma cancel_detailed_eq:
  assumes "hm_get (tasks q) tid = Some e" "\<not> is_terminal (te_state e)"
  shows "snd (cancel_task_detailed tid reason q) =
    track_terminal_task tid (put_entry tid (cancelled_entry tid reason e) (snd (unindex_cancelled tid e q)))"
  using assms by (simp add: cancel_task_detailed_def Let_def split: prod.splits)

lemma cancel_inv:
  assumes "queue_inv q" "cancel_task_detailed tid reason q = (r, q')"
  shows "queue_inv q'"
proof (cases "\<exists>e. hm_get (tasks q) tid = Some e \<and> \<not> is_terminal (te_state e)")
  case True
  then obtain e where e: "hm_get (tasks q) tid = Some e" "\<not> is_terminal (te_state e)" by blast
  note inv = queue_invD [OF assms(1)]
  have ok: "entry_ok tid e" using core_entry [OF inv(1) e(1)] .
  obtain D' where D': "snd (unindex_cancelled tid e q) = q\<lparr>ready_queue := bts_remove (order_key e tid) (ready_queue q),
      delayed_retries := D', worker_assignments := release e tid (worker_assignments q)\<rparr>"
    "bts_wf D'" "{k \<in> set (delayed_retries q). dk_task_id k \<noteq> tid} \<subseteq> set D'"
    using unindex_eq [OF inv(1) e] .
  let ?e = "cancelled_entry tid reason e"
  have ce: "is_terminal (te_state ?e)" "te_priority ?e = te_priority e" "te_sequence ?e = te_sequence e"
    by (simp_all add: cancelled_entry_def Let_def)
  have eok: "entry_ok tid ?e"
    using entry_finish(1) [OF ok, of Cancelled] live_states(2) [OF ok e(2)] by (simp add: cancelled_entry_def Let_def)
  have "q' = track_terminal_task tid (put_entry tid ?e (q\<lparr>ready_queue := bts_remove (order_key e tid) (ready_queue q),
      delayed_retries := D', worker_assignments := release e tid (worker_assignments q)\<rparr>))"
    using cancel_detailed_eq [OF e, of reason] assms(2) D'(1) by simp
  then show ?thesis using to_terminal_inv(1) [OF assms(1) e eok ce D'(2,3) refl] by simp
next
  case False
  with assms show ?thesis by (auto simp: cancel_task_detailed_def split: option.splits if_splits)
qed

section \<open>Retention limits\<close>

lemma enforce_inv:
  assumes "core {} q" "books_ok {} q" "sums_ok q"
  shows "queue_inv (enforce_terminal_limits q)" "evicted q (enforce_terminal_limits q)"
proof -
  have ok: "evict_ok {} {} q q" using assms by (simp add: evict_ok_def)
  from enforce_ok [OF ok] enforce_limits [OF ok]
  show "queue_inv (enforce_terminal_limits q)" "evicted q (enforce_terminal_limits q)"
    by (auto simp: evict_ok_def intro: queue_invI)
qed

lemma set_max_inv:
  assumes "queue_inv q"
  shows "queue_inv (set_max_terminal_tasks n q)" "queue_inv (set_max_terminal_bytes n q)"
  unfolding set_max_terminal_tasks_def set_max_terminal_bytes_def
  by (rule enforce_inv; use queue_invD [OF assms] in \<open>simp add: books_ok_def sums_ok_def active_ledger.exact_def terminal_ledger.exact_def\<close>)+

lemma limits_shrink:
  assumes "books_ok B q" "limits_ok q" "terminal_order q = x # rest"
  shows "limits_ok (snd (evict_oldest_terminal q))"
proof -
  let ?q = "remove_retained x (q\<lparr>terminal_order := rest\<rparr>)"
  obtain e where "evict_oldest_terminal q = (True, ?q)" using evict_oldest_eq [OF assms(1,3)] by blast
  moreover have "terminal_bytes ?q \<le> terminal_bytes q"
    by (simp add: remove_retained_def terminal_ledger.total_discharge)
  ultimately show ?thesis using assms(2,3) by (auto simp: limits_ok_def over_count_def over_bytes_def)
qed

lemma evict_terminal_eq:
  "snd (evict_terminal_tasks n k q) = evict_while (\<lambda>q. n < length (terminal_order q)) q"
proof (induction n k q rule: evict_terminal_tasks.induct)
  case (1 n k q)
  show ?case
  proof (cases "n < length (terminal_order q)")
    case True
    obtain ok q' where ev: "evict_oldest_terminal q = (ok, q')" by fastforce
    show ?thesis
      using "1.IH" [OF True refl ev [symmetric]] True ev
      by (subst evict_terminal_tasks.simps, subst evict_while.simps) (simp add: Let_def)
  next
    case False
    then show ?thesis by (subst evict_terminal_tasks.simps, subst evict_while.simps) simp
  qed
qed

lemma evict_terminal_inv:
  assumes "queue_inv q" "evict_terminal_tasks n k q = (m, q')"
  shows "queue_inv q'" "evicted q q'"
proof -
  let ?I = "\<lambda>r. evict_ok {} {} q r \<and> limits_ok r"
  have start: "?I q" using queue_invD [OF assms(1)] by (simp add: evict_ok_def)
  have "?I (evict_while (\<lambda>q. n < length (terminal_order q)) q)"
  proof (rule evict_while_rule [where I = ?I, OF start])
    fix r x rest assume r: "?I r" and ord: "terminal_order r = x # rest"
    from r have "books_ok {} r" by (simp add: evict_ok_def)
    with r ord show "?I (snd (evict_oldest_terminal r))"
      by (blast intro: evict_oldest_ok limits_shrink)
  qed
  with evict_terminal_eq [of n k q] assms(2) have "?I q'" by simp
  then show "queue_inv q'" "evicted q q'" by (auto simp: evict_ok_def intro: queue_invI)
qed

section \<open>The end of a backoff\<close>

lemma due_retries_eq:
  "due_retries now D = (map dk_task_id (takeWhile (\<lambda>k. dk_retry_after k \<le> now) D), dropWhile (\<lambda>k. dk_retry_after k \<le> now) D)"
  by (induction D) simp_all

lemma bts_wf_dropWhile: "bts_wf D \<Longrightarrow> bts_wf (dropWhile F D)"
  by (simp add: bts_wf_def sorted_wrt_dropWhile)

text \<open>The invariant while the retries of \<open>P\<close> are on their way to the ready queue.\<close>

definition promoting :: "uuid set \<Rightarrow> TaskQueueInner \<Rightarrow> bool" where
  "promoting P q \<longleftrightarrow> core P q \<and> books_ok {} q \<and> sums_ok q \<and> limits_ok q"

lemma promoting_start:
  assumes "queue_inv q" "due_retries now (delayed_retries q) = (due, rest)"
  shows "promoting (set due) (q\<lparr>delayed_retries := rest\<rparr>)"
proof -
  note inv = queue_invD [OF assms(1)]
  have due: "due = map dk_task_id (takeWhile (\<lambda>k. dk_retry_after k \<le> now) (delayed_retries q))"
    and rest: "rest = dropWhile (\<lambda>k. dk_retry_after k \<le> now) (delayed_retries q)"
    using assms(2) by (simp_all add: due_retries_eq)
  let ?F = "\<lambda>k. dk_retry_after k \<le> now"
  have split: "set (delayed_retries q) = set (takeWhile ?F (delayed_retries q)) \<union> set rest"
    unfolding rest by (subst set_append [symmetric]) simp
  have "delayed_ok (set due) (tasks q) rest"
    unfolding delayed_ok_def
  proof (intro conjI allI impI)
    show "bts_wf rest" unfolding rest by (rule bts_wf_dropWhile [OF core_wf(3) [OF inv(1)]])
    fix tid e assume e: "tid \<notin> set due \<and> hm_get (tasks q) tid = Some e \<and> te_state e = Retrying"
    then obtain t where t: "te_retry_after_instant e = Some t" "RetryKey t tid \<in> set (delayed_retries q)"
      using inv(1) unfolding core_ok_def delayed_ok_def by blast
    have "RetryKey t tid \<notin> set (takeWhile ?F (delayed_retries q))"
      using e unfolding due by force
    with t split show "\<exists>t. te_retry_after_instant e = Some t \<and> RetryKey t tid \<in> set rest" by blast
  qed
  with inv show ?thesis by (simp add: promoting_def core_ok_def)
qed

lemma promote_step:
  assumes "promoting P q"
  shows "promoting (P - {tid}) (promote_retry tid q)"
proof -
  have ok: "core P q" "books_ok {} q" "sums_ok q" "limits_ok q" using assms by (simp_all add: promoting_def)
  show ?thesis
  proof (cases "\<exists>e. hm_get (tasks q) tid = Some e \<and> te_state e = Retrying")
    case True
    then obtain e where e: "hm_get (tasks q) tid = Some e" "te_state e = Retrying" by blast
    let ?e = "e\<lparr>te_state := Queued, te_retry_after_instant := None\<rparr>"
    have eok: "entry_ok tid e" using core_entry [OF ok(1) e(1)] .
    then have e': "entry_ok tid ?e" "te_assigned_worker_id e = None" using e(2) by (auto simp: entry_ok_def)
    have "books_ok {} (put_entry tid ?e q)"
      by (rule books_put_same [OF ok(2) e(1)]) (simp_all add: e(2) retained_bytes_def)
    moreover have "core (P - {tid}) (ready_insert (order_key e tid) (put_entry tid ?e q))"
      using core_to_queued [OF ok(1) e(1) e'(1), of "P - {tid}"] by (simp add: release_none [OF e'(2)])
    moreover have "promote_retry tid q = ready_insert (order_key e tid) (put_entry tid ?e q)"
      using e by (simp add: promote_retry_def)
    ultimately show ?thesis using ok by (simp add: promoting_def)
  next
    case False
    then have "promote_retry tid q = q" by (auto simp: promote_retry_def split: option.splits)
    moreover have "core (P - {tid}) q" using ok(1) False by (auto simp: core_ok_def delayed_ok_def)
    ultimately show ?thesis using ok by (simp add: promoting_def)
  qed
qed

lemma promote_all: "promoting P q \<Longrightarrow> promoting (P - set tids) (fold promote_retry tids q)"
proof (induction tids arbitrary: P q)
  case (Cons tid tids)
  have "P - set (tid # tids) = P - {tid} - set tids" by auto
  with Cons.IH [OF promote_step [OF Cons.prems, of tid]] show ?case by simp
qed simp

lemma process_delayed_inv:
  assumes "queue_inv q" "process_delayed_retries env q = (n, q')"
  shows "queue_inv q'"
proof -
  obtain due rest where due: "due_retries (ce_now env) (delayed_retries q) = (due, rest)" by fastforce
  with assms(2) have "q' = fold promote_retry due (q\<lparr>delayed_retries := rest\<rparr>)"
    by (simp add: process_delayed_retries_def)
  with promote_all [OF promoting_start [OF assms(1) due], of due] show ?thesis
    by (auto simp: promoting_def intro: queue_invI)
qed

section \<open>The loss of a worker\<close>

text \<open>
  While a worker's tasks are swept, the keys of the recovered tasks wait outside the indexes
  (\<open>rr\<close> for the ready queue, \<open>rd\<close> for the delayed retries), the failed tasks wait to be retained
  (\<open>rt\<close>), and the books of all of them are out of date.
\<close>

definition pend_ids :: "QueueOrderKey list \<Rightarrow> DelayedRetryKey list \<Rightarrow> uuid list \<Rightarrow> uuid list" where
  "pend_ids rr rd rt = map qk_task_id rr @ map dk_task_id rd @ rt"

definition in_state :: "TaskQueueInner \<Rightarrow> (TaskState \<Rightarrow> bool) \<Rightarrow> uuid \<Rightarrow> bool" where
  "in_state q F tid \<longleftrightarrow> (\<exists>e. hm_get (tasks q) tid = Some e \<and> F (te_state e))"

definition pend_entries ::
  "QueueOrderKey list \<Rightarrow> DelayedRetryKey list \<Rightarrow> uuid list \<Rightarrow> TaskQueueInner \<Rightarrow> bool" where
  "pend_entries rr rd rt q \<longleftrightarrow>
     (\<forall>k \<in> set rr. in_state q (\<lambda>st. st = Queued) (qk_task_id k))
     \<and> (\<forall>k \<in> set rd. in_state q (\<lambda>st. st = Retrying) (dk_task_id k))
     \<and> (\<forall>i \<in> set rt. in_state q is_terminal i)"

definition pend_books :: "uuid list \<Rightarrow> TaskQueueInner \<Rightarrow> bool" where
  "pend_books ids q \<longleftrightarrow>
     distinct ids \<and> books_ok (set ids) q \<and> stale_le (set ids) q \<and> sums_ok q \<and> limits_ok q"

definition pending_ok ::
  "QueueOrderKey list \<Rightarrow> DelayedRetryKey list \<Rightarrow> uuid list \<Rightarrow> TaskQueueInner \<Rightarrow> bool" where
  "pending_ok rr rd rt q \<longleftrightarrow>
     core_ok {} (tasks q) (fold bts_insert rr (ready_queue q)) (fold bts_insert rd (delayed_retries q))
       (worker_assignments q) (next_sequence q)
     \<and> pend_entries rr rd rt q \<and> pend_books (pend_ids rr rd rt) q"

lemma pending_start: "queue_inv q \<Longrightarrow> pending_ok [] [] [] q"
  by (simp add: queue_inv_def pending_ok_def pend_entries_def pend_books_def pend_ids_def)

lemma pending_end: "pending_ok [] [] [] q \<Longrightarrow> queue_inv q"
  by (simp add: queue_inv_def pending_ok_def pend_entries_def pend_books_def pend_ids_def)

lemma pending_not_active:
  assumes "pend_entries rr rd rt q" "hm_get (tasks q) tid = Some e" "is_active (te_state e)"
  shows "tid \<notin> set (pend_ids rr rd rt)"
  using assms state_fsm.active_not_terminal
  by (fastforce simp: pend_entries_def pend_ids_def in_state_def is_active_def)

lemma pend_entries_put:
  assumes "pend_entries rr rd rt q" "tid \<notin> set (pend_ids rr rd rt)"
  shows "pend_entries rr rd rt (put_entry tid e' (unassign w tid q))"
  using assms unfolding pend_entries_def pend_ids_def in_state_def by (auto simp: hmap_simps)

lemma pend_books_put:
  assumes "pend_books ids q" "tid \<notin> set ids" "hm_get (tasks q) tid = Some e" "is_active (te_state e)"
    and "retained_bytes e \<le> retained_bytes e'" "set js = insert tid (set ids)" "distinct js"
  shows "pend_books js (put_entry tid e' (unassign w tid q))"
proof -
  have b: "books_ok (set ids) q" "stale_le (set ids) q" "sums_ok q" "limits_ok q"
    using assms(1) by (simp_all add: pend_books_def)
  have live: "\<not> is_terminal (te_state e)" using assms(4) by (rule state_fsm.active_not_terminal)
  have "books_ok (insert tid (set ids)) (put_entry tid e' (unassign w tid q))"
    by (rule books_put_stale [where e = e]) (simp_all add: b(1) assms(3) live)
  moreover have "hm_get (active_sizes q) tid = Some (retained_bytes e)"
    using b(1) assms(2,3) live by (simp add: books_ok_def active_charge_def)
  then have "stale_le (insert tid (set ids)) (put_entry tid e' (unassign w tid q))"
    using b(2) assms(2,5) by (auto simp: stale_le_def hmap_simps)
  ultimately show ?thesis using b(3,4) assms(6,7) by (simp add: pend_books_def)
qed

lemma sweep_queued:
  assumes "pending_ok rr rd rt q" "hm_get (tasks q) tid = Some e" "is_active (te_state e)"
    and "te_assigned_worker_id e = Some w" "entry_ok tid e'" "retained_bytes e \<le> retained_bytes e'"
    and "te_priority e' = te_priority e" "te_sequence e' = te_sequence e" "te_state e' = Queued"
  shows "pending_ok (rr @ [order_key e tid]) rd rt (put_entry tid e' (unassign w tid q))"
proof -
  let ?q = "put_entry tid e' (unassign w tid q)"
  have p: "core_ok {} (tasks q) (fold bts_insert rr (ready_queue q)) (fold bts_insert rd (delayed_retries q))
       (worker_assignments q) (next_sequence q)" "pend_entries rr rd rt q" "pend_books (pend_ids rr rd rt) q"
    using assms(1) by (simp_all add: pending_ok_def)
  note new = pending_not_active [OF p(2) assms(2,3)]
  have "core_ok {} (tasks ?q) (fold bts_insert (rr @ [order_key e tid]) (ready_queue ?q))
      (fold bts_insert rd (delayed_retries ?q)) (worker_assignments ?q) (next_sequence ?q)"
    using core_to_queued [OF p(1) assms(2,5,9,7,8), of "{}"] by (simp add: release_some [OF assms(4)])
  moreover have "pend_entries (rr @ [order_key e tid]) rd rt ?q"
    using pend_entries_put [OF p(2) new, of e' w] assms(9) by (auto simp: pend_entries_def in_state_def hmap_simps)
  moreover have "pend_books (pend_ids (rr @ [order_key e tid]) rd rt) ?q"
    by (rule pend_books_put [OF p(3) new assms(2,3,6)])
      (use p(3) new in \<open>auto simp: pend_ids_def pend_books_def\<close>)
  ultimately show ?thesis by (simp add: pending_ok_def)
qed

lemma sweep_retrying:
  assumes "pending_ok rr rd rt q" "hm_get (tasks q) tid = Some e" "is_active (te_state e)"
    and "te_assigned_worker_id e = Some w" "entry_ok tid e'" "retained_bytes e \<le> retained_bytes e'"
    and "te_priority e' = te_priority e" "te_sequence e' = te_sequence e" "te_state e' = Retrying"
    and "te_retry_after_instant e' = Some t"
  shows "pending_ok rr (rd @ [RetryKey t tid]) rt (put_entry tid e' (unassign w tid q))"
proof -
  let ?q = "put_entry tid e' (unassign w tid q)"
  have p: "core_ok {} (tasks q) (fold bts_insert rr (ready_queue q)) (fold bts_insert rd (delayed_retries q))
       (worker_assignments q) (next_sequence q)" "pend_entries rr rd rt q" "pend_books (pend_ids rr rd rt) q"
    using assms(1) by (simp_all add: pending_ok_def)
  note new = pending_not_active [OF p(2) assms(2,3)]
  have "te_state e \<noteq> Queued" using assms(3) by auto
  then have "core_ok {} (tasks ?q) (fold bts_insert rr (ready_queue ?q))
      (fold bts_insert (rd @ [RetryKey t tid]) (delayed_retries ?q)) (worker_assignments ?q) (next_sequence ?q)"
    using core_to_retrying [OF p(1) assms(2) _ assms(5,9,10,7,8)] by (simp add: release_some [OF assms(4)])
  moreover have "pend_entries rr (rd @ [RetryKey t tid]) rt ?q"
    using pend_entries_put [OF p(2) new, of e' w] assms(9) by (auto simp: pend_entries_def in_state_def hmap_simps)
  moreover have "pend_books (pend_ids rr (rd @ [RetryKey t tid]) rt) ?q"
    by (rule pend_books_put [OF p(3) new assms(2,3,6)])
      (use p(3) new in \<open>auto simp: pend_ids_def pend_books_def\<close>)
  ultimately show ?thesis by (simp add: pending_ok_def)
qed

lemma sweep_terminal:
  assumes "pending_ok rr rd rt q" "hm_get (tasks q) tid = Some e" "is_active (te_state e)"
    and "te_assigned_worker_id e = Some w" "entry_ok tid e'" "retained_bytes e \<le> retained_bytes e'"
    and "te_priority e' = te_priority e" "te_sequence e' = te_sequence e" "is_terminal (te_state e')"
  shows "pending_ok rr rd (rt @ [tid]) (put_entry tid e' (unassign w tid q))"
proof -
  let ?q = "put_entry tid e' (unassign w tid q)"
  have p: "core_ok {} (tasks q) (fold bts_insert rr (ready_queue q)) (fold bts_insert rd (delayed_retries q))
       (worker_assignments q) (next_sequence q)" "pend_entries rr rd rt q" "pend_books (pend_ids rr rd rt) q"
    using assms(1) by (simp_all add: pending_ok_def)
  note new = pending_not_active [OF p(2) assms(2,3)]
  have "te_state e \<noteq> Queued" using assms(3) by auto
  then have "core_ok {} (tasks ?q) (fold bts_insert rr (ready_queue ?q))
      (fold bts_insert rd (delayed_retries ?q)) (worker_assignments ?q) (next_sequence ?q)"
    using core_to_terminal [OF p(1) assms(2,5,9,7,8) core_wf(3) [OF p(1)]] ready_absent [OF p(1) assms(2)]
    by (simp add: release_some [OF assms(4)])
  moreover have "pend_entries rr rd (rt @ [tid]) ?q"
    using pend_entries_put [OF p(2) new, of e' w] assms(9) by (auto simp: pend_entries_def in_state_def hmap_simps)
  moreover have "pend_books (pend_ids rr rd (rt @ [tid])) ?q"
    by (rule pend_books_put [OF p(3) new assms(2,3,6)])
      (use p(3) new in \<open>auto simp: pend_ids_def pend_books_def\<close>)
  ultimately show ?thesis by (simp add: pending_ok_def)
qed

lemma history_bytes_append: "history_bytes (h @ [a]) = history_bytes h + history_bytes [a]"
  by (simp add: history_bytes_def)

lemma failover_ok:
  assumes "entry_ok tid e" "is_active (te_state e)"
  shows "entry_ok tid ((failover_entry env w reason e)\<lparr>te_state := Queued, te_scheduled_instant := None,
      te_started_instant := None, te_retry_after_instant := None\<rparr>)"
    and "entry_ok tid ((failover_entry env w reason e)\<lparr>te_state := Retrying, te_retry_after_instant := t\<rparr>)"
    and "retained_bytes e \<le> retained_bytes ((failover_entry env w reason e)\<lparr>te_state := Queued,
      te_scheduled_instant := None, te_started_instant := None, te_retry_after_instant := None\<rparr>)"
    and "retained_bytes e \<le> retained_bytes ((failover_entry env w reason e)\<lparr>te_state := Retrying,
      te_retry_after_instant := t\<rparr>)"
proof -
  have "\<not> is_terminal (te_state e)" using assms(2) by (rule state_fsm.active_not_terminal)
  with assms show "entry_ok tid ((failover_entry env w reason e)\<lparr>te_state := Queued, te_scheduled_instant := None,
      te_started_instant := None, te_retry_after_instant := None\<rparr>)"
    and "entry_ok tid ((failover_entry env w reason e)\<lparr>te_state := Retrying, te_retry_after_instant := t\<rparr>)"
    by (simp_all add: entry_ok_def failover_entry_def)
qed (simp_all add: retained_bytes_def failover_entry_def history_bytes_append)

lemma exhausted_ok:
  assumes "entry_ok tid e" "is_active (te_state e)"
  shows "entry_ok tid (exhausted_entry env cap w reason e tid)"
    and "retained_bytes e \<le> retained_bytes (exhausted_entry env cap w reason e tid)"
proof -
  have "\<not> is_terminal (te_state e)" using assms(2) by (rule state_fsm.active_not_terminal)
  then have "te_result e = None" "te_error_message e = None" using live_states(2,4) [OF assms(1)] by simp_all
  with assms show "entry_ok tid (exhausted_entry env cap w reason e tid)"
    and "retained_bytes e \<le> retained_bytes (exhausted_entry env cap w reason e tid)"
    by (simp_all add: entry_ok_def exhausted_entry_def Let_def retained_bytes_def)
qed

definition sweep_ok :: "sweep \<Rightarrow> bool" where
  "sweep_ok s \<longleftrightarrow> pending_ok (sw_ready s) (sw_delays s) (sw_terminal s) (sw_queue s)"

lemma sweep_task_cases:
  obtains (skip) "sweep_task env p w session reason imm tid s = s"
      "\<And>e. hm_get (tasks (sw_queue s)) tid = Some e \<Longrightarrow> carries e w \<Longrightarrow> \<not> session_matches session e"
  | (again) e where "hm_get (tasks (sw_queue s)) tid = Some e" "carries e w" "session_matches session e"
      "fst (failover_budget p e)" "rp_retry_on_worker_disconnect p"
      "sweep_task env p w session reason imm tid s =
        s\<lparr>sw_queue := put_entry tid ((failover_entry env w reason e)\<lparr>te_state := Queued, te_scheduled_instant := None,
            te_started_instant := None, te_retry_after_instant := None\<rparr>) (unassign w tid (sw_queue s)),
          sw_affected := sw_affected s @ [tid], sw_ready := sw_ready s @ [order_key e tid]\<rparr>"
  | (later) e t where "hm_get (tasks (sw_queue s)) tid = Some e" "carries e w" "session_matches session e"
      "fst (failover_budget p e)" "rp_retry_on_worker_disconnect p"
      "sweep_task env p w session reason imm tid s =
        s\<lparr>sw_queue := put_entry tid ((failover_entry env w reason e)\<lparr>te_state := Retrying,
            te_retry_after_instant := Some t\<rparr>) (unassign w tid (sw_queue s)),
          sw_affected := sw_affected s @ [tid], sw_delays := sw_delays s @ [RetryKey t tid]\<rparr>"
  | (exhausted) e where "hm_get (tasks (sw_queue s)) tid = Some e" "carries e w" "session_matches session e"
      "\<not> (rp_retry_on_worker_disconnect p \<and> fst (failover_budget p e))"
      "sweep_task env p w session reason imm tid s =
        s\<lparr>sw_queue := put_entry tid (exhausted_entry env (snd (failover_budget p e)) w reason e tid)
            (unassign w tid (sw_queue s)),
          sw_affected := sw_affected s @ [tid], sw_terminal := sw_terminal s @ [tid]\<rparr>"
proof (cases "\<exists>e. hm_get (tasks (sw_queue s)) tid = Some e \<and> carries e w \<and> session_matches session e")
  case False
  then have "sweep_task env p w session reason imm tid s = s"
    by (auto simp: sweep_task_def carries_def split: option.splits)
  with False skip show ?thesis by blast
next
  case True
  then obtain e where e: "hm_get (tasks (sw_queue s)) tid = Some e" "carries e w" "session_matches session e" by blast
  then have go: "is_active (te_state e)" "te_assigned_worker_id e = Some w" by (simp_all add: carries_def)
  obtain left cap where b: "failover_budget p e = (left, cap)" by fastforce
  let ?delay = "if imm then 0 else calculate_backoff p (te_failover_count (failover_entry env w reason e))"
  consider "rp_retry_on_worker_disconnect p \<and> left" "?delay = 0" | "rp_retry_on_worker_disconnect p \<and> left" "?delay \<noteq> 0"
    | "\<not> (rp_retry_on_worker_disconnect p \<and> left)" by blast
  then show ?thesis
  proof cases
    case 1
    with e go b show ?thesis by (intro again [OF e]) (simp_all add: sweep_task_def Let_def)
  next
    case 2
    with e go b show ?thesis
      by (intro later [OF e, where t = "ce_now env + millis ?delay"]) (simp_all add: sweep_task_def Let_def)
  next
    case 3
    with e go b show ?thesis by (intro exhausted [OF e]) (auto simp: sweep_task_def Let_def)
  qed
qed

lemma sweep_task_ok:
  assumes "sweep_ok s"
  shows "sweep_ok (sweep_task env p w session reason imm tid s)"
proof -
  have p: "pending_ok (sw_ready s) (sw_delays s) (sw_terminal s) (sw_queue s)"
    using assms by (simp add: sweep_ok_def)
  have ok: "entry_ok tid e" if "hm_get (tasks (sw_queue s)) tid = Some e" for e
    using p core_entry that by (auto simp: pending_ok_def)
  show ?thesis
  proof (cases rule: sweep_task_cases [of env p w session reason imm tid s])
    case skip
    with assms show ?thesis by simp
  next
    case (again e)
    from again(2) have go: "is_active (te_state e)" "te_assigned_worker_id e = Some w" by (simp_all add: carries_def)
    note fo = failover_ok [OF ok [OF again(1)] go(1)]
    show ?thesis
      unfolding again(6) sweep_ok_def
      using sweep_queued [OF p again(1) go fo(1,3)] by (simp add: failover_entry_def)
  next
    case (later e t)
    from later(2) have go: "is_active (te_state e)" "te_assigned_worker_id e = Some w" by (simp_all add: carries_def)
    note fo = failover_ok [OF ok [OF later(1)] go(1)]
    show ?thesis
      unfolding later(6) sweep_ok_def
      using sweep_retrying [OF p later(1) go fo(2,4)] by (simp add: failover_entry_def)
  next
    case (exhausted e)
    from exhausted(2) have go: "is_active (te_state e)" "te_assigned_worker_id e = Some w" by (simp_all add: carries_def)
    note ex = exhausted_ok [OF ok [OF exhausted(1)] go(1)]
    show ?thesis
      unfolding exhausted(5) sweep_ok_def
      using sweep_terminal [OF p exhausted(1) go ex] by (simp add: exhausted_entry_def Let_def)
  qed
qed

lemma sweep_fold_ok: "sweep_ok s \<Longrightarrow> sweep_ok (fold (sweep_task env p w session reason imm) tids s)"
  by (induction tids arbitrary: s) (simp_all add: sweep_task_ok)

lemma sweep_all_ok: "queue_inv q \<Longrightarrow> sweep_ok (sweep_all env w session reason imm q)"
  unfolding sweep_all_def by (rule sweep_fold_ok) (simp add: sweep_ok_def pending_start)

lemma pend_books_update:
  assumes "pend_books ids q" "hm_wf (tasks q)" "fits q" "hm_get (tasks q) tid = Some e" "\<not> is_terminal (te_state e)"
    and "set js = set ids - {tid}" "distinct js"
  shows "pend_books js (update_active_task tid q)"
proof -
  have b: "books_ok (set ids) q" "stale_le (set ids) q" "sums_ok q" "limits_ok q"
    using assms(1) by (simp_all add: pend_books_def)
  have s: "stale_le (set ids - {tid}) q" using b(2) by (simp add: stale_le_def)
  have "books_ok (set js) (update_active_task tid q)"
    unfolding assms(6) using b(1) assms(4,5) by (rule books_update)
  moreover have "sums_ok (update_active_task tid q)"
    using b(3,1) s assms(2-5) by (rule sums_update)
  moreover have "stale_le (set js) (update_active_task tid q)"
    using s assms(6) by (auto simp: stale_le_def active_sizes_update)
  ultimately show ?thesis using b(4) assms(7) by (simp add: pend_books_def)
qed

lemma stale_frame [simp]:
  "stale_le B (ready_insert k q) = stale_le B q"
  "stale_le B (delayed_insert d q) = stale_le B q"
  by (simp_all add: stale_le_def)

lemma pend_books_frame [simp]:
  "pend_books ids (ready_insert k q) = pend_books ids q"
  "pend_books ids (delayed_insert d q) = pend_books ids q"
  by (simp_all add: pend_books_def)

lemma pend_entries_frame [simp]:
  "pend_entries rr rd rt (ready_insert k q) = pend_entries rr rd rt q"
  "pend_entries rr rd rt (delayed_insert d q) = pend_entries rr rd rt q"
  "pend_entries rr rd rt (update_active_task tid q) = pend_entries rr rd rt q"
  "pend_entries rr rd rt (q\<lparr>worker_assignments := A\<rparr>) = pend_entries rr rd rt q"
  by (simp_all add: pend_entries_def in_state_def)

lemma flush_delay:
  assumes "pending_ok rr (k # rd) rt q" "fits q"
  shows "pending_ok rr rd rt (update_active_task (dk_task_id k) (delayed_insert k q))" (is "pending_ok _ _ _ ?q")
proof -
  have p: "core_ok {} (tasks q) (fold bts_insert rr (ready_queue q)) (fold bts_insert (k # rd) (delayed_retries q))
       (worker_assignments q) (next_sequence q)" "pend_entries rr (k # rd) rt q" "pend_books (pend_ids rr (k # rd) rt) q"
    using assms(1) by (simp_all add: pending_ok_def)
  obtain e where e: "hm_get (tasks q) (dk_task_id k) = Some e" "te_state e = Retrying"
    using p(2) by (auto simp: pend_entries_def in_state_def)
  have "pend_books (pend_ids rr rd rt) ?q"
    by (rule pend_books_update [where e = e and ids = "pend_ids rr (k # rd) rt"])
      (use p(3) e core_wf(1) [OF p(1)] assms(2) in \<open>auto simp: fits_def pend_books_def pend_ids_def\<close>)
  moreover have "pend_entries rr rd rt q" using p(2) by (simp add: pend_entries_def)
  ultimately show ?thesis using p(1) by (simp add: pending_ok_def)
qed

lemma flush_ready:
  assumes "pending_ok (k # rr) rd rt q" "fits q"
  shows "pending_ok rr rd rt (update_active_task (qk_task_id k) (ready_insert k q))" (is "pending_ok _ _ _ ?q")
proof -
  have p: "core_ok {} (tasks q) (fold bts_insert (k # rr) (ready_queue q)) (fold bts_insert rd (delayed_retries q))
       (worker_assignments q) (next_sequence q)" "pend_entries (k # rr) rd rt q" "pend_books (pend_ids (k # rr) rd rt) q"
    using assms(1) by (simp_all add: pending_ok_def)
  obtain e where e: "hm_get (tasks q) (qk_task_id k) = Some e" "te_state e = Queued"
    using p(2) by (auto simp: pend_entries_def in_state_def)
  have "pend_books (pend_ids rr rd rt) ?q"
    by (rule pend_books_update [where e = e and ids = "pend_ids (k # rr) rd rt"])
      (use p(3) e core_wf(1) [OF p(1)] assms(2) in \<open>auto simp: fits_def pend_books_def pend_ids_def\<close>)
  moreover have "pend_entries rr rd rt q" using p(2) by (simp add: pend_entries_def)
  ultimately show ?thesis using p(1) by (simp add: pending_ok_def)
qed

lemma flush_terminal:
  assumes "pending_ok [] [] (i # rt) q"
  shows "pending_ok [] [] rt (track_terminal_task i q)" and "evicted q (track_terminal_task i q)"
proof -
  let ?t = "track_terminal_task i q"
  have p: "core {} q" "pend_entries [] [] (i # rt) q" "pend_books (i # rt) q"
    using assms by (simp_all add: pending_ok_def pend_ids_def)
  obtain e where e: "hm_get (tasks q) i = Some e" "is_terminal (te_state e)"
    using p(2) by (auto simp: pend_entries_def in_state_def)
  have b: "books_ok (set (i # rt)) q" "stale_le (set (i # rt)) q" "sums_ok q" and dist: "i \<notin> set rt" "distinct rt"
    using p(3) by (simp_all add: pend_books_def)
  have s: "stale_le (set (i # rt) - {i}) q" using b(2) by (simp add: stale_le_def)
  have B: "set (i # rt) - {i} = set rt" using dist by auto
  have ok: "evict_ok {} (set rt) q ?t" and lim: "limits_ok ?t"
    using track_terminal_ok [OF p(1) b(1,3) s _ e] unfolding B by simp_all
  show "evicted q ?t" using ok by (simp add: evict_ok_def)
  have "pend_entries [] [] rt ?t"
    using ok p(2) by (auto simp: evict_ok_def pend_entries_def in_state_def)
  with ok lim dist show "pending_ok [] [] rt ?t"
    by (simp add: pending_ok_def evict_ok_def pend_books_def pend_ids_def)
qed

lemma flush_delays:
  "pending_ok rr rd rt q \<Longrightarrow> fits q \<Longrightarrow>
     pending_ok rr [] rt (fold (\<lambda>k q. update_active_task (dk_task_id k) (delayed_insert k q)) rd q)
     \<and> tasks (fold (\<lambda>k q. update_active_task (dk_task_id k) (delayed_insert k q)) rd q) = tasks q"
proof (induction rd arbitrary: q)
  case (Cons k rd)
  have "fits (update_active_task (dk_task_id k) (delayed_insert k q))" using Cons.prems(2) by (simp add: fits_def)
  with Cons.IH [OF flush_delay [OF Cons.prems]] show ?case by simp
qed simp

lemma flush_readies:
  "pending_ok rr rd rt q \<Longrightarrow> fits q \<Longrightarrow>
     pending_ok [] rd rt (fold (\<lambda>k q. update_active_task (qk_task_id k) (ready_insert k q)) rr q)
     \<and> tasks (fold (\<lambda>k q. update_active_task (qk_task_id k) (ready_insert k q)) rr q) = tasks q"
proof (induction rr arbitrary: q)
  case (Cons k rr)
  have "fits (update_active_task (qk_task_id k) (ready_insert k q))" using Cons.prems(2) by (simp add: fits_def)
  with Cons.IH [OF flush_ready [OF Cons.prems]] show ?case by simp
qed simp

lemma flush_terminals:
  "pending_ok [] [] rt q \<Longrightarrow>
     pending_ok [] [] [] (fold track_terminal_task rt q) \<and> evicted q (fold track_terminal_task rt q)"
proof (induction rt arbitrary: q)
  case (Cons i rt)
  from Cons.IH [OF flush_terminal(1) [OF Cons.prems]] flush_terminal(2) [OF Cons.prems] show ?case
    by (auto intro: evicted_trans)
qed simp

lemma drop_empty_tasks [simp]: "tasks (drop_empty_assignment w q) = tasks q"
  by (simp add: drop_empty_assignment_def split: option.splits list.splits)

lemma drop_empty_ok: "pending_ok rr rd rt q \<Longrightarrow> pending_ok rr rd rt (drop_empty_assignment w q)"
proof (cases "hm_get (worker_assignments q) w = Some []")
  case True
  assume p: "pending_ok rr rd rt q"
  have ids: "assigned_ids (hm_del w (worker_assignments q)) v = assigned_ids (worker_assignments q) v" for v
    using True by (simp add: assigned_ids_def hmap_simps)
  moreover have "assign_wf (worker_assignments q) \<Longrightarrow> assign_wf (hm_del w (worker_assignments q))"
    by (auto simp: assign_wf_def hmap_simps split: if_splits)
  moreover have "drop_empty_assignment w q = q\<lparr>worker_assignments := hm_del w (worker_assignments q)\<rparr>"
    using True by (simp add: drop_empty_assignment_def)
  ultimately show ?thesis
    using p by (simp add: pending_ok_def core_ok_def assign_ok_def pend_books_def stale_le_def)
next
  case False
  then have "drop_empty_assignment w q = q"
    by (simp add: drop_empty_assignment_def split: option.splits list.splits)
  then show "pending_ok rr rd rt q \<Longrightarrow> ?thesis" by simp
qed

text \<open>The whole sweep, with the one relation between the states before and after its flushing.\<close>

lemma disconnect_ok:
  assumes "queue_inv q" "fits (sw_queue (sweep_all env w session reason imm q))"
    and "handle_session_disconnected env w session reason imm q = (ids, q')"
  shows "queue_inv q'" "ids = sw_affected (sweep_all env w session reason imm q)"
    "forgets (tasks (sw_queue (sweep_all env w session reason imm q))) (tasks q')"
proof -
  let ?s = "sweep_all env w session reason imm q"
  let ?q1 = "drop_empty_assignment w (sw_queue ?s)"
  let ?q2 = "fold (\<lambda>k q. update_active_task (dk_task_id k) (delayed_insert k q)) (sw_delays ?s) ?q1"
  let ?q3 = "fold (\<lambda>k q. update_active_task (qk_task_id k) (ready_insert k q)) (sw_ready ?s) ?q2"
  have 1: "pending_ok (sw_ready ?s) (sw_delays ?s) (sw_terminal ?s) ?q1"
    using sweep_all_ok [OF assms(1)] by (intro drop_empty_ok) (simp add: sweep_ok_def)
  have f1: "fits ?q1" using assms(2) by (simp add: fits_def)
  have 2: "pending_ok (sw_ready ?s) [] (sw_terminal ?s) ?q2" "tasks ?q2 = tasks ?q1"
    using flush_delays [OF 1 f1] by simp_all
  have f2: "fits ?q2" using f1 2(2) by (simp add: fits_def)
  have 3: "pending_ok [] [] (sw_terminal ?s) ?q3" "tasks ?q3 = tasks ?q2"
    using flush_readies [OF 2(1) f2] by simp_all
  have q': "q' = fold track_terminal_task (sw_terminal ?s) ?q3"
    and "ids = sw_affected ?s"
    using assms(3) by (simp_all add: handle_session_disconnected_def Let_def)
  then show "ids = sw_affected ?s" by simp
  show "queue_inv q'" unfolding q' using flush_terminals [OF 3(1)] by (simp add: pending_end)
  show "forgets (tasks (sw_queue ?s)) (tasks q')"
    unfolding q' using flush_terminals [OF 3(1)] 3(2) 2(2) by (simp add: evicted_def)
qed

end
