(* ===== verification/Queue_System.thy ===== *)
theory Queue_System
  imports Queue_Recovery
begin

text \<open>
  The queue as a transition system: one rule per operation of \<^verbatim>\<open>TaskQueue\<close> that changes its state,
  in any order, with any arguments and any clock.  The invariant is established by the constructor
  and kept by every step; the abstract life of a task is what one step may do to one entry.
\<close>

section \<open>The step relation\<close>

text \<open>
  The premise \<open>fits\<close> says that the payloads of the tasks in memory fit the address space; without
  it the saturating byte counters stop being exact.
\<close>

inductive queue_step :: "TaskQueueInner \<Rightarrow> TaskQueueInner \<Rightarrow> bool" where
  step_submit: "submit_with_priority env task pr q = (r, q') \<Longrightarrow> fits q' \<Longrightarrow> queue_step q q'"
| step_try_submit: "try_submit_slot env q0 slot q = (r2, slot', q') \<Longrightarrow> fits q' \<Longrightarrow> queue_step q q'"
| step_pop: "pop_and_schedule env w pred q = (picked, q') \<Longrightarrow> queue_step q q'"
| step_schedule: "schedule_task env tid w q = (picked, q') \<Longrightarrow> queue_step q q'"
| step_batch: "schedule_batch_inner env as q = (sent, q') \<Longrightarrow> queue_step q q'"
| step_requeue: "requeue_task tid q = (r3, q') \<Longrightarrow> queue_step q q'"
| step_dispatch_failure: "requeue_dispatch_failure tid w sess q = (r4, q') \<Longrightarrow> queue_step q q'"
| step_running: "mark_running_from env w osess tid q = (r3, q') \<Longrightarrow> queue_step q q'"
| step_checkpoint: "record_checkpoint tid cp q = (r3, q') \<Longrightarrow> fits q' \<Longrightarrow> queue_step q q'"
| step_checkpoint_from: "record_checkpoint_from w osess tid cp q = (r4, q') \<Longrightarrow> fits q' \<Longrightarrow> queue_step q q'"
| step_result: "record_result_from env w osess res q = (r5, q') \<Longrightarrow> fits q' \<Longrightarrow> queue_step q q'"
| step_unsendable: "fail_unsendable_assignment w osess res q = (r6, q') \<Longrightarrow> queue_step q q'"
| step_disconnect: "handle_session_disconnected env w osess reason imm q = (ids, q') \<Longrightarrow>
    fits (sw_queue (sweep_all env w osess reason imm q)) \<Longrightarrow> queue_step q q'"
| step_delayed: "process_delayed_retries env q = (n, q') \<Longrightarrow> queue_step q q'"
| step_cancel: "cancel_task_detailed tid why q = (r7, q') \<Longrightarrow> queue_step q q'"
| step_max_tasks: "queue_step q (set_max_terminal_tasks n q)"
| step_max_bytes: "queue_step q (set_max_terminal_bytes n q)"
| step_evict: "evict_terminal_tasks n 0 q = (m, q') \<Longrightarrow> queue_step q q'"

definition queue_init :: "TaskQueueInner \<Rightarrow> bool" where
  "queue_init q \<longleftrightarrow> (\<exists>p cap n b a. q = with_retention_limits p cap n b a)"

lemma queue_inv_init: "queue_init q \<Longrightarrow> queue_inv q"
  by (auto simp: queue_init_def with_retention_limits_def queue_inv_def core_ok_def tasks_ok_def ready_ok_def
      delayed_ok_def assign_ok_def assign_wf_def assigned_ids_def books_ok_def active_charge_def terminal_charge_def
      sums_ok_def active_ledger.exact_def terminal_ledger.exact_def limits_ok_def over_count_def over_bytes_def)

lemma schedule_batch_result_inv:
  "queue_inv q \<Longrightarrow> schedule_batch_inner env as q = (sent, q') \<Longrightarrow> queue_inv q'"
  using schedule_batch_inv [of q env as] by simp

lemmas queue_op_invs = submit_inv try_submit_inv pop_and_schedule_inv schedule_task_inv schedule_batch_result_inv
  requeue_task_inv requeue_dispatch_failure_inv mark_running_from_inv record_checkpoint_inv
  record_checkpoint_from_inv record_result_from_inv fail_unsendable_inv process_delayed_inv cancel_inv

lemma queue_inv_step: "queue_step q q' \<Longrightarrow> queue_inv q \<Longrightarrow> queue_inv q'"
proof (induction rule: queue_step.induct)
  case (step_disconnect env w osess reason imm q ids q')
  then show ?case using disconnect_ok(1) by blast
next
  case (step_evict n q m q')
  then show ?case using evict_terminal_inv(1) by blast
next
  case (step_max_tasks q n)
  then show ?case by (rule set_max_inv)
next
  case (step_max_bytes q n)
  then show ?case by (rule set_max_inv)
qed (blast intro: queue_op_invs)+

interpretation queue: invariant_system queue_init queue_step queue_inv
  using queue_inv_init queue_inv_step by unfold_locales

abbreviation reachable :: "TaskQueueInner \<Rightarrow> bool" where
  "reachable \<equiv> reach queue_init queue_step"

section \<open>The life of a task\<close>

text \<open>What a step may do to an entry that it keeps: the abstract specification of the queue.\<close>

definition same_task :: "TaskEntry \<Rightarrow> TaskEntry \<Rightarrow> bool" where
  "same_task e e' \<longleftrightarrow>
     (\<exists>cp. te_task e' = (te_task e)\<lparr>t_latest_checkpoint := cp\<rparr>)
     \<and> te_priority e' = te_priority e \<and> te_sequence e' = te_sequence e
     \<and> te_submitted_at_utc e' = te_submitted_at_utc e \<and> te_submitted_instant e' = te_submitted_instant e"

definition checkpoint_seq :: "TaskEntry \<Rightarrow> nat" where
  "checkpoint_seq e = (case t_latest_checkpoint (te_task e) of None \<Rightarrow> 0 | Some cp \<Rightarrow> cp_sequence cp + 1)"

text \<open>The counters move together, and only within the budgets of the policy.\<close>

definition count_step :: "RetryPolicy \<Rightarrow> TaskEntry \<Rightarrow> TaskEntry \<Rightarrow> bool" where
  "count_step p e e' \<longleftrightarrow>
     te_retry_count e' = te_retry_count e \<and> te_failover_count e' = te_failover_count e
     \<or> te_retry_count e' = te_retry_count e + 1 \<and> te_failover_count e' = te_failover_count e + 1
        \<and> rp_retry_on_worker_disconnect p \<and> fst (failover_budget p e)
     \<or> te_retry_count e' = te_retry_count e + 1 \<and> te_failover_count e' = te_failover_count e
        \<and> rp_retry_on_execution_failure p \<and> te_retry_count e - te_failover_count e < rp_max_retries p"

text \<open>A task that is with a worker was with that worker, in that session, before.\<close>

definition held :: "TaskEntry \<Rightarrow> TaskEntry \<Rightarrow> bool" where
  "held e e' \<longleftrightarrow>
     (is_active (te_state e') \<longrightarrow> is_active (te_state e)
        \<and> te_assigned_worker_id e' = te_assigned_worker_id e \<and> te_assigned_session e' = te_assigned_session e)"

definition entry_step :: "RetryPolicy \<Rightarrow> TaskEntry \<Rightarrow> TaskEntry \<Rightarrow> bool" where
  "entry_step p e e' \<longleftrightarrow>
     \<not> is_terminal (te_state e)
     \<and> (te_state e' = te_state e \<or> can_transition_to (te_state e) (te_state e'))
     \<and> same_task e e' \<and> checkpoint_seq e \<le> checkpoint_seq e'
     \<and> (\<exists>more. te_retry_history e' = te_retry_history e @ more)
     \<and> count_step p e e'
     \<and> te_rejection_count e \<le> te_rejection_count e' \<and> set (te_avoid_workers e) \<subseteq> set (te_avoid_workers e')
     \<and> (held e e' \<or> te_state e = Queued \<and> te_state e' = Scheduled)"

text \<open>A step that hands no task out, and one that starts none either.\<close>

definition kept :: "TaskEntry \<Rightarrow> TaskEntry \<Rightarrow> bool" where
  "kept e e' \<longleftrightarrow>
     (is_active (te_state e') \<longrightarrow> te_state e' = te_state e
        \<and> te_assigned_worker_id e' = te_assigned_worker_id e \<and> te_assigned_session e' = te_assigned_session e)"

definition calm_step :: "RetryPolicy \<Rightarrow> TaskEntry \<Rightarrow> TaskEntry \<Rightarrow> bool" where
  "calm_step p e e' \<longleftrightarrow> entry_step p e e' \<and> held e e'"

definition still_step :: "RetryPolicy \<Rightarrow> TaskEntry \<Rightarrow> TaskEntry \<Rightarrow> bool" where
  "still_step p e e' \<longleftrightarrow> entry_step p e e' \<and> kept e e'"

inductive life :: "(TaskEntry \<Rightarrow> TaskEntry \<Rightarrow> bool) \<Rightarrow> TaskEntry option \<Rightarrow> TaskEntry option \<Rightarrow> bool" for R where
  life_keep: "life R x x"
| life_admit: "te_state e = Queued \<Longrightarrow> te_retry_count e = 0 \<Longrightarrow> te_failover_count e = 0 \<Longrightarrow> life R None (Some e)"
| life_move: "R e e' \<Longrightarrow> life R (Some e) (Some e')"
| life_forget: "is_terminal (te_state e) \<Longrightarrow> life R (Some e) None"
| life_finish: "R e e' \<Longrightarrow> is_terminal (te_state e') \<Longrightarrow> life R (Some e) None"

definition lives_by ::
  "(RetryPolicy \<Rightarrow> TaskEntry \<Rightarrow> TaskEntry \<Rightarrow> bool) \<Rightarrow> TaskQueueInner \<Rightarrow> TaskQueueInner \<Rightarrow> bool" where
  "lives_by R q q' \<longleftrightarrow> (\<forall>tid. life (R (retry_policy q)) (hm_get (tasks q) tid) (hm_get (tasks q') tid))"

abbreviation lives :: "TaskQueueInner \<Rightarrow> TaskQueueInner \<Rightarrow> bool" where
  "lives \<equiv> lives_by entry_step"

abbreviation calm :: "TaskQueueInner \<Rightarrow> TaskQueueInner \<Rightarrow> bool" where
  "calm \<equiv> lives_by calm_step"

abbreviation still :: "TaskQueueInner \<Rightarrow> TaskQueueInner \<Rightarrow> bool" where
  "still \<equiv> lives_by still_step"

lemma kept_held: "kept e e' \<Longrightarrow> held e e'"
  by (auto simp: kept_def held_def)

lemma life_mono: "life R x y \<Longrightarrow> (\<And>e e'. R e e' \<Longrightarrow> S e e') \<Longrightarrow> life S x y"
  by (induction rule: life.induct) (auto intro: life.intros)

lemma lives_by_mono:
  assumes "lives_by R q q'" "\<And>p e e'. R p e e' \<Longrightarrow> S p e e'"
  shows "lives_by S q q'"
  unfolding lives_by_def
proof
  fix tid
  have "life (R (retry_policy q)) (hm_get (tasks q) tid) (hm_get (tasks q') tid)" using assms(1) by (simp add: lives_by_def)
  then show "life (S (retry_policy q)) (hm_get (tasks q) tid) (hm_get (tasks q') tid)" by (rule life_mono) (rule assms(2))
qed

lemma calm_lives: "calm q q' \<Longrightarrow> lives q q'"
  by (erule lives_by_mono) (simp add: calm_step_def)

lemma still_calm: "still q q' \<Longrightarrow> calm q q'"
  by (erule lives_by_mono) (simp add: still_step_def calm_step_def kept_held)

lemma lives_refl [simp]: "lives_by R q q"
  by (simp add: lives_by_def life_keep)

lemma lives_same: "tasks q' = tasks q \<Longrightarrow> lives_by R q q'"
  by (simp add: lives_by_def life_keep)

lemma lives_put:
  assumes "hm_get (tasks q) tid = Some e" "R (retry_policy q) e e'" "tasks q' = hm_put tid e' (tasks q)"
  shows "lives_by R q q'"
  using assms by (auto simp: lives_by_def hmap_simps intro: life.intros)

lemma lives_admit:
  assumes "hm_get (tasks q) tid = None" "te_state e = Queued" "te_retry_count e = 0" "te_failover_count e = 0"
    and "tasks q' = hm_put tid e (tasks q)"
  shows "lives_by R q q'"
  using assms by (auto simp: lives_by_def hmap_simps intro: life.intros)

lemma lives_forgets:
  assumes "lives_by R q r" "forgets (tasks r) (tasks q')"
  shows "lives_by R q q'"
  unfolding lives_by_def
proof
  fix tid
  have l: "life (R (retry_policy q)) (hm_get (tasks q) tid) (hm_get (tasks r) tid)" using assms(1) by (simp add: lives_by_def)
  consider "hm_get (tasks q') tid = hm_get (tasks r) tid"
    | e where "hm_get (tasks q') tid = None" "hm_get (tasks r) tid = Some e" "is_terminal (te_state e)"
    using assms(2) by (auto simp: forgets_def)
  then show "life (R (retry_policy q)) (hm_get (tasks q) tid) (hm_get (tasks q') tid)"
  proof cases
    case 1
    with l show ?thesis by simp
  next
    case 2
    with l show ?thesis by (cases rule: life.cases) (auto intro: life.intros)
  qed
qed

lemma evicted_forgets: "evicted q q' \<Longrightarrow> forgets (tasks q) (tasks q')"
  by (simp add: evicted_def)

section \<open>Every operation refines the life of its tasks\<close>

lemma task_checkpoint_id [simp]: "\<exists>cp. (t :: Task) = t\<lparr>t_latest_checkpoint := cp\<rparr>"
  by (rule exI [of _ "t_latest_checkpoint t"]) simp

lemma entry_stepI:
  assumes "\<not> is_terminal (te_state e)" "te_state e' = te_state e \<or> can_transition_to (te_state e) (te_state e')"
    and "te_task e' = te_task e" "te_priority e' = te_priority e" "te_sequence e' = te_sequence e"
    and "te_submitted_at_utc e' = te_submitted_at_utc e" "te_submitted_instant e' = te_submitted_instant e"
    and "\<exists>more. te_retry_history e' = te_retry_history e @ more"
    and "count_step p e e'"
    and "te_rejection_count e \<le> te_rejection_count e'" "set (te_avoid_workers e) \<subseteq> set (te_avoid_workers e')"
    and "held e e' \<or> te_state e = Queued \<and> te_state e' = Scheduled"
  shows "entry_step p e e'"
  using assms by (simp add: entry_step_def same_task_def checkpoint_seq_def)

lemma calm_stepI:
  assumes "\<not> is_terminal (te_state e)" "te_state e' = te_state e \<or> can_transition_to (te_state e) (te_state e')"
    and "te_task e' = te_task e" "te_priority e' = te_priority e" "te_sequence e' = te_sequence e"
    and "te_submitted_at_utc e' = te_submitted_at_utc e" "te_submitted_instant e' = te_submitted_instant e"
    and "\<exists>more. te_retry_history e' = te_retry_history e @ more"
    and "count_step p e e'"
    and "te_rejection_count e \<le> te_rejection_count e'" "set (te_avoid_workers e) \<subseteq> set (te_avoid_workers e')"
    and "held e e'"
  shows "calm_step p e e'"
  using entry_stepI [OF assms(1-11)] assms(12) by (simp add: calm_step_def)

lemma still_stepI:
  assumes "\<not> is_terminal (te_state e)" "te_state e' = te_state e \<or> can_transition_to (te_state e) (te_state e')"
    and "te_task e' = te_task e" "te_priority e' = te_priority e" "te_sequence e' = te_sequence e"
    and "te_submitted_at_utc e' = te_submitted_at_utc e" "te_submitted_instant e' = te_submitted_instant e"
    and "\<exists>more. te_retry_history e' = te_retry_history e @ more"
    and "count_step p e e'"
    and "te_rejection_count e \<le> te_rejection_count e'" "set (te_avoid_workers e) \<subseteq> set (te_avoid_workers e')"
    and "kept e e'"
  shows "still_step p e e'"
  using entry_stepI [OF assms(1-11)] assms(12) kept_held [OF assms(12)] by (simp add: still_step_def)

lemma active_go:
  assumes "is_active st"
  shows "can_transition_to st Queued" "can_transition_to st Retrying" "can_transition_to st Completed"
    "can_transition_to st Failed" "can_transition_to st Cancelled"
  using assms by (cases st; simp)+

lemma scheduled_step: "te_state e = Queued \<Longrightarrow> entry_step p e (mark_scheduled env w s e)"
  by (rule entry_stepI) (simp_all add: count_step_def mark_scheduled_def)

lemma schedule_task_lives: "schedule_task env tid w q = (r, q') \<Longrightarrow> lives q q'"
  by (auto simp: schedule_task_def split: option.splits if_splits intro!: lives_put scheduled_step)

lemma pop_lives:
  assumes "pop_and_schedule env w pred q = (r, q')" "queue_inv q"
  shows "lives q q'"
proof -
  let ?F = "\<lambda>k. case hm_get (tasks q) (qk_task_id k) of
      Some e \<Rightarrow> te_state e = Queued \<and> pred (t_requirements (te_task e)) | None \<Rightarrow> False"
  show ?thesis
  proof (cases "find ?F (ready_queue q)")
    case None
    with assms(1) show ?thesis by (simp add: pop_and_schedule_def)
  next
    case (Some k)
    then obtain e where e: "hm_get (tasks q) (qk_task_id k) = Some e" "te_state e = Queued"
      using find_SomeD [OF Some] by (auto split: option.splits)
    with assms(1) Some have "tasks q' = hm_put (qk_task_id k) (mark_scheduled env w None e) (tasks q)"
      by (auto simp: pop_and_schedule_def Let_def)
    then show ?thesis by (rule lives_put [where R = entry_step, OF e(1) scheduled_step [OF e(2)]])
  qed
qed

text \<open>A batch schedules each task at most once.\<close>

lemma batch_entries:
  assumes "schedule_batch_inner env as q = (sent, q')"
  shows "hm_get (tasks q') tid = hm_get (tasks q) tid
    \<or> (\<exists>e w s. hm_get (tasks q) tid = Some e \<and> te_state e = Queued \<and> hm_get (tasks q') tid = Some (mark_scheduled env w s e))"
  using assms
proof (induction env as q arbitrary: sent q' rule: schedule_batch_inner.induct)
  case (2 env i w s rest q)
  show ?case
  proof (cases "\<exists>e. hm_get (tasks q) i = Some e \<and> te_state e = Queued")
    case True
    then obtain e where e: "hm_get (tasks q) i = Some e" "te_state e = Queued" by blast
    let ?q = "assign_to w i (put_entry i (mark_scheduled env w s e) (ready_remove (order_key e i) q))"
    obtain sent' where "schedule_batch_inner env rest ?q = (sent', q')"
      using "2.prems" e by (auto simp: Let_def split: prod.splits)
    from "2.IH"(3) [OF e(1) _ refl this] e
    consider "hm_get (tasks q') tid = hm_get (tasks ?q) tid"
      | f v t where "hm_get (tasks ?q) tid = Some f" "te_state f = Queued" "hm_get (tasks q') tid = Some (mark_scheduled env v t f)"
      by auto
    then show ?thesis using e by cases (auto simp: hmap_simps mark_scheduled_def split: if_splits)
  next
    case False
    show ?thesis
    proof (cases "hm_get (tasks q) i")
      case None
      with "2.IH"(1) [OF None] "2.prems" show ?thesis by simp
    next
      case (Some e)
      with False have "te_state e \<noteq> Queued" by simp
      with "2.IH"(2) [OF Some] "2.prems" Some show ?thesis by simp
    qed
  qed
qed simp

lemma batch_lives: "schedule_batch_inner env as q = (sent, q') \<Longrightarrow> lives q q'"
  unfolding lives_by_def
proof
  fix tid assume "schedule_batch_inner env as q = (sent, q')"
  from batch_entries [OF this, of tid] show "life (entry_step (retry_policy q)) (hm_get (tasks q) tid) (hm_get (tasks q') tid)"
  proof (elim disjE exE conjE)
    fix e v t assume e: "hm_get (tasks q) tid = Some e" "te_state e = Queued"
      "hm_get (tasks q') tid = Some (mark_scheduled env v t e)"
    show ?thesis unfolding e(1,3) by (rule life_move) (rule scheduled_step [OF e(2)])
  qed (simp add: life_keep)
qed

lemma admit_new_lives:
  assumes "hm_get (tasks q) (t_id task) = None"
  shows "still q (admit (new_entry env task pr n) b (q\<lparr>next_sequence := m\<rparr>))"
  by (rule lives_admit [OF assms, where e = "new_entry env task pr n"]) (simp_all add: new_entry_def)

lemma submit_lives:
  assumes "submit_with_priority env task pr q = (r, q')"
  shows "still q q'"
  using assms by (cases rule: submit_cases) (simp_all add: lives_same admit_new_lives)

lemma try_submit_lives:
  assumes "try_submit_slot env q0 slot q = (r, slot', q')"
  shows "still q q'"
  using assms by (cases rule: try_submit_cases) (simp_all add: admit_new_lives)

lemma requeue_task_lives:
  assumes "requeue_task tid q = (r, q')" "queue_inv q"
  shows "still q q'"
proof (cases "\<exists>e. hm_get (tasks q) tid = Some e \<and> \<not> is_terminal (te_state e)")
  case True
  then obtain e where e: "hm_get (tasks q) tid = Some e" "\<not> is_terminal (te_state e)" by blast
  have ok: "entry_ok tid e" using core_entry [OF queue_invD(1) [OF assms(2)] e(1)] .
  have "te_state e = Queued \<or> can_transition_to (te_state e) Queued"
    using live_states(1) [OF ok e(2)] by auto
  then have "still_step (retry_policy q) e (e\<lparr>te_assigned_session := None, te_assigned_worker_id := None,
      te_state := Queued, te_scheduled_instant := None\<rparr>)"
    using e(2) by (intro still_stepI) (auto simp: count_step_def kept_def)
  then show ?thesis
    using assms(1) e by (intro lives_put [OF e(1)]) (auto simp: requeue_task_def Let_def split: option.splits)
next
  case False
  with assms(1) show ?thesis by (auto simp: requeue_task_def split: option.splits if_splits)
qed

lemma requeue_dispatch_failure_lives:
  assumes "requeue_dispatch_failure tid w s q = (r, q')"
  shows "still q q'"
proof (cases "\<exists>e. hm_get (tasks q) tid = Some e \<and> te_state e = Scheduled \<and> owned_by e w (Some s)")
  case True
  then obtain e where e: "hm_get (tasks q) tid = Some e" "te_state e = Scheduled" "owned_by e w (Some s)" by blast
  then have "still_step (retry_policy q) e (e\<lparr>te_state := Queued, te_assigned_worker_id := None, te_assigned_session := None,
      te_scheduled_instant := None\<rparr>)"
    by (intro still_stepI) (simp_all add: count_step_def kept_def)
  with assms e show ?thesis by (intro lives_put [OF e(1)]) (auto simp: requeue_dispatch_failure_def Let_def)
next
  case False
  with assms show ?thesis by (auto simp: requeue_dispatch_failure_def split: option.splits if_splits)
qed

lemma mark_running_lives:
  assumes "mark_running_from env w s tid q = (r, q')"
  shows "calm q q'"
proof (cases "\<exists>e. hm_get (tasks q) tid = Some e \<and> owned_by e w s \<and> can_transition_to (te_state e) Running")
  case True
  then obtain e where e: "hm_get (tasks q) tid = Some e" and own: "owned_by e w s"
    and go: "can_transition_to (te_state e) Running" by blast
  have "\<not> is_terminal (te_state e)" "is_active (te_state e)" using go by (cases "te_state e"; simp)+
  then have "calm_step (retry_policy q) e (e\<lparr>te_state := Running, te_started_instant := Some (ce_now env)\<rparr>)"
    using go by (intro calm_stepI) (simp_all add: count_step_def held_def)
  with assms e own go show ?thesis by (intro lives_put [OF e]) (auto simp: mark_running_from_def)
next
  case False
  with assms show ?thesis by (auto simp: mark_running_from_def split: option.splits if_splits)
qed

text \<open>Eviction forgets finished tasks only, whatever state the books are in.\<close>

lemma forgets_refl [simp]: "forgets T T"
  by (simp add: forgets_def)

lemma evict_oldest_forgets: "forgets (tasks q) (tasks (snd (evict_oldest_terminal q)))"
  by (auto simp: evict_oldest_terminal_def Let_def forgets_def hmap_simps split: list.splits option.splits)

lemma evict_while_forgets: "forgets (tasks q) (tasks (evict_while over q))"
proof (rule evict_while_rule [where I = "\<lambda>r. forgets (tasks q) (tasks r)"])
  fix r :: TaskQueueInner and x rest assume "forgets (tasks q) (tasks r)"
  then show "forgets (tasks q) (tasks (snd (evict_oldest_terminal r)))"
    using evict_oldest_forgets by (rule forgets_trans)
qed simp

lemma enforce_forgets: "forgets (tasks q) (tasks (enforce_terminal_limits q))"
  unfolding enforce_terminal_limits_def by (rule forgets_trans [OF evict_while_forgets evict_while_forgets])

lemma track_forgets: "forgets (tasks q) (tasks (track_terminal_task tid q))"
proof (cases "hm_get (terminal_sizes (untrack_active_task tid q)) tid")
  case None
  let ?c = "charge_terminal tid (map_or_zero retained_bytes (hm_get (tasks q) tid)) (untrack_active_task tid q)"
  have "track_terminal_task tid q = enforce_terminal_limits (?c\<lparr>terminal_order := terminal_order ?c @ [tid]\<rparr>)"
    using None by (simp add: track_terminal_task_def)
  then show ?thesis
    using enforce_forgets [of "?c\<lparr>terminal_order := terminal_order ?c @ [tid]\<rparr>"] by simp
qed (simp add: track_terminal_task_def)

lemma finish_lives:
  assumes "hm_get (tasks q) tid = Some e" "still_step (retry_policy q) e e'" "tasks q1 = hm_put tid e' (tasks q)"
  shows "still q (track_terminal_task i q1)"
  by (rule lives_forgets [OF lives_put [where R = still_step, OF assms] track_forgets])

lemma store_checkpoint_lives:
  assumes "store_checkpoint tid e cp q = (r, q')" "hm_get (tasks q) tid = Some e" "\<not> is_terminal (te_state e)"
  shows "still q q'"
proof (cases "checkpoint_exceeds_active_cap e cp (active_bytes q) (max_active_bytes q) = None \<and> is_newer_checkpoint e cp")
  case True
  let ?e = "e\<lparr>te_task := update_checkpoint cp (te_task e)\<rparr>"
  have "still_step (retry_policy q) e ?e"
    using True assms(3)
    by (auto simp: still_step_def entry_step_def count_step_def held_def kept_def same_task_def checkpoint_seq_def update_checkpoint_def is_newer_checkpoint_def
        split: option.splits)
  moreover have "tasks q' = hm_put tid ?e (tasks q)"
    using True assms(1) by (auto simp: store_checkpoint_def apply_checkpoint_def Let_def)
  ultimately show ?thesis by (rule lives_put [OF assms(2)])
next
  case False
  then have "q' = q"
    using assms(1,2) by (auto simp: store_checkpoint_def apply_checkpoint_def put_entry_same split: option.splits)
  then show ?thesis by simp
qed

lemma record_checkpoint_lives:
  assumes "record_checkpoint tid cp q = (r, q')"
  shows "still q q'"
proof (cases "\<exists>e. hm_get (tasks q) tid = Some e \<and> \<not> is_terminal (te_state e)")
  case True
  then obtain e where e: "hm_get (tasks q) tid = Some e" "\<not> is_terminal (te_state e)" by blast
  obtain r' where "store_checkpoint tid e cp q = (r', q')"
    using assms e by (auto simp: record_checkpoint_def split: prod.splits)
  then show ?thesis by (rule store_checkpoint_lives [OF _ e])
next
  case False
  with assms show ?thesis by (auto simp: record_checkpoint_def split: option.splits if_splits)
qed

lemma record_checkpoint_from_lives:
  assumes "record_checkpoint_from w s tid cp q = (r, q')"
  shows "still q q'"
proof (cases "\<exists>e. hm_get (tasks q) tid = Some e \<and> is_active (te_state e) \<and> owned_by e w s")
  case True
  then obtain e where e: "hm_get (tasks q) tid = Some e" "is_active (te_state e)" "owned_by e w s" by blast
  then have "store_checkpoint tid e cp q = (r, q')" using assms by (simp add: record_checkpoint_from_def)
  then show ?thesis using e(1) state_fsm.active_not_terminal [OF e(2)] by (rule store_checkpoint_lives)
next
  case False
  with assms show ?thesis by (auto simp: record_checkpoint_from_def split: option.splits if_splits)
qed

lemma settle_rejected_step:
  assumes "is_active (te_state e)" "rp_retry_on_worker_disconnect p" "fst (failover_budget p e)"
  shows "still_step p e (settle_rejected env w r e)"
  using assms active_go [OF assms(1)] state_fsm.active_not_terminal [OF assms(1)]
  by (intro still_stepI) (auto simp: count_step_def kept_def settle_rejected_def Let_def)

lemma settle_retry_step:
  assumes "is_active (te_state e)" "rp_retry_on_execution_failure p"
    and "te_retry_count e - te_failover_count e < rp_max_retries p"
  shows "still_step p e (settle_retry env p w r e)"
  using assms active_go [OF assms(1)] state_fsm.active_not_terminal [OF assms(1)]
  by (intro still_stepI) (auto simp: count_step_def kept_def settle_retry_def Let_def)

lemma settle_final_step:
  assumes "is_active (te_state e)" "can_transition_to (te_state e) st" "\<not> is_active st"
  shows "still_step p e (e\<lparr>te_state := st, te_error_message := m, te_result := Some r\<rparr>)"
    and "still_step p e (e\<lparr>te_state := st, te_result := Some r\<rparr>)"
  using assms state_fsm.active_not_terminal [OF assms(1)]
  by (intro still_stepI; simp add: count_step_def kept_def)+

lemma settle_step:
  assumes "settle env p w r e = Inr (e', k, disp)" "is_active (te_state e)"
  shows "still_step p e e'"
proof -
  note go = active_go [OF assms(2)]
  let ?rej = "is_worker_rejection r \<and> rp_retry_on_worker_disconnect p
      \<and> te_rejection_count e < MAX_WORKER_REJECTIONS_PER_TASK \<and> fst (failover_budget p e)"
  let ?rerun = "rp_retry_on_execution_failure p \<and> te_retry_count e - te_failover_count e < rp_max_retries p"
  consider "is_success r" | "\<not> is_success r" "tr_exit_code r = 130"
    | "\<not> is_success r" "tr_exit_code r \<noteq> 130" ?rej
    | "\<not> is_success r" "tr_exit_code r \<noteq> 130" "\<not> ?rej" ?rerun
    | "\<not> is_success r" "tr_exit_code r \<noteq> 130" "\<not> ?rej" "\<not> ?rerun"
    by blast
  then show ?thesis
  proof cases
    case 1
    with assms go show ?thesis by (auto simp: settle_def settle_final_step)
  next
    case 2
    with assms go show ?thesis by (auto simp: settle_def Let_def settle_final_step)
  next
    case 3
    with assms have "e' = settle_rejected env w r e" by (simp add: settle_def)
    with 3 assms(2) show ?thesis by (simp add: settle_rejected_step)
  next
    case 4
    with assms have "e' = settle_retry env p w r e" by (simp add: settle_def Let_def)
    with 4 assms(2) show ?thesis by (simp add: settle_retry_step)
  next
    case 5
    with assms go show ?thesis by (auto simp: settle_def settle_final_step)
  qed
qed

lemma record_result_lives:
  assumes "record_result_from env w s r q = (res, q')" "queue_inv q"
  shows "still q q'"
proof (cases "\<exists>e. hm_get (tasks q) (tr_task_id r) = Some e \<and> owned_by e w s \<and> \<not> is_terminal (te_state e)")
  case False
  then have "tasks q' = tasks q"
    using assms(1) by (auto simp: record_result_from_def Let_def split: option.splits if_splits)
  then show ?thesis by (rule lives_same)
next
  case True
  then obtain e where e: "hm_get (tasks q) (tr_task_id r) = Some e" "owned_by e w s" "\<not> is_terminal (te_state e)" by blast
  note act = owned_active [OF assms(2) e]
  obtain e' k disp where set: "settle env (retry_policy q) w r e = Inr (e', k, disp)"
    using settle_total [OF act(1)] .
  let ?q = "insert_index k (put_entry (tr_task_id r) e' (unassign w (tr_task_id r) q))"
  have "tasks ?q = hm_put (tr_task_id r) e' (tasks q)" by (simp add: insert_index_def split: result_index.splits)
  then have "still q ?q" "still q (track_terminal_task (tr_task_id r) ?q)"
    using settle_step [OF set act(1)] e(1) by (blast intro: lives_put finish_lives)+
  moreover have "q' = (if is_terminal (te_state e') then track_terminal_task (tr_task_id r)
          else update_active_task (tr_task_id r)) ?q"
    using assms(1) e set by (auto simp: record_result_from_def Let_def)
  ultimately show ?thesis by (auto simp: lives_by_def)
qed

lemma fail_unsendable_lives:
  assumes "fail_unsendable_assignment w s r q = (res, q')"
  shows "still q q'"
proof (cases "\<exists>e. hm_get (tasks q) (tr_task_id r) = Some e \<and> owned_by e w s \<and> \<not> is_terminal (te_state e)
    \<and> can_transition_to (te_state e) Failed")
  case False
  then have "tasks q' = tasks q"
    using assms by (auto simp: fail_unsendable_assignment_def Let_def split: option.splits if_splits)
  then show ?thesis by (rule lives_same)
next
  case True
  then obtain e where e: "hm_get (tasks q) (tr_task_id r) = Some e" "owned_by e w s" "\<not> is_terminal (te_state e)"
    and go: "can_transition_to (te_state e) Failed" by blast
  let ?e = "e\<lparr>te_state := Failed, te_error_message := tr_error r, te_result := Some r\<rparr>"
  have step: "still_step (retry_policy q) e ?e" using e(3) go by (intro still_stepI) (simp_all add: count_step_def kept_def)
  have "q' = track_terminal_task (tr_task_id r) (put_entry (tr_task_id r) ?e (unassign w (tr_task_id r) q))"
    using assms e go by (simp add: fail_unsendable_assignment_def Let_def)
  then show ?thesis using finish_lives [OF e(1) step] by simp
qed

lemma cancel_lives:
  assumes "cancel_task_detailed tid reason q = (r, q')" "queue_inv q"
  shows "still q q'"
proof (cases "\<exists>e. hm_get (tasks q) tid = Some e \<and> \<not> is_terminal (te_state e)")
  case True
  then obtain e where e: "hm_get (tasks q) tid = Some e" "\<not> is_terminal (te_state e)" by blast
  have "can_transition_to (te_state e) Cancelled" using e(2) by (cases "te_state e") simp_all
  then have step: "still_step (retry_policy q) e (cancelled_entry tid reason e)"
    using e(2) by (intro still_stepI) (simp_all add: count_step_def kept_def cancelled_entry_def Let_def)
  have "tasks (snd (unindex_cancelled tid e q)) = tasks q"
    by (simp add: unindex_cancelled_def split: TaskState.splits option.splits)
  then have "still q (track_terminal_task tid (put_entry tid (cancelled_entry tid reason e) (snd (unindex_cancelled tid e q))))"
    by (intro finish_lives [OF e(1) step]) simp
  with cancel_detailed_eq [OF e, of reason] assms(1) show ?thesis by simp
next
  case False
  with assms(1) show ?thesis by (auto simp: cancel_task_detailed_def split: option.splits if_splits)
qed

lemma promoted_step:
  assumes "te_state e = Retrying"
  shows "still_step p e (e\<lparr>te_state := Queued, te_retry_after_instant := None\<rparr>)"
  using assms by (intro still_stepI) (simp_all add: count_step_def kept_def)

lemma promote_entries:
  "hm_get (tasks (fold promote_retry tids q)) tid =
     (case hm_get (tasks q) tid of
        Some e \<Rightarrow> if tid \<in> set tids \<and> te_state e = Retrying
                  then Some (e\<lparr>te_state := Queued, te_retry_after_instant := None\<rparr>) else Some e
      | None \<Rightarrow> None)"
proof (induction tids arbitrary: q)
  case (Cons i tids)
  have "hm_get (tasks (promote_retry i q)) tid =
     (case hm_get (tasks q) tid of
        Some e \<Rightarrow> if tid = i \<and> te_state e = Retrying
                  then Some (e\<lparr>te_state := Queued, te_retry_after_instant := None\<rparr>) else Some e
      | None \<Rightarrow> None)"
    by (auto simp: promote_retry_def hmap_simps split: option.splits)
  then show ?case by (auto simp: Cons.IH split: option.splits)
qed (simp split: option.splits)

lemma delayed_entries:
  assumes "process_delayed_retries env q = (n, q')"
  shows "hm_get (tasks q') tid =
     (case hm_get (tasks q) tid of
        Some e \<Rightarrow> if tid \<in> set (fst (due_retries (ce_now env) (delayed_retries q))) \<and> te_state e = Retrying
                  then Some (e\<lparr>te_state := Queued, te_retry_after_instant := None\<rparr>) else Some e
      | None \<Rightarrow> None)"
proof -
  obtain due rest where due: "due_retries (ce_now env) (delayed_retries q) = (due, rest)" by fastforce
  with assms have "q' = fold promote_retry due (q\<lparr>delayed_retries := rest\<rparr>)"
    by (simp add: process_delayed_retries_def)
  with due show ?thesis by (cases "hm_get (tasks q) tid") (simp_all add: promote_entries)
qed

lemma delayed_lives: "process_delayed_retries env q = (n, q') \<Longrightarrow> still q q'"
  by (auto simp: lives_by_def delayed_entries intro: life_keep life_move promoted_step split: option.splits)

text \<open>What the sweep of a lost worker has done to the tasks it has visited.\<close>

definition swept_entry :: "RetryPolicy \<Rightarrow> TaskEntry \<Rightarrow> TaskEntry \<Rightarrow> bool" where
  "swept_entry p e e' \<longleftrightarrow>
     entry_step p e e' \<and> te_assigned_worker_id e' = None
     \<and> (if rp_retry_on_worker_disconnect p \<and> fst (failover_budget p e)
        then te_state e' \<in> {Queued, Retrying} \<and> te_retry_count e' = te_retry_count e + 1
          \<and> te_failover_count e' = te_failover_count e + 1
        else te_state e' = Failed \<and> te_retry_count e' = te_retry_count e
          \<and> te_failover_count e' = te_failover_count e \<and> te_result e' \<noteq> None)"

text \<open>The task is with the worker, and its assignment is not known to be newer than the lost session.\<close>

definition lost_task :: "uuid \<Rightarrow> nat option \<Rightarrow> TaskQueueInner \<Rightarrow> uuid \<Rightarrow> bool" where
  "lost_task w session q tid \<longleftrightarrow>
     (\<exists>e. hm_get (tasks q) tid = Some e \<and> is_active (te_state e) \<and> te_assigned_worker_id e = Some w
        \<and> \<not> (\<exists>lost assigned. session = Some lost \<and> te_assigned_session e = Some assigned \<and> lost < assigned))"

lemma lost_task_iff:
  "lost_task w session q tid \<longleftrightarrow> (\<exists>e. hm_get (tasks q) tid = Some e \<and> carries e w \<and> session_matches session e)"
  by (auto simp: lost_task_def carries_def session_matches_def not_less split: option.splits)

definition sweep_rel ::
  "RetryPolicy \<Rightarrow> uuid \<Rightarrow> nat option \<Rightarrow> TaskQueueInner \<Rightarrow> sweep \<Rightarrow> bool" where
  "sweep_rel p w session q s \<longleftrightarrow>
     (\<forall>tid. if tid \<in> set (sw_affected s)
        then \<exists>e e'. hm_get (tasks q) tid = Some e \<and> carries e w \<and> session_matches session e
               \<and> hm_get (tasks (sw_queue s)) tid = Some e' \<and> swept_entry p e e'
        else hm_get (tasks (sw_queue s)) tid = hm_get (tasks q) tid)"

lemma failover_step:
  assumes "carries e w" "rp_retry_on_worker_disconnect p" "fst (failover_budget p e)"
  shows "swept_entry p e ((failover_entry env w reason e)\<lparr>te_state := Queued, te_scheduled_instant := None,
      te_started_instant := None, te_retry_after_instant := None\<rparr>)"
    and "swept_entry p e ((failover_entry env w reason e)\<lparr>te_state := Retrying, te_retry_after_instant := Some t\<rparr>)"
proof -
  have act: "is_active (te_state e)" using assms(1) by (simp add: carries_def)
  note go = active_go [OF act] state_fsm.active_not_terminal [OF act]
  show "swept_entry p e ((failover_entry env w reason e)\<lparr>te_state := Queued, te_scheduled_instant := None,
      te_started_instant := None, te_retry_after_instant := None\<rparr>)"
    and "swept_entry p e ((failover_entry env w reason e)\<lparr>te_state := Retrying, te_retry_after_instant := Some t\<rparr>)"
    using assms(2,3) go by (auto simp: swept_entry_def count_step_def held_def failover_entry_def intro!: entry_stepI)
qed

lemma exhausted_step:
  assumes "carries e w" "\<not> (rp_retry_on_worker_disconnect p \<and> fst (failover_budget p e))"
  shows "swept_entry p e (exhausted_entry env cap w reason e tid)"
proof -
  have act: "is_active (te_state e)" using assms(1) by (simp add: carries_def)
  note go = active_go [OF act] state_fsm.active_not_terminal [OF act]
  show ?thesis
    using assms(2) go by (auto simp: swept_entry_def count_step_def held_def exhausted_entry_def Let_def intro!: entry_stepI)
qed

lemma swept_not_carried: "swept_entry p e e' \<Longrightarrow> \<not> carries e' v"
  by (simp add: swept_entry_def carries_def)

lemma sweep_rel_affected:
  assumes "sweep_rel p w session q s" "tid \<in> set (sw_affected s)"
  obtains e e' where "hm_get (tasks q) tid = Some e" "carries e w" "session_matches session e"
    "hm_get (tasks (sw_queue s)) tid = Some e'" "swept_entry p e e'"
proof -
  have "\<exists>e e'. hm_get (tasks q) tid = Some e \<and> carries e w \<and> session_matches session e
       \<and> hm_get (tasks (sw_queue s)) tid = Some e' \<and> swept_entry p e e'"
    using assms(1) [unfolded sweep_rel_def, THEN spec, of tid] assms(2) by simp
  with that show ?thesis by blast
qed

lemma sweep_rel_other:
  assumes "sweep_rel p w session q s" "tid \<notin> set (sw_affected s)"
  shows "hm_get (tasks (sw_queue s)) tid = hm_get (tasks q) tid"
  using assms(1) [unfolded sweep_rel_def, THEN spec, of tid] assms(2) by simp

lemma sweep_rel_add:
  assumes "sweep_rel p w session q s" "hm_get (tasks (sw_queue s)) tid = Some e" "carries e w"
    and "session_matches session e" "swept_entry p e e'"
    and "sw_affected s' = sw_affected s @ [tid]" "tasks (sw_queue s') = hm_put tid e' (tasks (sw_queue s))"
  shows "sweep_rel p w session q s'"
proof -
  have "tid \<notin> set (sw_affected s)"
  proof
    assume "tid \<in> set (sw_affected s)"
    with assms(1) obtain e0 e1 where "hm_get (tasks (sw_queue s)) tid = Some e1" "swept_entry p e0 e1"
      by (rule sweep_rel_affected)
    with assms(2,3) show False using swept_not_carried by simp
  qed
  then have old: "hm_get (tasks q) tid = Some e" using sweep_rel_other [OF assms(1)] assms(2) by simp
  show ?thesis
    unfolding sweep_rel_def
  proof
    fix i
    show "if i \<in> set (sw_affected s')
        then \<exists>e e'. hm_get (tasks q) i = Some e \<and> carries e w \<and> session_matches session e
               \<and> hm_get (tasks (sw_queue s')) i = Some e' \<and> swept_entry p e e'
        else hm_get (tasks (sw_queue s')) i = hm_get (tasks q) i"
      using assms(1) [unfolded sweep_rel_def, THEN spec, of i] old assms(3-7)
      by (cases "i = tid") (auto simp: hmap_simps)
  qed
qed

lemma sweep_task_rel:
  assumes "sweep_rel p w session q s"
  shows "sweep_rel p w session q (sweep_task env p w session reason imm tid s)"
proof (cases rule: sweep_task_cases [of env p w session reason imm tid s])
  case skip
  with assms show ?thesis by simp
next
  case (again e)
  then show ?thesis
    by (intro sweep_rel_add [OF assms again(1-3) failover_step(1)]) simp_all
next
  case (later e t)
  then show ?thesis
    by (intro sweep_rel_add [OF assms later(1-3) failover_step(2)]) simp_all
next
  case (exhausted e)
  then show ?thesis
    by (intro sweep_rel_add [OF assms exhausted(1-3) exhausted_step]) simp_all
qed

lemma sweep_fold_rel:
  "sweep_rel p w session q s \<Longrightarrow> sweep_rel p w session q (fold (sweep_task env p w session reason imm) tids s)"
  by (induction tids arbitrary: s) (simp_all add: sweep_task_rel)

lemma sweep_all_rel: "sweep_rel (retry_policy q) w session q (sweep_all env w session reason imm q)"
  unfolding sweep_all_def by (rule sweep_fold_rel) (simp add: sweep_rel_def)

lemma sweep_task_affected:
  "set (sw_affected s) \<subseteq> set (sw_affected (sweep_task env p w session reason imm tid s))"
  by (cases rule: sweep_task_cases [of env p w session reason imm tid s]) auto

lemma sweep_fold_affected:
  "set (sw_affected s) \<subseteq> set (sw_affected (fold (sweep_task env p w session reason imm) tids s))"
proof (induction tids arbitrary: s)
  case (Cons i tids)
  then show ?case using sweep_task_affected [of s env p w session reason imm i] by fastforce
qed simp

lemma sweep_task_takes:
  assumes "sweep_rel p w session q s" "lost_task w session q tid"
  shows "tid \<in> set (sw_affected (sweep_task env p w session reason imm tid s))"
proof (cases "tid \<in> set (sw_affected s)")
  case True
  then show ?thesis using sweep_task_affected by blast
next
  case False
  obtain e where e: "hm_get (tasks (sw_queue s)) tid = Some e" "carries e w" "session_matches session e"
    using assms(2) sweep_rel_other [OF assms(1) False] by (auto simp: lost_task_iff)
  show ?thesis
    by (cases rule: sweep_task_cases [of env p w session reason imm tid s]) (use e in auto)
qed

lemma sweep_fold_takes:
  assumes "sweep_rel p w session q s" "tid \<in> set tids" "lost_task w session q tid"
  shows "tid \<in> set (sw_affected (fold (sweep_task env p w session reason imm) tids s))"
  using assms
proof (induction tids arbitrary: s)
  case (Cons i tids)
  let ?s = "sweep_task env p w session reason imm i s"
  show ?case
  proof (cases "tid = i")
    case True
    then have "tid \<in> set (sw_affected ?s)" using sweep_task_takes [OF Cons.prems(1,3)] by simp
    then show ?thesis using sweep_fold_affected [of ?s env p w session reason imm tids] by auto
  next
    case False
    then show ?thesis using Cons.IH [OF sweep_task_rel [OF Cons.prems(1)] _ Cons.prems(3)] Cons.prems(2) by simp
  qed
qed simp

lemma set_fold_hs_insert:
  "set (fold (\<lambda>(i, e) acc. if F e then hs_insert i acc else acc) T acc) = set acc \<union> {i. \<exists>e. (i, e) \<in> set T \<and> F e}"
  by (induction T arbitrary: acc) (auto split: if_splits)

lemma swept_tasks_set:
  assumes "queue_inv q"
  shows "set (swept_tasks w q) = {tid. \<exists>e. hm_get (tasks q) tid = Some e \<and> carries e w}"
proof -
  have core: "core {} q" using queue_invD(1) [OF assms] .
  have "set (case hm_get (worker_assignments q) w of None \<Rightarrow> [] | Some s \<Rightarrow> s) = assigned_ids (worker_assignments q) w"
    by (simp add: assigned_ids_def split: option.splits)
  also have "\<dots> = {tid. \<exists>e. hm_get (tasks q) tid = Some e \<and> carries e w}"
    using core by (auto simp: core_ok_def assign_ok_def)
  finally show ?thesis
    by (auto simp: swept_tasks_def set_fold_hs_insert hm_get_mem [OF core_wf(1) [OF core]] carries_def)
qed

lemma sweep_all_affected:
  assumes "queue_inv q" "\<And>xs. set (ce_order env xs) = set xs"
  shows "set (sw_affected (sweep_all env w session reason imm q)) = {tid. lost_task w session q tid}"
proof (intro equalityI subsetI CollectI)
  fix tid assume "tid \<in> set (sw_affected (sweep_all env w session reason imm q))"
  with sweep_all_rel show "lost_task w session q tid"
    by (rule sweep_rel_affected) (auto simp: lost_task_iff)
next
  fix tid assume "tid \<in> {tid. lost_task w session q tid}"
  then have "lost_task w session q tid" by simp
  moreover from this have "tid \<in> set (ce_order env (swept_tasks w q))"
    by (auto simp: assms(2) swept_tasks_set [OF assms(1)] lost_task_iff)
  ultimately show "tid \<in> set (sw_affected (sweep_all env w session reason imm q))"
    unfolding sweep_all_def by (intro sweep_fold_takes) (simp_all add: sweep_rel_def)
qed

lemma swept_still: "swept_entry p e e' \<Longrightarrow> still_step p e e'"
  by (auto simp: swept_entry_def still_step_def kept_def split: if_splits)

lemma disconnect_lives:
  assumes "handle_session_disconnected env w session reason imm q = (ids, q')" "queue_inv q"
    and "fits (sw_queue (sweep_all env w session reason imm q))"
  shows "still q q'"
proof -
  let ?s = "sweep_all env w session reason imm q"
  have "still q (sw_queue ?s)"
    unfolding lives_by_def
  proof
    fix tid
    show "life (still_step (retry_policy q)) (hm_get (tasks q) tid) (hm_get (tasks (sw_queue ?s)) tid)"
    proof (cases "tid \<in> set (sw_affected ?s)")
      case True
      with sweep_all_rel show ?thesis
        by (rule sweep_rel_affected) (auto intro: life_move swept_still)
    next
      case False
      then show ?thesis by (simp add: sweep_rel_other [OF sweep_all_rel] life_keep)
    qed
  qed
  then show ?thesis using disconnect_ok(3) [OF assms(2,3,1)] by (rule lives_forgets)
qed

lemmas queue_op_still = submit_lives try_submit_lives requeue_task_lives requeue_dispatch_failure_lives
  record_checkpoint_lives record_checkpoint_from_lives record_result_lives fail_unsendable_lives
  delayed_lives cancel_lives disconnect_lives

lemmas queue_op_calm = queue_op_still [THEN still_calm] mark_running_lives

lemma set_max_lives: "still q (set_max_terminal_tasks n q)" "still q (set_max_terminal_bytes n q)"
  using enforce_forgets [of "q\<lparr>max_terminal_tasks := n\<rparr>"] enforce_forgets [of "q\<lparr>max_terminal_bytes := n\<rparr>"]
  by (auto simp: set_max_terminal_tasks_def set_max_terminal_bytes_def intro: lives_forgets [OF lives_refl])

lemma evict_terminal_lives: "evict_terminal_tasks n k q = (m, q') \<Longrightarrow> still q q'"
  using evict_terminal_eq [of n k q] evict_while_forgets [of q] by (auto intro: lives_forgets [OF lives_refl])

lemma queue_step_lives: "queue_step q q' \<Longrightarrow> queue_inv q \<Longrightarrow> lives q q'"
proof (induction rule: queue_step.induct)
  case (step_max_tasks q n)
  show ?case by (rule calm_lives [OF still_calm, OF set_max_lives(1)])
next
  case (step_max_bytes q n)
  show ?case by (rule calm_lives [OF still_calm, OF set_max_lives(2)])
next
  case (step_evict n q m q')
  from step_evict(1) show ?case by (rule calm_lives [OF still_calm [OF evict_terminal_lives]])
qed (blast intro: pop_lives schedule_task_lives batch_lives calm_lives [OF queue_op_calm(1)]
    calm_lives [OF queue_op_calm(2)] calm_lives [OF queue_op_calm(3)] calm_lives [OF queue_op_calm(4)]
    calm_lives [OF queue_op_calm(5)] calm_lives [OF queue_op_calm(6)] calm_lives [OF queue_op_calm(7)]
    calm_lives [OF queue_op_calm(8)] calm_lives [OF queue_op_calm(9)] calm_lives [OF queue_op_calm(10)]
    calm_lives [OF queue_op_calm(11)] calm_lives [OF queue_op_calm(12)])+

end
