(* ===== verification/Queue_Budget.thy ===== *)
theory Queue_Budget
  imports Queue_System
begin

text \<open>
  The retry policy never changes while the queue runs, and the counters of every task stay
  within the budgets it grants.
\<close>

section \<open>The policy is fixed\<close>

lemma evict_oldest_policy [simp]: "retry_policy (snd (evict_oldest_terminal q)) = retry_policy q"
  by (simp add: evict_oldest_terminal_def Let_def split: list.splits option.splits)

lemma evict_while_policy [simp]: "retry_policy (evict_while over q) = retry_policy q"
  by (rule evict_while_rule [where I = "\<lambda>r. retry_policy r = retry_policy q"]) simp_all

lemma enforce_policy [simp]: "retry_policy (enforce_terminal_limits q) = retry_policy q"
  by (simp add: enforce_terminal_limits_def)

lemma track_policy [simp]: "retry_policy (track_terminal_task tid q) = retry_policy q"
  by (simp add: track_terminal_task_def Let_def split: option.splits)

lemma batch_policy: "schedule_batch_inner env as q = (sent, q') \<Longrightarrow> retry_policy q' = retry_policy q"
proof (induction env as q arbitrary: sent q' rule: schedule_batch_inner.induct)
  case (2 env i w s rest q)
  then show ?case
    by (cases "hm_get (tasks q) i") (auto simp: Let_def split: if_splits prod.splits)
qed simp

lemma fold_policy:
  assumes "\<And>x q. retry_policy (f x q) = retry_policy q"
  shows "retry_policy (fold f xs q) = retry_policy q"
  by (induction xs arbitrary: q) (simp_all add: assms)

lemma promote_policy [simp]: "retry_policy (promote_retry tid q) = retry_policy q"
  by (simp add: promote_retry_def split: option.splits)

lemma sweep_task_policy: "retry_policy (sw_queue (sweep_task env p w session reason imm tid s)) = retry_policy (sw_queue s)"
  by (cases rule: sweep_task_cases [of env p w session reason imm tid s]) simp_all

lemma sweep_fold_policy:
  "retry_policy (sw_queue (fold (sweep_task env p w session reason imm) tids s)) = retry_policy (sw_queue s)"
  by (induction tids arbitrary: s) (simp_all add: sweep_task_policy)

lemma disconnect_policy:
  "handle_session_disconnected env w session reason imm q = (ids, q') \<Longrightarrow> retry_policy q' = retry_policy q"
  by (auto simp: handle_session_disconnected_def Let_def fold_policy drop_empty_assignment_def sweep_all_def
      sweep_fold_policy split: option.splits list.splits)

lemma store_checkpoint_policy: "store_checkpoint tid e cp q = (r, q') \<Longrightarrow> retry_policy q' = retry_policy q"
  by (auto simp: store_checkpoint_def apply_checkpoint_def Let_def split: option.splits if_splits)

lemma insert_index_policy [simp]: "retry_policy (insert_index k q) = retry_policy q"
  by (simp add: insert_index_def split: result_index.splits)

lemma submit_policy:
  assumes "submit_with_priority env task pr q = (r, q')"
  shows "retry_policy q' = retry_policy q"
  using assms by (cases rule: submit_cases) simp_all

lemma try_submit_policy:
  assumes "try_submit_slot env q0 slot q = (r, slot', q')"
  shows "retry_policy q' = retry_policy q"
  using assms by (cases rule: try_submit_cases) simp_all

lemma pop_policy: "pop_and_schedule env w pred q = (r, q') \<Longrightarrow> retry_policy q' = retry_policy q"
  by (auto simp: pop_and_schedule_def Let_def split: option.splits)

lemma schedule_policy: "schedule_task env tid w q = (r, q') \<Longrightarrow> retry_policy q' = retry_policy q"
  by (auto simp: schedule_task_def split: option.splits if_splits)

lemma requeue_policy:
  "requeue_task tid q = (r, q') \<Longrightarrow> retry_policy q' = retry_policy q"
  "requeue_dispatch_failure tid w sess q = (r2, q') \<Longrightarrow> retry_policy q' = retry_policy q"
  "mark_running_from env w osess tid q = (r, q') \<Longrightarrow> retry_policy q' = retry_policy q"
  by (auto simp: requeue_task_def requeue_dispatch_failure_def mark_running_from_def Let_def
      split: option.splits if_splits)

lemma checkpoint_policy:
  "record_checkpoint tid cp q = (r, q') \<Longrightarrow> retry_policy q' = retry_policy q"
  "record_checkpoint_from w osess tid cp q = (r2, q') \<Longrightarrow> retry_policy q' = retry_policy q"
  by (auto simp: record_checkpoint_def record_checkpoint_from_def dest: store_checkpoint_policy
      split: option.splits if_splits prod.splits)

lemma result_policy:
  "record_result_from env w osess res q = (r, q') \<Longrightarrow> retry_policy q' = retry_policy q"
  by (auto simp: record_result_from_def Let_def split: option.splits if_splits sum.splits prod.splits)

lemma unsendable_policy:
  "fail_unsendable_assignment w osess res q = (r, q') \<Longrightarrow> retry_policy q' = retry_policy q"
  by (auto simp: fail_unsendable_assignment_def Let_def split: option.splits if_splits)

lemma delayed_policy: "process_delayed_retries env q = (n, q') \<Longrightarrow> retry_policy q' = retry_policy q"
  by (auto simp: process_delayed_retries_def fold_policy split: prod.splits)

lemma unindex_policy: "unindex_cancelled tid e q = (n, q') \<Longrightarrow> retry_policy q' = retry_policy q"
  by (auto simp: unindex_cancelled_def split: TaskState.splits option.splits)

lemma cancel_policy: "cancel_task_detailed tid why q = (r, q') \<Longrightarrow> retry_policy q' = retry_policy q"
  by (auto simp: cancel_task_detailed_def Let_def dest: unindex_policy split: option.splits if_splits prod.splits)

lemma evict_terminal_policy: "evict_terminal_tasks n k q = (m, q') \<Longrightarrow> retry_policy q' = retry_policy q"
  using evict_terminal_eq [of n k q] by simp

lemmas op_policies = submit_policy try_submit_policy pop_policy schedule_policy batch_policy requeue_policy
  checkpoint_policy result_policy unsendable_policy disconnect_policy delayed_policy cancel_policy
  evict_terminal_policy

lemma step_policy: "queue_step q q' \<Longrightarrow> retry_policy q' = retry_policy q"
  by (cases rule: queue_step.cases)
    (auto simp: set_max_terminal_tasks_def set_max_terminal_bytes_def dest: op_policies)

section \<open>The budgets\<close>

text \<open>
  Re-runs after an execution failure and failovers are counted apart; the number of runs a task
  can have is bounded by the two budgets together.
\<close>

definition within_budget :: "RetryPolicy \<Rightarrow> TaskEntry \<Rightarrow> bool" where
  "within_budget p e \<longleftrightarrow>
     te_retry_count e - te_failover_count e \<le> rp_max_retries p
     \<and> te_failover_count e \<le> snd (failover_budget p e)"

definition budgets_ok :: "TaskQueueInner \<Rightarrow> bool" where
  "budgets_ok q \<longleftrightarrow> (\<forall>tid e. hm_get (tasks q) tid = Some e \<longrightarrow> within_budget (retry_policy q) e)"

lemma budget_cap_same: "same_task e e' \<Longrightarrow> snd (failover_budget p e') = snd (failover_budget p e)"
  by (auto simp: same_task_def failover_budget_def Let_def split: option.splits)

lemma budget_left: "fst (failover_budget p e) \<Longrightarrow> te_failover_count e \<le> te_retry_count e \<Longrightarrow>
    te_failover_count e < snd (failover_budget p e)"
  by (auto simp: failover_budget_def Let_def split: option.splits if_splits)

lemma within_budget_step:
  assumes "entry_step p e e'" "within_budget p e" "te_failover_count e \<le> te_retry_count e"
  shows "within_budget p e'"
proof -
  have same: "same_task e e'" and cnt: "count_step p e e'" using assms(1) by (simp_all add: entry_step_def)
  note cap = budget_cap_same [OF same, of p]
  from cnt show ?thesis
    unfolding count_step_def within_budget_def cap
    using assms(2,3) budget_left [of p e] by (auto simp: within_budget_def)
qed

lemma budgets_step:
  assumes "queue_step q q'" "queue_inv q" "budgets_ok q"
  shows "budgets_ok q'"
  unfolding budgets_ok_def
proof (intro allI impI)
  fix tid e' assume e': "hm_get (tasks q') tid = Some e'"
  have "life (entry_step (retry_policy q)) (hm_get (tasks q) tid) (Some e')"
    using queue_step_lives [OF assms(1,2)] e' by (auto simp: lives_by_def dest: spec [of _ tid])
  then show "within_budget (retry_policy q') e'"
  proof (cases rule: life.cases)
    case life_keep
    then show ?thesis using assms(3) by (simp add: budgets_ok_def step_policy [OF assms(1)])
  next
    case life_admit
    then show ?thesis by (simp add: within_budget_def)
  next
    case (life_move e)
    have "entry_ok tid e" using core_entry [OF queue_invD(1) [OF assms(2)]] life_move by simp
    then have "te_failover_count e \<le> te_retry_count e" by (simp add: entry_ok_def)
    then show ?thesis
      using within_budget_step [OF life_move(2)] life_move assms(3)
      by (simp add: budgets_ok_def step_policy [OF assms(1)])
  qed
qed

interpretation budgeted: invariant_system queue_init queue_step "\<lambda>q. queue_inv q \<and> budgets_ok q"
proof
  fix q assume "queue_init q"
  then show "queue_inv q \<and> budgets_ok q"
    by (auto simp: queue_inv_init budgets_ok_def queue_init_def with_retention_limits_def)
next
  fix q q' assume "queue_step q q'" "queue_inv q \<and> budgets_ok q"
  then show "queue_inv q' \<and> budgets_ok q'" using queue_inv_step budgets_step by blast
qed

end
