(* ===== verification/Queue_Examples.thy ===== *)
theory Queue_Examples
  imports Queue_System
begin

text \<open>
  A concrete run of the queue: a task is submitted, handed to a worker in a session, and fails.
  The states of the run are the inputs on which the queue's theorems are exercised.
\<close>

definition ex_env :: call_env where
  "ex_env = \<lparr>ce_now = 7, ce_epoch = 100, ce_fmt_id = (\<lambda>_. ''w''), ce_order = (\<lambda>xs. xs)\<rparr>"

definition ex_task :: "uuid \<Rightarrow> Task" where
  "ex_task i = task_new i 0 (new_command ''ls'' []) requirements_default"

definition ex_policy :: RetryPolicy where
  "ex_policy = retry_policy_default\<lparr>rp_retry_on_execution_failure := True\<rparr>"

definition ex_queue0 :: TaskQueueInner where
  "ex_queue0 = with_retention_limits ex_policy (Some 2) 10 5000 5000"

definition ex_entry :: "uuid \<Rightarrow> nat \<Rightarrow> nat \<Rightarrow> TaskEntry" where
  "ex_entry i pr n = new_entry ex_env (ex_task i) pr n"

text \<open>After one submission, and after a batch that sends the task to worker 7 in session 3.\<close>

definition ex_queue1 :: TaskQueueInner where
  "ex_queue1 = ex_queue0\<lparr>tasks := [(1, ex_entry 1 5 1)], ready_queue := [OrderKey 5 1 1],
     next_sequence := 2, active_sizes := [(1, 1026)], active_bytes := 1026\<rparr>"

definition ex_queue2 :: TaskQueueInner where
  "ex_queue2 = ex_queue1\<lparr>tasks := [(1, mark_scheduled ex_env 7 (Some 3) (ex_entry 1 5 1))],
     ready_queue := [], worker_assignments := [(7, [1])]\<rparr>"

lemma ex_task_valid: "task_validate (ex_task i) = Inr ()"
proof -
  have "spec_validate (new_command ''ls'' []) = Inr ()" "from_task_tags [] = Inr placement_default"
    "\<not> spec_requires_gpu (new_command ''ls'' [])" by code_simp+
  then show ?thesis
    unfolding task_validate_iff
    by (simp add: ex_task_def task_new_def requirements_default_def staged_total_def validate_blob_use_def uses_blobs_def)
qed

lemma ex_task_fields [simp]:
  "t_id (ex_task i) = i" "t_requirements (ex_task i) = requirements_default" "t_latest_checkpoint (ex_task i) = None"
  by (simp_all add: ex_task_def task_new_def)

lemma ex_task_bytes [simp]: "task_active_bytes (ex_task i) = 1026"
  by (simp add: task_active_bytes_def ex_task_def task_new_def new_command_def RETAINED_ENTRY_OVERHEAD_BYTES_def
      lens_def env_bytes_def)

lemma ex_queue0_init: "queue_init ex_queue0"
  unfolding queue_init_def ex_queue0_def by blast

lemma ex_queue1_eq: "submit_with_priority ex_env (ex_task 1) 5 ex_queue0 = (Inr 1, ex_queue1)"
  by (simp add: submit_with_priority_def ex_task_valid ex_queue0_def with_retention_limits_def check_capacity_def
      active_count_def hm_count_def check_bytes_def retained_new_entry sat_add_def usize_max_def admit_def
      charge_active_def Let_def ex_queue1_def ex_entry_def order_key_def hm_put_def)
    (simp add: new_entry_def)

lemma ex_queue2_eq: "schedule_batch_inner ex_env [(1, 7, Some 3)] ex_queue1 = ([(1, 7, ex_task 1)], ex_queue2)"
  by (simp add: ex_queue1_def ex_queue2_def ex_queue0_def with_retention_limits_def hm_get_def ex_entry_def
      new_entry_def assign_to_def put_entry_def ready_remove_def bts_remove_def order_key_def hm_put_def
      assign_insert_def hs_insert_def Let_def)

lemma ex_fits: "fits ex_queue1" "fits ex_queue2"
  by (simp_all add: fits_def mem_bytes_def hm_total_def hm_map_def ex_queue1_def ex_queue2_def ex_entry_def
      retained_new_entry usize_max_def mark_scheduled_def new_entry_def retained_bytes_def history_bytes_def)

lemma ex_reach0: "reachable ex_queue0"
  by (rule reach_init) (rule ex_queue0_init)

lemma ex_reach1: "reachable ex_queue1"
  using ex_reach0 step_submit [OF ex_queue1_eq ex_fits(1)] by (rule reach_step)

lemma ex_reach2: "reachable ex_queue2"
  using ex_reach1 step_batch [OF ex_queue2_eq] by (rule reach_step)

lemma ex_inv: "queue_inv ex_queue1" "queue_inv ex_queue2"
  using queue.reach_inv [OF ex_reach1] queue.reach_inv [OF ex_reach2] .

lemma ex_queue1_get [simp]: "hm_get (tasks ex_queue1) 1 = Some (ex_entry 1 5 1)"
  by (simp add: ex_queue1_def hm_get_def)

lemma ex_queue2_get [simp]: "hm_get (tasks ex_queue2) 1 = Some (mark_scheduled ex_env 7 (Some 3) (ex_entry 1 5 1))"
  by (simp add: ex_queue2_def hm_get_def)

lemmas ex_simps = ex_queue2_def ex_queue1_def ex_queue0_def with_retention_limits_def ex_policy_def
  retry_policy_default_def DEFAULT_MAX_FAILOVERS_def hm_get_def

text \<open>The task fails on the worker and waits half a second for its retry.\<close>

definition ex_fail :: TaskResult where
  "ex_fail = result_failure 7 1 1 [] [] 5 (Some ''boom'')"

definition ex_queue3 :: TaskQueueInner where
  "ex_queue3 = snd (record_result_from ex_env 7 (Some 3) ex_fail ex_queue2)"

definition ex_late :: call_env where
  "ex_late = ex_env\<lparr>ce_now := 500000007\<rparr>"

lemma ex_backoff [simp]: "calculate_backoff ex_policy 1 = 500" "calculate_backoff ex_policy (Suc 0) = 500"
  by (simp_all add: calculate_backoff_def ex_policy_def retry_policy_default_def usize_max_def)

abbreviation ex_entry2 :: TaskEntry where
  "ex_entry2 \<equiv> mark_scheduled ex_env 7 (Some 3) (ex_entry 1 5 1)"

lemma ex_settle:
  "settle ex_env ex_policy 7 ex_fail ex_entry2 =
     Inr (settle_retry ex_env ex_policy 7 ex_fail ex_entry2, DelayKey (RetryKey 500000007 1), Requeued)"
proof -
  have "\<not> is_success ex_fail" "tr_exit_code ex_fail \<noteq> 130" "\<not> is_worker_rejection ex_fail" "tr_task_id ex_fail = 1"
    by (simp_all add: ex_fail_def result_failure_def is_success_def is_worker_rejection_def)
  moreover have "te_retry_count ex_entry2 = 0" by (simp add: mark_scheduled_def ex_entry_def new_entry_def)
  ultimately show ?thesis
    by (simp add: settle_def Let_def settle_retry_def millis_def)
      (simp add: ex_policy_def retry_policy_default_def ex_env_def)
qed

lemma ex_run3: "\<exists>out. record_result_from ex_env 7 (Some 3) ex_fail ex_queue2 = (Inr out, ex_queue3)"
  and ex_queue3_tasks: "tasks ex_queue3 = [(1, settle_retry ex_env ex_policy 7 ex_fail ex_entry2)]"
proof -
  have "owned_by ex_entry2 7 (Some 3)" "\<not> is_terminal (te_state ex_entry2)" "tr_task_id ex_fail = 1"
    "retry_policy ex_queue2 = ex_policy"
    by (simp_all add: owned_by_def mark_scheduled_def ex_fail_def result_failure_def ex_simps)
  then have "\<exists>out q'. record_result_from ex_env 7 (Some 3) ex_fail ex_queue2 = (Inr out, q')
      \<and> tasks q' = hm_put 1 (settle_retry ex_env ex_policy 7 ex_fail ex_entry2) (tasks ex_queue2)"
    by (simp add: record_result_from_def ex_settle insert_index_def Let_def del: One_nat_def)
      (simp add: settle_retry_def Let_def)
  then show "\<exists>out. record_result_from ex_env 7 (Some 3) ex_fail ex_queue2 = (Inr out, ex_queue3)"
    "tasks ex_queue3 = [(1, settle_retry ex_env ex_policy 7 ex_fail ex_entry2)]"
    by (auto simp: ex_queue3_def) (simp add: ex_queue2_def hm_put_def)
qed

lemma ex_fits3: "fits ex_queue3"
  by (simp add: fits_def mem_bytes_def hm_total_def hm_map_def ex_queue3_tasks settle_retry_def Let_def retained_bytes_def
      history_bytes_def mark_scheduled_def ex_entry_def new_entry_def ex_fail_def result_failure_def usize_max_def)

lemma ex_reach3: "reachable ex_queue3"
  using ex_run3 step_result ex_fits3 ex_reach2 reach_step by metis

lemma ex_queue3_get [simp]:
  "hm_get (tasks ex_queue3) 1 = Some (settle_retry ex_env ex_policy 7 ex_fail ex_entry2)"
  by (simp add: ex_queue3_tasks hm_get_def)

lemma ex_entry3: "te_state (settle_retry ex_env ex_policy 7 ex_fail ex_entry2) = Retrying"
  "te_retry_after_instant (settle_retry ex_env ex_policy 7 ex_fail ex_entry2) = Some 500000007"
  by (simp_all add: settle_retry_def Let_def mark_scheduled_def ex_entry_def new_entry_def millis_def ex_env_def)

end
