(* ===== verification/Queue_Props.thy ===== *)
theory Queue_Props
  imports Queue_Budget Queue_Examples
begin

text \<open>
  What the task queue promises to the rest of the master, over every state it can reach and every
  operation it offers.
\<close>

section \<open>Helper lemmas\<close>

lemma reach_queue_inv: "reachable q \<Longrightarrow> queue_inv q"
  by (rule queue.reach_inv)

lemma reach_core: "reachable q \<Longrightarrow> core {} q"
  using reach_queue_inv queue_invD(1) by blast

lemma hm_total_eq:
  assumes "hm_wf m" "hm_wf n" "\<And>i. hm_get m i = hm_get n i"
  shows "hm_total m = hm_total n"
  by (rule order.antisym; rule hm_total_mono) (use assms in auto)

definition charged :: "(TaskEntry \<Rightarrow> bool) \<Rightarrow> (uuid, TaskEntry) hmap \<Rightarrow> nat" where
  "charged F T = (\<Sum>(i, e) \<leftarrow> filter (\<lambda>(i, e). F e) T. retained_bytes e)"

lemma hm_get_filter_map:
  assumes "hm_wf T"
  shows "hm_get (hm_map f (filter (\<lambda>(i, e). F e) T)) i =
    (case hm_get T i of None \<Rightarrow> None | Some e \<Rightarrow> if F e then Some (f e) else None)"
  using assms
proof (induction T)
  case (Cons x T)
  obtain j e where x: "x = (j, e)" by fastforce
  have "hm_wf T" using Cons.prems by (simp add: hm_wf_def)
  note ih = Cons.IH [OF this]
  have "j \<notin> fst ` set T" using Cons.prems x by (simp add: hm_wf_def)
  then have "hm_get T j = None" by (simp add: hm_get_None)
  with ih show ?case by (auto simp: x hm_get_def hm_map_def)
qed (simp add: hm_map_def)

lemma hm_wf_filter: "hm_wf T \<Longrightarrow> hm_wf (filter F T)"
  by (simp add: hm_wf_def distinct_map_filter)

lemma charged_total: "charged F T = hm_total (hm_map retained_bytes (filter (\<lambda>(i, e). F e) T))"
  by (simp add: charged_def hm_total_def hm_map_def comp_def case_prod_unfold)

section \<open>Reachable states\<close>

text \<open>
  C1. No task is ever lost.  In every state the queue can reach, a task that has not finished is in
  exactly one place from which it will continue: in the ready queue when it is queued, under the
  instant of its backoff when it waits for a retry, or in the assignments of exactly one worker when
  it is scheduled or running.
\<close>

theorem queue_no_lost_task:
  assumes "reachable q" "hm_get (tasks q) tid = Some e" "\<not> is_terminal (te_state e)"
  shows "(te_state e = Queued \<and> order_key e tid \<in> set (ready_queue q)
            \<and> (\<forall>w. tid \<notin> assigned_ids (worker_assignments q) w))
       \<or> (te_state e = Retrying \<and> (\<exists>t. te_retry_after_instant e = Some t \<and> RetryKey t tid \<in> set (delayed_retries q))
            \<and> order_key e tid \<notin> set (ready_queue q) \<and> (\<forall>w. tid \<notin> assigned_ids (worker_assignments q) w))
       \<or> (is_active (te_state e) \<and> order_key e tid \<notin> set (ready_queue q)
            \<and> (\<exists>w. \<forall>v. tid \<in> assigned_ids (worker_assignments q) v \<longleftrightarrow> v = w))"
proof -
  have core: "core {} q" using reach_core [OF assms(1)] .
  have ok: "entry_ok tid e" using core_entry [OF core assms(2)] .
  note idx = ready_key_iff [OF core assms(2)] carried_iff [OF core assms(2)]
  have retry: "te_state e = Retrying \<Longrightarrow> \<exists>t. te_retry_after_instant e = Some t \<and> RetryKey t tid \<in> set (delayed_retries q)"
    using core assms(2) by (simp add: core_ok_def delayed_ok_def)
  consider "te_state e = Queued" | "te_state e = Retrying" | "is_active (te_state e)"
    using live_states(1) [OF ok assms(3)] by (auto simp: is_active_def)
  then show ?thesis
  proof cases
    case 3
    then obtain w where "te_assigned_worker_id e = Some w" using ok by (auto simp: entry_ok_def)
    moreover have "te_state e \<noteq> Queued" using 3 by auto
    ultimately show ?thesis using 3 idx by (auto simp: carries_def)
  qed (use idx retry in \<open>auto simp: carries_def\<close>)
qed

theorem queue_no_lost_task_witness:
  "\<exists>w. \<forall>v. (1 :: uuid) \<in> assigned_ids (worker_assignments ex_queue2) v \<longleftrightarrow> v = w"
proof -
  have st: "te_state (mark_scheduled ex_env 7 (Some 3) (ex_entry 1 5 1)) = Scheduled"
    by (simp add: mark_scheduled_def)
  show ?thesis using queue_no_lost_task [OF ex_reach2 ex_queue2_get] st by simp
qed



text \<open>
  C2. Every operation refines the life of a task.  Whatever operation runs in a reachable state,
  each task is left alone, is admitted as queued, moves by a transition the state machine allows
  while keeping its identity, its history and its progress, or, once finished, is forgotten; a
  finished task is never changed again.
\<close>

theorem queue_refines_life:
  assumes "reachable q" "queue_step q q'"
  shows "life (entry_step (retry_policy q)) (hm_get (tasks q) tid) (hm_get (tasks q') tid)"
  using queue_step_lives [OF assms(2) reach_queue_inv [OF assms(1)]] by (simp add: lives_by_def)

theorem queue_refines_life_witness:
  "life (entry_step (retry_policy ex_queue1)) (Some (ex_entry 1 5 1)) (Some (mark_scheduled ex_env 7 (Some 3) (ex_entry 1 5 1)))"
  using queue_refines_life [OF ex_reach1 step_batch [OF ex_queue2_eq], of 1] by simp

text \<open>
  C9. Re-runs are bounded.  In every reachable state a task has been re-run after execution
  failures at most as often as the policy allows, and failed over at most as often as its failover
  budget; so the number of times it has been handed out again is bounded by the two together.
\<close>

theorem retry_budget_bounded:
  assumes "reachable q" "hm_get (tasks q) tid = Some e"
  shows "te_retry_count e - te_failover_count e \<le> rp_max_retries (retry_policy q)
    \<and> te_failover_count e \<le> snd (failover_budget (retry_policy q) e)
    \<and> te_retry_count e \<le> rp_max_retries (retry_policy q) + snd (failover_budget (retry_policy q) e)
    \<and> te_rejection_count e \<le> MAX_WORKER_REJECTIONS_PER_TASK
    \<and> length (te_retry_history e) = te_retry_count e"
proof -
  have "entry_ok tid e" using core_entry [OF reach_core [OF assms(1)] assms(2)] .
  moreover have "within_budget (retry_policy q) e"
    using budgeted.reach_inv [OF assms(1)] assms(2) by (simp add: budgets_ok_def)
  ultimately show ?thesis unfolding entry_ok_def within_budget_def by linarith
qed

theorem retry_budget_bounded_witness: "te_retry_count (ex_entry 1 5 1) \<le> 3 + 10"
  using retry_budget_bounded [OF ex_reach1 ex_queue1_get]
  by (simp add: ex_queue1_def ex_queue0_def with_retention_limits_def ex_policy_def retry_policy_default_def
      failover_budget_def ex_entry_def new_entry_def)

end
