(* ===== verification/Queue_Contract.thy ===== *)
theory Queue_Contract
  imports Queue_Props
begin

text \<open>
  The contract of the queue's operations, one by one: which task an idle worker gets, what happens
  to the tasks of a lost worker, which messages of a superseded session are ignored, when a
  submission is accepted, how cancellation, checkpoints and backoffs behave.
\<close>

section \<open>Dispatch order\<close>

definition eligible :: "TaskQueueInner \<Rightarrow> (TaskRequirements \<Rightarrow> bool) \<Rightarrow> uuid \<Rightarrow> TaskEntry \<Rightarrow> bool" where
  "eligible q pred tid e \<longleftrightarrow>
     hm_get (tasks q) tid = Some e \<and> te_state e = Queued \<and> pred (t_requirements (te_task e))"

lemma order_key_le:
  assumes "order_key e i \<le> order_key f j"
  shows "te_priority f < te_priority e \<or> te_priority f = te_priority e \<and> te_sequence e \<le> te_sequence f"
  using assms by (auto simp: order_key_def less_eq_QueueOrderKey_def less_QueueOrderKey_def)

lemma ready_key_mem:
  assumes "queue_inv q" "k \<in> set (ready_queue q)"
  obtains e where "hm_get (tasks q) (qk_task_id k) = Some e" "te_state e = Queued" "k = order_key e (qk_task_id k)"
  using queue_invD(1) [OF assms(1)] assms(2) by (auto simp: core_ok_def ready_ok_def)

lemma pop_find:
  assumes "queue_inv q" "find (\<lambda>k. case hm_get (tasks q) (qk_task_id k) of
      Some e \<Rightarrow> te_state e = Queued \<and> pred (t_requirements (te_task e)) | None \<Rightarrow> False) (ready_queue q) = Some k"
  obtains e where "eligible q pred (qk_task_id k) e" "k = order_key e (qk_task_id k)"
    "\<And>i f. eligible q pred i f \<Longrightarrow> k \<le> order_key f i"
proof -
  let ?F = "\<lambda>k. case hm_get (tasks q) (qk_task_id k) of
      Some e \<Rightarrow> te_state e = Queued \<and> pred (t_requirements (te_task e)) | None \<Rightarrow> False"
  have core: "core {} q" using queue_invD(1) [OF assms(1)] .
  note least = find_least [OF core_wf(2) [OF core] assms(2)]
  obtain e where e: "hm_get (tasks q) (qk_task_id k) = Some e" "te_state e = Queued" "k = order_key e (qk_task_id k)"
    using ready_key_mem [OF assms(1) least(1)] .
  have "eligible q pred (qk_task_id k) e" using e least(2) by (simp add: eligible_def)
  moreover have "k \<le> order_key f i" if f: "eligible q pred i f" for i f
  proof (rule least(3))
    show "order_key f i \<in> set (ready_queue q)"
      using ready_key_iff [OF core] f by (simp add: eligible_def)
    show "?F (order_key f i)" using f by (simp add: eligible_def)
  qed
  ultimately show ?thesis using that e(3) by blast
qed

text \<open>
  C5. A worker that asks for work gets the first fitting task in priority order.  Either no queued
  task fits and nothing changes, or the task handed out is queued, fits, and has the highest priority
  among the fitting ones, and the earliest submission among those of its priority; that task, and no
  other, becomes scheduled on the worker.
\<close>

theorem pop_priority_fifo:
  assumes "reachable q" "pop_and_schedule env w pred q = (r, q')"
  shows "r = None \<and> q' = q \<and> (\<forall>i f. \<not> eligible q pred i f)
    \<or> (\<exists>tid e. r = Some (te_task e) \<and> eligible q pred tid e
         \<and> (\<forall>i f. eligible q pred i f \<longrightarrow>
              te_priority f < te_priority e \<or> te_priority f = te_priority e \<and> te_sequence e \<le> te_sequence f)
         \<and> tasks q' = hm_put tid (mark_scheduled env w None e) (tasks q))"
proof -
  have inv: "queue_inv q" using reach_queue_inv [OF assms(1)] .
  let ?F = "\<lambda>k. case hm_get (tasks q) (qk_task_id k) of
      Some e \<Rightarrow> te_state e = Queued \<and> pred (t_requirements (te_task e)) | None \<Rightarrow> False"
  show ?thesis
  proof (cases "find ?F (ready_queue q)")
    case None
    have "\<not> eligible q pred i f" for i f
    proof
      assume f: "eligible q pred i f"
      then have "order_key f i \<in> set (ready_queue q)" "?F (order_key f i)"
        using ready_key_iff [OF queue_invD(1) [OF inv]] by (simp_all add: eligible_def)
      with None show False by (auto simp: find_None_iff)
    qed
    with None assms(2) show ?thesis by (simp add: pop_and_schedule_def)
  next
    case (Some k)
    obtain e where e: "eligible q pred (qk_task_id k) e" "k = order_key e (qk_task_id k)"
      and least: "\<And>i f. eligible q pred i f \<Longrightarrow> k \<le> order_key f i"
      using pop_find [OF inv Some] by blast
    have "te_priority f < te_priority e \<or> te_priority f = te_priority e \<and> te_sequence e \<le> te_sequence f"
      if "eligible q pred i f" for i f
      using least [OF that] e(2) order_key_le [of e "qk_task_id k" f i] by simp
    moreover have "r = Some (te_task e)" "tasks q' = hm_put (qk_task_id k) (mark_scheduled env w None e) (tasks q)"
      using assms(2) Some e(1) by (auto simp: pop_and_schedule_def Let_def eligible_def)
    ultimately show ?thesis using e(1) by blast
  qed
qed

theorem pop_priority_fifo_witness: "fst (pop_and_schedule ex_env 7 (\<lambda>_. True) ex_queue1) = Some (ex_task 1)"
proof -
  obtain r q' where pop: "pop_and_schedule ex_env 7 (\<lambda>_. True) ex_queue1 = (r, q')" by fastforce
  have el: "eligible ex_queue1 (\<lambda>_. True) i f \<longleftrightarrow> i = 1 \<and> f = ex_entry 1 5 1" for i f
    by (auto simp: eligible_def ex_queue1_def hm_get_def ex_entry_def new_entry_def split: if_splits)
  have "r = Some (ex_task 1)"
    using pop_priority_fifo [OF ex_reach1 pop] unfolding el by (auto simp: ex_entry_def new_entry_def)
  with pop show ?thesis by simp
qed

section \<open>Worker loss\<close>

text \<open>
  C3. The loss of a worker's session.  The tasks reported are exactly those the lost worker was
  carrying in that session or an older one.  Each of them is taken from the worker: while its
  budget lasts it goes back to the queue or into backoff with one more failover counted, otherwise
  it fails with a result.  Every other task, in particular one that a newer session of the same
  worker holds, is untouched (or, if finished, perhaps forgotten).
\<close>

theorem disconnect_recovers:
  assumes "reachable q" "\<forall>xs. set (ce_order env xs) = set xs"
    and "fits (sw_queue (sweep_all env w session reason imm q))"
    and "handle_session_disconnected env w session reason imm q = (ids, q')"
  shows "set ids = {tid. lost_task w session q tid}
    \<and> (\<forall>tid e. lost_task w session q tid \<and> hm_get (tasks q) tid = Some e \<longrightarrow>
         (\<exists>e'. swept_entry (retry_policy q) e e'
            \<and> (hm_get (tasks q') tid = Some e' \<or> hm_get (tasks q') tid = None \<and> is_terminal (te_state e')))
         \<and> tid \<notin> assigned_ids (worker_assignments q') w)
    \<and> (\<forall>tid. \<not> lost_task w session q tid \<longrightarrow> hm_get (tasks q') tid = hm_get (tasks q) tid
         \<or> hm_get (tasks q') tid = None \<and> (\<exists>e. hm_get (tasks q) tid = Some e \<and> is_terminal (te_state e)))"
proof -
  let ?s = "sweep_all env w session reason imm q"
  have inv: "queue_inv q" using reach_queue_inv [OF assms(1)] .
  note dis = disconnect_ok [OF inv assms(3,4)]
  have aff: "set (sw_affected ?s) = {tid. lost_task w session q tid}"
    using sweep_all_affected [OF inv] assms(2) by blast
  have after: "hm_get (tasks q') tid = hm_get (tasks (sw_queue ?s)) tid
      \<or> hm_get (tasks q') tid = None \<and> (\<exists>e. hm_get (tasks (sw_queue ?s)) tid = Some e \<and> is_terminal (te_state e))" for tid
    using dis(3) by (simp add: forgets_def)
  have "(\<exists>e'. swept_entry (retry_policy q) e e'
            \<and> (hm_get (tasks q') tid = Some e' \<or> hm_get (tasks q') tid = None \<and> is_terminal (te_state e')))
         \<and> tid \<notin> assigned_ids (worker_assignments q') w"
    if lost: "lost_task w session q tid" and e: "hm_get (tasks q) tid = Some e" for tid e
  proof -
    have "tid \<in> set (sw_affected ?s)" using lost aff by simp
    then obtain e' where e': "hm_get (tasks (sw_queue ?s)) tid = Some e'" "swept_entry (retry_policy q) e e'"
      using e sweep_rel_affected [OF sweep_all_rel] by (metis option.inject)
    have here: "hm_get (tasks q') tid = Some e' \<or> hm_get (tasks q') tid = None \<and> is_terminal (te_state e')"
      using after [of tid] e'(1) by auto
    have "tid \<notin> assigned_ids (worker_assignments q') w"
      using queue_invD(1) [OF dis(1)] here swept_not_carried [OF e'(2)]
      by (auto simp: core_ok_def assign_ok_def)
    with e'(2) here show ?thesis by blast
  qed
  moreover have "hm_get (tasks q') tid = hm_get (tasks q) tid
      \<or> hm_get (tasks q') tid = None \<and> (\<exists>e. hm_get (tasks q) tid = Some e \<and> is_terminal (te_state e))"
    if "\<not> lost_task w session q tid" for tid
  proof -
    have "tid \<notin> set (sw_affected ?s)" using that aff by simp
    then have "hm_get (tasks (sw_queue ?s)) tid = hm_get (tasks q) tid" by (rule sweep_rel_other [OF sweep_all_rel])
    then show ?thesis using after [of tid] by simp
  qed
  ultimately show ?thesis using aff dis(2) by blast
qed

theorem disconnect_recovers_witness:
  "1 \<notin> assigned_ids (worker_assignments (snd (handle_session_disconnected ex_env 7 (Some 3) ''gone'' True ex_queue2))) 7"
proof -
  obtain ids q' where run: "handle_session_disconnected ex_env 7 (Some 3) ''gone'' True ex_queue2 = (ids, q')" by fastforce
  have order: "\<forall>xs. set (ce_order ex_env xs) = set xs" by (simp add: ex_env_def)
  have lost: "lost_task 7 (Some 3) ex_queue2 1"
    by (simp add: lost_task_iff carries_def session_matches_def mark_scheduled_def)
  have "fits (sw_queue (sweep_all ex_env 7 (Some 3) ''gone'' True ex_queue2))"
    by (simp add: ex_simps sweep_all_def swept_tasks_def hs_insert_def sweep_task_def session_matches_def
        failover_budget_def failover_entry_def evicted_error_def put_entry_def unassign_def mark_scheduled_def
        ex_entry_def new_entry_def requirements_default_def retained_bytes_def history_bytes_def
        fits_def mem_bytes_def hm_total_def hm_map_def hm_put_def usize_max_def ex_env_def Let_def)
  from disconnect_recovers [OF ex_reach2 order this run] lost ex_queue2_get have "1 \<notin> assigned_ids (worker_assignments q') 7"
    by blast
  with run show ?thesis by simp
qed

lemma forgets_at: "forgets T U \<Longrightarrow> hm_get T i = Some e \<Longrightarrow> hm_get U i = Some e \<or> hm_get U i = None"
  unfolding forgets_def by (metis)

section \<open>Sessions\<close>

text \<open>
  C7. Messages of a superseded session have no effect.  If a task is assigned to another worker, or
  to a later session of the same worker, then a start notice, a checkpoint, a result, a send failure
  or a dispatch failure in the name of the old session leaves the queue exactly as it was, and the
  assignment is not delivered to it.
\<close>

theorem stale_session_fenced:
  assumes "hm_get (tasks q) tid = Some e"
    and "te_assigned_worker_id e \<noteq> Some w \<or> (\<exists>s. te_assigned_session e = Some s \<and> c \<noteq> s)"
  shows "snd (mark_running_from env w (Some c) tid q) = q
    \<and> record_checkpoint_from w (Some c) tid cp q = (Inr False, q)
    \<and> requeue_dispatch_failure tid w c q = (Inr False, q)
    \<and> deliver_if_scheduled tid w c send q = None
    \<and> (tr_task_id r = tid \<longrightarrow> fail_unsendable_assignment w (Some c) r q = (Inr Stale, q))
    \<and> (tr_task_id r = tid \<longrightarrow> record_result_from env w (Some c) r q
          = (Inr \<lparr>ro_disposition = Stale, ro_state = te_state e, ro_rejected = False\<rparr>, q))"
proof -
  have "\<not> owned_by e w (Some c)" using assms(2) by (auto simp: owned_by_def)
  with assms(1) show ?thesis
    by (auto simp: mark_running_from_def record_checkpoint_from_def requeue_dispatch_failure_def
        deliver_if_scheduled_def fail_unsendable_assignment_def record_result_from_def)
qed

theorem stale_session_fenced_witness:
  "requeue_dispatch_failure 1 7 2 ex_queue2 = (Inr False, ex_queue2)"
  by (rule stale_session_fenced [OF ex_queue2_get, of 7 2, THEN conjunct2, THEN conjunct2, THEN conjunct1])
    (simp add: mark_scheduled_def)

lemma result_ignored:
  assumes "\<And>e. hm_get (tasks q) (tr_task_id r) = Some e \<Longrightarrow> is_terminal (te_state e)"
    and "record_result_from env w s r q = (res, q')"
  shows "tasks q' = tasks q"
  using assms by (auto simp: record_result_from_def Let_def split: option.splits if_splits)

lemma settle_terminal_result:
  assumes "settle env p w r e = Inr (e', k, Terminal)"
  shows "te_result e' = Some r" "is_terminal (te_state e')"
proof -
  have "te_result e' = Some r \<and> is_terminal (te_state e')"
    using assms by (auto simp: settle_def Let_def split: if_splits)
  then show "te_result e' = Some r" "is_terminal (te_state e')" by simp_all
qed

text \<open>
  C6. A result is accepted at most once.  When a result is reported as final, the task is finished
  with exactly that result (unless it was forgotten at once for lack of room), and no later result
  for the same task, from any worker and any session, changes any task.
\<close>

theorem result_accepted_once:
  assumes "reachable q" "record_result_from env w s r q = (Inr out, q')" "ro_disposition out = Terminal"
  shows "(\<forall>e'. hm_get (tasks q') (tr_task_id r) = Some e' \<longrightarrow> is_terminal (te_state e') \<and> te_result e' = Some r)
    \<and> (\<forall>env2 w2 s2 r2. tr_task_id r2 = tr_task_id r \<longrightarrow>
          tasks (snd (record_result_from env2 w2 s2 r2 q')) = tasks q')"
proof -
  let ?tid = "tr_task_id r"
  have inv: "queue_inv q" using reach_queue_inv [OF assms(1)] .
  from assms(2,3) obtain e where e: "hm_get (tasks q) ?tid = Some e" "owned_by e w s" "\<not> is_terminal (te_state e)"
    by (auto simp: record_result_from_def Let_def split: option.splits if_splits)
  note act = owned_active [OF inv e]
  obtain e' k disp where set: "settle env (retry_policy q) w r e = Inr (e', k, disp)"
    using settle_total [OF act(1)] .
  with assms(2,3) e have disp: "disp = Terminal" by (auto simp: record_result_from_def Let_def split: if_splits)
  note fin = settle_terminal_result [OF set [unfolded disp]]
  let ?q = "insert_index k (put_entry ?tid e' (unassign w ?tid q))"
  have "q' = track_terminal_task ?tid ?q"
    using assms(2) e set fin(2) by (auto simp: record_result_from_def Let_def)
  then have "forgets (tasks ?q) (tasks q')" using track_forgets by simp
  moreover have "hm_get (tasks ?q) ?tid = Some e'"
    by (simp add: insert_index_def hmap_simps split: result_index.splits)
  ultimately have only: "f = e'" if "hm_get (tasks q') ?tid = Some f" for f
    using that forgets_at by fastforce
  have "tasks (snd (record_result_from env2 w2 s2 r2 q')) = tasks q'" if "tr_task_id r2 = ?tid" for env2 w2 s2 r2
    by (rule result_ignored [OF _ prod.collapse [symmetric]]) (use that only fin(2) in auto)
  with only fin show ?thesis by blast
qed

theorem result_accepted_once_witness:
  "tasks (snd (record_result_from ex_env 9 None (result_success 9 1 ''again'' 5 False)
      (snd (record_result_from ex_env 7 (Some 3) (result_success 7 1 ''ok'' 5 False) ex_queue2))))
   = tasks (snd (record_result_from ex_env 7 (Some 3) (result_success 7 1 ''ok'' 5 False) ex_queue2))"
proof -
  let ?r = "result_success 7 1 ''ok'' 5 False"
  obtain res q' where run: "record_result_from ex_env 7 (Some 3) ?r ex_queue2 = (res, q')" by fastforce
  have "\<exists>out. res = Inr out \<and> ro_disposition out = Terminal"
    using run by (auto simp: record_result_from_def settle_def owned_by_def mark_scheduled_def result_success_def
        is_success_def Let_def)
  then obtain out where out: "res = Inr out" "ro_disposition out = Terminal" by blast
  show ?thesis
    using result_accepted_once [OF ex_reach2 run [unfolded out(1)] out(2)] run by (simp add: result_success_def)
qed

section \<open>Admission\<close>

definition has_room :: "TaskQueueInner \<Rightarrow> nat \<Rightarrow> bool" where
  "has_room q n \<longleftrightarrow>
     (\<forall>cap. capacity q = Some cap \<longrightarrow> active_count q < cap) \<and> sat_add (active_bytes q) n \<le> max_active_bytes q"

lemma check_room_iff: "check_room n q = Inr () \<longleftrightarrow> has_room q n"
  by (auto simp: check_room_def check_capacity_def check_bytes_def has_room_def split: option.splits sum.splits)

lemma submit_accepts:
  assumes "task_validate task = Inr ()" "hm_get (tasks q) (t_id task) = None" "has_room q (task_active_bytes task)"
  shows "fst (submit_with_priority env task pr q) = Inr (t_id task)"
proof -
  have "check_capacity q = Inr ()" "check_bytes (task_active_bytes task) q = Inr ()"
    using assms(3) by (auto simp: check_capacity_def check_bytes_def has_room_def split: option.splits)
  moreover have "check_bytes n (q\<lparr>next_sequence := m\<rparr>) = check_bytes n q" for n m
    by (simp add: check_bytes_def)
  ultimately show ?thesis using assms(1,2) by (simp add: submit_with_priority_def Let_def retained_new_entry)
qed

text \<open>
  C8. When a submission is accepted, and what it does.  A task is accepted exactly when it is valid,
  its id is not known, and there is room for it in both limits.  Then it is in the ready queue with
  the next sequence number and the active bytes grow by exactly its size, staying within the limit.
  A refused submission changes no task and no index.
\<close>

theorem submit_outcome:
  assumes "reachable q" "submit_with_priority env task pr q = (r, q')" "fits q'"
  shows "(r = Inr (t_id task) \<longleftrightarrow>
       task_validate task = Inr () \<and> hm_get (tasks q) (t_id task) = None \<and> has_room q (task_active_bytes task))
    \<and> (r = Inr (t_id task) \<longrightarrow>
         tasks q' = hm_put (t_id task) (new_entry env task pr (next_sequence q)) (tasks q)
         \<and> OrderKey pr (next_sequence q) (t_id task) \<in> set (ready_queue q')
         \<and> active_bytes q' = active_bytes q + task_active_bytes task \<and> active_bytes q' \<le> max_active_bytes q)
    \<and> (r \<noteq> Inr (t_id task) \<longrightarrow>
         tasks q' = tasks q \<and> ready_queue q' = ready_queue q \<and> active_bytes q' = active_bytes q)"
proof -
  have inv': "queue_inv q'" by (rule submit_inv [OF reach_queue_inv [OF assms(1)] assms(2,3)])
  have acc: "r = Inr (t_id task)"
    if "task_validate task = Inr ()" "hm_get (tasks q) (t_id task) = None" "has_room q (task_active_bytes task)"
    using submit_accepts [OF that, of env pr] assms(2) by simp
  from assms(2) show ?thesis
  proof (cases rule: submit_cases)
    case 1
    then show ?thesis using acc by auto
  next
    case 2
    then show ?thesis using acc by auto
  next
    case 3
    have room: "has_room q (task_active_bytes task)" using 3(4) by (simp add: check_room_iff)
    have key: "order_key (new_entry env task pr n) (t_id task) = OrderKey pr n (t_id task)" for n
      by (simp add: order_key_def new_entry_def)
    have id: "t_id (te_task (new_entry env task pr n)) = t_id task" for n by (simp add: new_entry_def)
    have sat: "active_bytes q' = sat_add (active_bytes q) (task_active_bytes task)" using 3(5) by simp
    moreover have "active_bytes q' = active_bytes q + task_active_bytes task"
    proof -
      have ex: "active_bytes q' = hm_total (active_sizes q')"
        using queue_invD(3) [OF inv'] by (simp add: sums_ok_def active_ledger.exact_def)
      have exq: "hm_wf (active_sizes q)" "active_bytes q = hm_total (active_sizes q)"
        using queue_invD(3) [OF reach_queue_inv [OF assms(1)]] by (simp_all add: sums_ok_def active_ledger.exact_def)
      have "hm_get (active_sizes q) (t_id task) = None"
        using queue_invD(2) [OF reach_queue_inv [OF assms(1)]] 3(3) by (simp add: books_ok_def active_charge_def)
      then show ?thesis using ex exq 3(5) id by (simp add: hm_total_put_absent)
    qed
    ultimately show ?thesis using 3 room id key by (simp add: has_room_def bts_simps)
  qed
qed

theorem submit_outcome_witness: "active_bytes ex_queue1 = 1026"
  using submit_outcome [OF ex_reach0 ex_queue1_eq ex_fits(1)]
  by (simp add: ex_queue0_def with_retention_limits_def)

definition emptied :: "TaskQueueInner \<Rightarrow> TaskQueueInner" where
  "emptied q = with_retention_limits (retry_policy q) (capacity q) (max_terminal_tasks q)
     (max_terminal_bytes q) (max_active_bytes q)"

lemma emptied_room: "has_room (emptied q) n \<longleftrightarrow> capacity q \<noteq> Some 0 \<and> min usize_max n \<le> max_active_bytes q"
  by (auto simp: emptied_def has_room_def with_retention_limits_def active_count_def hm_count_def sat_add_def)

lemma emptied_accepts:
  assumes "task_validate task = Inr ()"
  shows "(\<exists>i. fst (submit_with_priority env task pr (emptied q)) = Inr i) \<longleftrightarrow> has_room (emptied q) (task_active_bytes task)"
proof
  assume "has_room (emptied q) (task_active_bytes task)"
  with assms show "\<exists>i. fst (submit_with_priority env task pr (emptied q)) = Inr i"
    using submit_accepts [of task "emptied q"] by (auto simp: emptied_def with_retention_limits_def)
next
  assume "\<exists>i. fst (submit_with_priority env task pr (emptied q)) = Inr i"
  then obtain i r q' where "submit_with_priority env task pr (emptied q) = (r, q')" "r = Inr i"
    by (metis prod.collapse)
  then show "has_room (emptied q) (task_active_bytes task)"
    by (cases rule: submit_cases) (auto simp: check_room_iff)
qed



section \<open>Cancellation\<close>

text \<open>
  C22. Cancellation on every branch.  An unknown task is an error and a finished one keeps its result;
  neither changes the queue.  Any other task ends as cancelled with a result (or is forgotten at once
  for lack of room), the worker to notify is exactly the one that was running it, and the task is
  gone from the ready queue and from every worker's assignments.
\<close>

theorem cancel_outcome:
  assumes "reachable q" "cancel_task_detailed tid why q = (r, q')"
  shows "(case hm_get (tasks q) tid of
     None \<Rightarrow> r = Inl (TaskNotFound tid) \<and> q' = q
   | Some e \<Rightarrow>
       if is_terminal (te_state e)
       then r = Inr \<lparr>co_newly_cancelled = False, co_worker_to_notify = None, co_result = te_result e\<rparr> \<and> q' = q
       else r = Inr \<lparr>co_newly_cancelled = True,
                     co_worker_to_notify = (if is_active (te_state e) then te_assigned_worker_id e else None),
                     co_result = te_result (cancelled_entry tid why e)\<rparr>
         \<and> hm_get (tasks q') tid \<in> {None, Some (cancelled_entry tid why e)}
         \<and> te_state (cancelled_entry tid why e) = Cancelled \<and> te_result (cancelled_entry tid why e) \<noteq> None
         \<and> (\<forall>k \<in> set (ready_queue q'). qk_task_id k \<noteq> tid)
         \<and> (\<forall>w. tid \<notin> assigned_ids (worker_assignments q') w))"
proof (cases "hm_get (tasks q) tid")
  case None
  with assms(2) show ?thesis by (simp add: cancel_task_detailed_def)
next
  case (Some e)
  show ?thesis
  proof (cases "is_terminal (te_state e)")
    case True
    with Some assms(2) show ?thesis by (simp add: cancel_task_detailed_def)
  next
    case False
    let ?e = "cancelled_entry tid why e"
    have inv: "queue_inv q" using reach_queue_inv [OF assms(1)] .
    have inv': "queue_inv q'" by (rule cancel_inv [OF inv assms(2)])
    have ok: "entry_ok tid e" using core_entry [OF reach_core [OF assms(1)] Some] .
    have notify: "fst (unindex_cancelled tid e q) = (if is_active (te_state e) then te_assigned_worker_id e else None)"
      by (cases "te_state e") (simp_all add: unindex_cancelled_def)
    have q': "q' = track_terminal_task tid (put_entry tid ?e (snd (unindex_cancelled tid e q)))"
      using cancel_detailed_eq [OF Some False, of why] assms(2) by simp
    have "forgets (hm_put tid ?e (tasks (snd (unindex_cancelled tid e q)))) (tasks q')"
      unfolding q' using track_forgets [of "put_entry tid ?e (snd (unindex_cancelled tid e q))" tid] by simp
    then have here: "hm_get (tasks q') tid \<in> {None, Some ?e}"
      using forgets_at [where i = tid and e = ?e] by (fastforce simp: hmap_simps)
    have st: "te_state ?e = Cancelled" "te_result ?e \<noteq> None"
      by (auto simp: cancelled_entry_def Let_def split: option.splits)
    have "qk_task_id k \<noteq> tid" if k: "k \<in> set (ready_queue q')" for k
    proof -
      obtain f where "hm_get (tasks q') (qk_task_id k) = Some f" "te_state f = Queued" using ready_key_mem [OF inv' k] .
      with here st(1) show ?thesis by auto
    qed
    moreover have "tid \<notin> assigned_ids (worker_assignments q') w" for w
      using queue_invD(1) [OF inv'] here st(1) by (auto simp: core_ok_def assign_ok_def carries_def)
    moreover have "r = Inr \<lparr>co_newly_cancelled = True,
        co_worker_to_notify = (if is_active (te_state e) then te_assigned_worker_id e else None), co_result = te_result ?e\<rparr>"
      using assms(2) Some False notify by (auto simp: cancel_task_detailed_def Let_def split: prod.splits)
    ultimately show ?thesis using Some False here st by simp
  qed
qed

theorem cancel_outcome_witness:
  "co_worker_to_notify (projr (fst (cancel_task_detailed 1 None ex_queue2))) = Some 7"
proof -
  obtain r q' where run: "cancel_task_detailed 1 None ex_queue2 = (r, q')" by fastforce
  show ?thesis using cancel_outcome [OF ex_reach2 run] run by (simp add: mark_scheduled_def)
qed

section \<open>Checkpoints\<close>

lemma active_bytes_grow:
  assumes "queue_inv q" "hm_get (tasks q) tid = Some e" "\<not> is_terminal (te_state e)" "queue_inv q'"
    and "tasks q' = hm_put tid e' (tasks q)" "\<not> is_terminal (te_state e')"
  shows "active_bytes q' + retained_bytes e = active_bytes q + retained_bytes e'"
proof -
  have ex: "hm_wf (active_sizes q)" "active_bytes q = hm_total (active_sizes q)"
      "hm_wf (active_sizes q')" "active_bytes q' = hm_total (active_sizes q')"
    using queue_invD(3) [OF assms(1)] queue_invD(3) [OF assms(4)] by (simp_all add: sums_ok_def active_ledger.exact_def)
  have get: "hm_get (active_sizes q) i = active_charge (hm_get (tasks q) i)"
      "hm_get (active_sizes q') i = active_charge (hm_get (tasks q') i)" for i
    using queue_invD(2) [OF assms(1)] queue_invD(2) [OF assms(4)] by (simp_all add: books_ok_def)
  have "hm_total (active_sizes q') = hm_total (hm_put tid (retained_bytes e') (active_sizes q))"
    by (rule hm_total_eq) (use ex assms(5,6) in \<open>auto simp: get hmap_simps active_charge_def\<close>)
  moreover have "hm_get (active_sizes q) tid = Some (retained_bytes e)" using get(1) assms(2,3) by (simp add: active_charge_def)
  ultimately show ?thesis using hm_total_put [OF ex(1), of tid "retained_bytes e'"] ex by simp
qed

lemma active_fits:
  assumes "queue_inv q" "fits q"
  shows "active_bytes q \<le> usize_max"
proof -
  have ex: "hm_wf (active_sizes q)" "active_bytes q = hm_total (active_sizes q)"
    using queue_invD(3) [OF assms(1)] by (simp_all add: sums_ok_def active_ledger.exact_def)
  have "hm_total (active_sizes q) \<le> mem_bytes (tasks q)"
    unfolding mem_bytes_def
    using active_sizes_le_mem [OF queue_invD(2) [OF assms(1)] stale_le_empty] core_wf(1) [OF queue_invD(1) [OF assms(1)]] ex(1)
    by (intro hm_total_mono) simp_all
  with assms(2) ex(2) show ?thesis by (simp add: fits_def)
qed

text \<open>
  C23. Checkpoints only move forward.  A checkpoint reported by a worker is stored exactly when that
  worker is running the task in that session, the checkpoint is newer than the one stored, and its
  growth fits the active byte limit; then it is what a re-run starts from, and the byte limit holds
  if it held before.  Otherwise no task changes.
\<close>

theorem checkpoint_moves_forward:
  assumes "reachable q" "hm_get (tasks q) tid = Some e" "record_checkpoint_from w s tid cp q = (r, q')" "fits q'"
  shows "if is_active (te_state e) \<and> owned_by e w s \<and> is_newer_checkpoint e cp
           \<and> checkpoint_exceeds_active_cap e cp (active_bytes q) (max_active_bytes q) = None
         then r = Inr True \<and> get_checkpoint tid q' = Some cp
           \<and> tasks q' = hm_put tid (e\<lparr>te_task := update_checkpoint cp (te_task e)\<rparr>) (tasks q)
           \<and> (active_bytes q \<le> max_active_bytes q \<longrightarrow> active_bytes q' \<le> max_active_bytes q)
         else r \<noteq> Inr True \<and> tasks q' = tasks q"
proof -
  let ?e = "e\<lparr>te_task := update_checkpoint cp (te_task e)\<rparr>"
  have inv: "queue_inv q" using reach_queue_inv [OF assms(1)] .
  show ?thesis
  proof (cases "is_active (te_state e) \<and> owned_by e w s \<and> is_newer_checkpoint e cp
      \<and> checkpoint_exceeds_active_cap e cp (active_bytes q) (max_active_bytes q) = None")
    case True
    have q': "r = Inr True" "tasks q' = hm_put tid ?e (tasks q)"
      using True assms(2,3)
      by (auto simp: record_checkpoint_from_def store_checkpoint_def apply_checkpoint_def Let_def)
    have inv': "queue_inv q'" by (rule record_checkpoint_from_inv [OF inv assms(3,4)])
    have live: "\<not> is_terminal (te_state e)" using True state_fsm.active_not_terminal by blast
    have grow: "active_bytes q' + retained_bytes e = active_bytes q + retained_bytes ?e"
      by (rule active_bytes_grow [OF inv assms(2) live inv' q'(2)]) (use live in simp)
    let ?old = "map_or_zero (length \<circ> cp_delta_state) (t_latest_checkpoint (te_task e))"
    let ?new = "length (cp_delta_state cp)"
    have sz: "retained_bytes ?e + ?old = retained_bytes e + ?new" "?old \<le> retained_bytes e"
      by (simp_all add: retained_bytes_def task_active_bytes_def update_checkpoint_def)
    have charge: "retained_bytes e \<le> active_bytes q"
    proof -
      have "hm_get (active_sizes q) tid = Some (retained_bytes e)"
        using queue_invD(2) [OF inv] assms(2) live by (simp add: books_ok_def active_charge_def)
      then show ?thesis
        using queue_invD(3) [OF inv] hm_total_del [of "active_sizes q" tid] by (simp add: sums_ok_def active_ledger.exact_def)
    qed
    have "active_bytes q' \<le> max_active_bytes q" if fit: "active_bytes q \<le> max_active_bytes q"
    proof (cases "?old < ?new")
      case old_less: True
      then have "sat_add (active_bytes q - ?old) ?new \<le> max_active_bytes q"
        using True by (auto simp: checkpoint_exceeds_active_cap_def Let_def split: if_splits)
      moreover have "active_bytes q' = active_bytes q - ?old + ?new" using grow sz charge by linarith
      moreover have "active_bytes q' \<le> usize_max" by (rule active_fits [OF inv' assms(4)])
      ultimately show ?thesis by (simp add: sat_add_exact)
    next
      case False
      then show ?thesis using grow sz fit by linarith
    qed
    then show ?thesis
      using True q' by (simp add: get_checkpoint_def hmap_simps update_checkpoint_def)
  next
    case False
    then show ?thesis
      using assms(2,3) state_fsm.active_not_terminal
      by (auto simp: record_checkpoint_from_def store_checkpoint_def apply_checkpoint_def Let_def hm_put_same
          split: option.splits if_splits)
  qed
qed

theorem checkpoint_moves_forward_witness:
  "get_checkpoint 1 (snd (record_checkpoint_from 7 (Some 3) 1
     \<lparr>cp_sequence = 4, cp_delta_state = ''ab'', cp_timestamp = 0\<rparr> ex_queue2))
   = Some \<lparr>cp_sequence = 4, cp_delta_state = ''ab'', cp_timestamp = 0\<rparr>"
proof -
  let ?cp = "\<lparr>cp_sequence = 4, cp_delta_state = ''ab'', cp_timestamp = 0\<rparr>"
  let ?e = "mark_scheduled ex_env 7 (Some 3) (ex_entry 1 5 1)"
  obtain r q' where run: "record_checkpoint_from 7 (Some 3) 1 ?cp ex_queue2 = (r, q')" by fastforce
  have new: "is_newer_checkpoint ?e ?cp"
    by (simp add: is_newer_checkpoint_def mark_scheduled_def ex_entry_def new_entry_def)
  have fit: "checkpoint_exceeds_active_cap ?e ?cp (active_bytes ex_queue2) (max_active_bytes ex_queue2) = None"
    by (simp add: checkpoint_exceeds_active_cap_def new mark_scheduled_def ex_entry_def new_entry_def
        ex_simps sat_add_def usize_max_def)
  have own: "is_active (te_state ?e)" "owned_by ?e 7 (Some 3)" by (simp_all add: mark_scheduled_def owned_by_def)
  have "tasks q' = [(1, ?e\<lparr>te_task := update_checkpoint ?cp (te_task ?e)\<rparr>)]"
    using run own new fit
    by (auto simp: record_checkpoint_from_def store_checkpoint_def apply_checkpoint_def Let_def)
      (simp add: ex_simps hm_put_def)
  then have "fits q'"
    by (simp add: fits_def mem_bytes_def hm_total_def hm_map_def retained_bytes_def update_checkpoint_def
        mark_scheduled_def ex_entry_def new_entry_def history_bytes_def usize_max_def task_active_bytes_def
        ex_task_def task_new_def new_command_def RETAINED_ENTRY_OVERHEAD_BYTES_def lens_def env_bytes_def)
  from checkpoint_moves_forward [OF ex_reach2 ex_queue2_get run this] own new fit run show ?thesis by simp
qed

section \<open>Backoff\<close>

lemma dk_le: "(a :: DelayedRetryKey) \<le> b \<Longrightarrow> dk_retry_after a \<le> dk_retry_after b"
  by (auto simp: less_eq_DelayedRetryKey_def less_DelayedRetryKey_def)

lemma bts_takeWhile_all:
  assumes "bts_wf (D :: DelayedRetryKey list)" "k \<in> set D" "dk_retry_after k \<le> now"
  shows "k \<in> set (takeWhile (\<lambda>k. dk_retry_after k \<le> now) D)"
  using assms
proof (induction D)
  case (Cons d D)
  have tail: "bts_wf D" and least: "\<forall>x \<in> set D. d < x" using Cons.prems(1) by (simp_all add: bts_wf_def)
  have "dk_retry_after d \<le> dk_retry_after k" using Cons.prems(2) least dk_le [of d k] by auto
  then show ?case using Cons.IH [OF tail] Cons.prems(2,3) by auto
qed simp

lemma bts_dropWhile_all:
  assumes "bts_wf (D :: DelayedRetryKey list)" "k \<in> set (dropWhile (\<lambda>k. dk_retry_after k \<le> now) D)"
  shows "now < dk_retry_after k"
  using assms
proof (induction D)
  case (Cons d D)
  have tail: "bts_wf D" and least: "\<forall>x \<in> set D. d < x" using Cons.prems(1) by (simp_all add: bts_wf_def)
  show ?case
  proof (cases "dk_retry_after d \<le> now")
    case True
    then show ?thesis using Cons.IH [OF tail] Cons.prems(2) by simp
  next
    case False
    then show ?thesis using Cons.prems(2) least dk_le [of d k] by fastforce
  qed
qed simp

lemma promote_fold_delayed [simp]: "delayed_retries (fold promote_retry tids q) = delayed_retries q"
proof (induction tids arbitrary: q)
  case (Cons i tids)
  have "delayed_retries (promote_retry i q) = delayed_retries q"
    by (simp add: promote_retry_def split: option.splits)
  with Cons show ?case by simp
qed simp

text \<open>
  C10. Backoffs end.  One pass over the delayed retries moves every task whose backoff has ended into
  the ready queue, leaves every task that is not waiting for a retry alone, and keeps only keys that
  are not due yet; so after the pass no task is left waiting past its instant.
\<close>

theorem delayed_retries_end:
  assumes "reachable q" "process_delayed_retries env q = (n, q')"
  shows "(\<forall>tid e t. hm_get (tasks q) tid = Some e \<and> te_state e = Retrying \<and> te_retry_after_instant e = Some t \<and> t \<le> ce_now env \<longrightarrow>
       hm_get (tasks q') tid = Some (e\<lparr>te_state := Queued, te_retry_after_instant := None\<rparr>)
       \<and> order_key e tid \<in> set (ready_queue q'))
    \<and> (\<forall>tid e. hm_get (tasks q) tid = Some e \<and> te_state e \<noteq> Retrying \<longrightarrow> hm_get (tasks q') tid = Some e)
    \<and> (\<forall>k \<in> set (delayed_retries q'). ce_now env < dk_retry_after k)"
proof (intro conjI allI impI ballI)
  note inv = reach_queue_inv [OF assms(1)]
  note core = queue_invD(1) [OF inv]
  note inv' = process_delayed_inv [OF inv assms(2)]
  have sorted: "bts_wf (delayed_retries q)" using core_wf(3) [OF core] .
  have due: "dk_task_id k \<in> set (fst (due_retries (ce_now env) (delayed_retries q)))"
    if "k \<in> set (delayed_retries q)" "dk_retry_after k \<le> ce_now env" for k
    using bts_takeWhile_all [OF sorted that] by (simp add: due_retries_eq)
  {
    fix tid e t assume e: "hm_get (tasks q) tid = Some e \<and> te_state e = Retrying
        \<and> te_retry_after_instant e = Some t \<and> t \<le> ce_now env"
    then have "RetryKey t tid \<in> set (delayed_retries q)"
      using core unfolding core_ok_def delayed_ok_def by fastforce
    then have "tid \<in> set (fst (due_retries (ce_now env) (delayed_retries q)))" using due e by fastforce
    with e show get: "hm_get (tasks q') tid = Some (e\<lparr>te_state := Queued, te_retry_after_instant := None\<rparr>)"
      by (simp add: delayed_entries [OF assms(2)])
    show "order_key e tid \<in> set (ready_queue q')"
      using ready_key_iff [OF queue_invD(1) [OF inv'] get] by (simp add: order_key_def)
  next
    fix tid e assume "hm_get (tasks q) tid = Some e \<and> te_state e \<noteq> Retrying"
    then show "hm_get (tasks q') tid = Some e" by (simp add: delayed_entries [OF assms(2)])
  next
    fix k assume "k \<in> set (delayed_retries q')"
    moreover have "delayed_retries q' = dropWhile (\<lambda>k. dk_retry_after k \<le> ce_now env) (delayed_retries q)"
      using assms(2) by (auto simp: process_delayed_retries_def due_retries_eq promote_fold_delayed)
    ultimately show "ce_now env < dk_retry_after k" using bts_dropWhile_all [OF sorted] by simp
  }
qed

theorem delayed_retries_end_witness:
  "get_state 1 ex_queue3 = Some Retrying \<and> get_state 1 (snd (process_delayed_retries ex_late ex_queue3)) = Some Queued"
proof -
  obtain n q' where run: "process_delayed_retries ex_late ex_queue3 = (n, q')" by fastforce
  have "hm_get (tasks q') 1 = Some ((settle_retry ex_env ex_policy 7 ex_fail ex_entry2)
      \<lparr>te_state := Queued, te_retry_after_instant := None\<rparr>)"
    using delayed_retries_end [OF ex_reach3 run] ex_queue3_get ex_entry3 by (fastforce simp: ex_late_def)
  with run ex_entry3 show ?thesis by (simp add: get_state_def)
qed

section \<open>The bound a task declares\<close>

text \<open>
  C28. A task's own retry bound does not stop re-runs after execution failures.  The policy's
  documentation says that \<^verbatim>\<open>requirements.max_retries\<close> bounds all re-runs of the task; the code consults
  it for failovers only, so a task that declares the bound 0 and fails is queued for another run
  whenever the policy retries execution failures.
\<close>

theorem task_bound_not_applied:
  assumes "hm_get (tasks q) (tr_task_id r) = Some e" "is_active (te_state e)" "owned_by e w s"
    and "req_max_retries (t_requirements (te_task e)) = Some 0" "te_retry_count e = 0"
    and "rp_retry_on_execution_failure (retry_policy q)" "0 < rp_max_retries (retry_policy q)"
    and "\<not> is_success r" "tr_exit_code r \<noteq> 130"
  shows "\<exists>out q' e'. record_result_from env w s r q = (Inr out, q') \<and> ro_disposition out = Requeued
    \<and> hm_get (tasks q') (tr_task_id r) = Some e' \<and> te_state e' = Retrying \<and> te_retry_count e' = 1"
proof -
  let ?e = "settle_retry env (retry_policy q) w r e"
  have "\<not> fst (failover_budget (retry_policy q) e)" using assms(4,5) by (simp add: failover_budget_def)
  then have "\<exists>k. settle env (retry_policy q) w r e = Inr (?e, k, Requeued)"
    using assms(5-9) by (simp add: settle_def Let_def)
  then obtain k where "settle env (retry_policy q) w r e = Inr (?e, k, Requeued)" ..
  moreover have "te_state ?e = Retrying" "te_retry_count ?e = 1" using assms(5) by (simp_all add: settle_retry_def Let_def)
  moreover have "tasks (insert_index k q1) = tasks q1" for q1
    by (simp add: insert_index_def split: result_index.splits)
  ultimately show ?thesis
    using assms(1,3) state_fsm.active_not_terminal [OF assms(2)]
    by (simp add: record_result_from_def Let_def hmap_simps)
qed

theorem task_bound_not_applied_witness:
  "\<exists>out q' e'. record_result_from ex_env 7 (Some 3) ex_fail (ex_queue2\<lparr>tasks := [(1, ex_entry2\<lparr>te_task :=
       (ex_task 1)\<lparr>t_requirements := with_max_retries requirements_default 0\<rparr>\<rparr>)]\<rparr>) = (Inr out, q')
     \<and> ro_disposition out = Requeued \<and> hm_get (tasks q') 1 = Some e' \<and> te_state e' = Retrying \<and> te_retry_count e' = 1"
proof -
  let ?e = "ex_entry2\<lparr>te_task := (ex_task 1)\<lparr>t_requirements := with_max_retries requirements_default 0\<rparr>\<rparr>"
  let ?q = "ex_queue2\<lparr>tasks := [(1, ?e)]\<rparr>"
  have r: "tr_task_id ex_fail = 1" "\<not> is_success ex_fail" "tr_exit_code ex_fail \<noteq> 130"
    by (simp_all add: ex_fail_def result_failure_def is_success_def)
  have e: "is_active (te_state ?e)" "owned_by ?e 7 (Some 3)" "te_retry_count ?e = 0"
    "req_max_retries (t_requirements (te_task ?e)) = Some 0"
    by (simp_all add: mark_scheduled_def owned_by_def ex_entry_def new_entry_def with_max_retries_def)
  have p: "rp_retry_on_execution_failure (retry_policy ?q)" "0 < rp_max_retries (retry_policy ?q)"
    by (simp_all add: ex_simps)
  have "hm_get (tasks ?q) (tr_task_id ex_fail) = Some ?e" by (simp add: hm_get_def r)
  from task_bound_not_applied [OF this e(1,2,4,3) p r(2,3), of ex_env] show ?thesis by (simp add: r)
qed

end
