(* ===== verification/Queue_Views.thy ===== *)
theory Queue_Views
  imports Queue_Examples "HOL-Library.Multiset"
begin

text \<open>
  What the queue shows of itself: the pages of the ready queue that the scheduler reads, the load
  per worker, the newest tasks and the counters of the dashboard, and the values of the backoff.
\<close>

section \<open>Pages of the ready queue\<close>

definition entry_view :: "TaskEntry \<Rightarrow> TaskView" where
  "entry_view e = (view_of (te_task e))\<lparr>tv_avoid := te_avoid_workers e\<rparr>"

definition queued_views :: "TaskQueueInner \<Rightarrow> QueueOrderKey list \<Rightarrow> TaskView list" where
  "queued_views q ks = List.map_filter (\<lambda>k. map_option entry_view (queued_entry q k)) ks"

text \<open>A reader that asks for page after page, as the scheduler does.\<close>

fun read_pages :: "nat \<Rightarrow> TaskQueueInner \<Rightarrow> QueueOrderKey option \<Rightarrow> nat \<Rightarrow> TaskView list" where
  "read_pages 0 q after page = []"
| "read_pages (Suc n) q after page =
     (case ready_views q after page of
        (views, None) \<Rightarrow> views
      | (views, Some k) \<Rightarrow> views @ read_pages n q (Some k) page)"

lemma ready_views_loop_eq:
  assumes "length acc < page"
  shows "case ready_views_loop q page acc ks of
      (views, None) \<Rightarrow> views = acc @ queued_views q ks \<and> length views < page
    | (views, Some k) \<Rightarrow> \<exists>pre post. ks = pre @ k # post \<and> views = acc @ queued_views q (pre @ [k]) \<and> length views = page"
  using assms
proof (induction q page acc ks rule: ready_views_loop.induct)
  case (1 q page views)
  then show ?case by (simp add: queued_views_def map_filter_simps)
next
  case (2 q page acc k ks)
  show ?case
  proof (cases "queued_entry q k")
    case None
    have skip: "queued_views q (k # xs) = queued_views q xs" for xs
      using None by (simp add: queued_views_def map_filter_simps)
    from "2.IH"(1) [OF None "2.prems"] None show ?thesis
      by (fastforce simp: skip split: prod.splits option.splits intro: exI [of _ "k # _"])
  next
    case (Some e)
    let ?acc = "acc @ [entry_view e]"
    have head: "queued_views q (k # xs) = entry_view e # queued_views q xs" for xs
      using Some by (simp add: queued_views_def map_filter_simps)
    have nil: "queued_views q [] = []" by (simp add: queued_views_def map_filter_simps)
    show ?thesis
    proof (cases "page \<le> length ?acc")
      case True
      then have "length ?acc = page" using "2.prems" by simp
      moreover have loop: "ready_views_loop q page acc (k # ks) = (?acc, Some k)"
        using True Some by (simp add: entry_view_def)
      moreover have "k # ks = [] @ k # ks" "?acc = acc @ queued_views q ([] @ [k])" by (simp_all add: head nil)
      ultimately show ?thesis unfolding loop case_prod_conv option.case by blast
    next
      case False
      have loop: "ready_views_loop q page acc (k # ks) = ready_views_loop q page ?acc ks"
        using False Some by (simp add: entry_view_def)
      from "2.IH"(2) [OF Some refl] False show ?thesis
        unfolding loop
        by (fastforce simp: entry_view_def [symmetric] head split: prod.splits option.splits intro: exI [of _ "k # _"])
    qed
  qed
qed

lemma queued_views_append: "queued_views q (xs @ ys) = queued_views q xs @ queued_views q ys"
  by (induction xs) (simp_all add: queued_views_def map_filter_simps split: option.splits)

lemma filter_after:
  assumes "sorted_wrt (<) (xs @ (k :: QueueOrderKey) # ys)"
  shows "filter (\<lambda>k'. k < k') (xs @ k # ys) = ys"
proof -
  have "\<forall>x \<in> set xs. x < k" "\<forall>y \<in> set ys. k < y" using assms by (auto simp: sorted_wrt_append)
  then have "filter (\<lambda>k'. k < k') xs = []" "filter (\<lambda>k'. k < k') ys = ys"
    by (auto simp: filter_empty_conv filter_id_conv)
  then show ?thesis by simp
qed

lemma read_pages_from:
  assumes "sorted_wrt (<) (ready_queue q)" "0 < page" "length (keys_after after (ready_queue q)) < n"
    and "\<exists>xs. ready_queue q = xs @ keys_after after (ready_queue q)"
  shows "read_pages n q after page = queued_views q (keys_after after (ready_queue q))"
  using assms(3,4)
proof (induction n arbitrary: after)
  case (Suc n)
  let ?ks = "keys_after after (ready_queue q)"
  obtain views nxt where rv: "ready_views q after page = (views, nxt)" by fastforce
  then have loop: "ready_views_loop q page [] ?ks = (views, nxt)" by (simp add: ready_views_def)
  have start: "length ([] :: TaskView list) < page" using assms(2) by simp
  show ?case
  proof (cases nxt)
    case None
    then show ?thesis using ready_views_loop_eq [OF start, of q ?ks] loop rv by simp
  next
    case (Some k)
    then obtain pre post where ks: "?ks = pre @ k # post" and v: "views = queued_views q (pre @ [k])"
      using ready_views_loop_eq [OF start, of q ?ks] loop by auto
    obtain xs where xs: "ready_queue q = xs @ ?ks" using Suc.prems(2) by blast
    then have all: "ready_queue q = (xs @ pre) @ k # post" using ks by simp
    have rest: "keys_after (Some k) (ready_queue q) = post"
      using filter_after [of "xs @ pre" k post] assms(1) all by (simp add: keys_after_def)
    have "\<exists>zs. ready_queue q = zs @ post" using all by (intro exI [of _ "xs @ pre @ [k]"]) simp
    moreover have "length post < n" using Suc.prems(1) ks by simp
    ultimately have "read_pages n q (Some k) page = queued_views q post"
      using Suc.IH [of "Some k", unfolded rest] by blast
    moreover have "queued_views q ?ks = queued_views q (pre @ [k]) @ queued_views q post"
      unfolding queued_views_append [symmetric] by (simp add: ks)
    ultimately show ?thesis using Some rv v by simp
  qed
qed simp

text \<open>
  C24. Paging loses nothing and repeats nothing.  Reading the ready queue page by page, each page
  starting after the cursor the last one returned, yields the view of every queued task exactly
  once, in dispatch order, whatever the page size; the number of pages is bounded by the queue.
\<close>

theorem ready_pages_complete:
  assumes "reachable q" "0 < page" "length (ready_queue q) < n"
  shows "read_pages n q None page =
      map (\<lambda>k. entry_view (the (hm_get (tasks q) (qk_task_id k)))) (ready_queue q)
    \<and> distinct (map qk_task_id (ready_queue q))
    \<and> qk_task_id ` set (ready_queue q) = {tid. \<exists>e. hm_get (tasks q) tid = Some e \<and> te_state e = Queued}"
proof -
  have core: "core {} q" using queue_invD(1) [OF queue.reach_inv [OF assms(1)]] .
  have ready: "ready_ok (tasks q) (ready_queue q)" using core by (simp add: core_ok_def)
  have wf: "bts_wf (ready_queue q)" using core_wf(2) [OF core] .
  have key: "\<exists>e. hm_get (tasks q) (qk_task_id k) = Some e \<and> te_state e = Queued \<and> k = order_key e (qk_task_id k)"
    if "k \<in> set (ready_queue q)" for k
    using ready that by (auto simp: ready_ok_def)
  have "queued_views q ks = map (\<lambda>k. entry_view (the (hm_get (tasks q) (qk_task_id k)))) ks"
    if "set ks \<subseteq> set (ready_queue q)" for ks
    using that
  proof (induction ks)
    case (Cons k ks)
    then obtain e where "hm_get (tasks q) (qk_task_id k) = Some e" "te_state e = Queued" using key [of k] by auto
    with Cons show ?case by (simp add: queued_views_def map_filter_simps queued_entry_def)
  qed (simp add: queued_views_def map_filter_simps)
  moreover have "read_pages n q None page = queued_views q (keys_after None (ready_queue q))"
    by (rule read_pages_from) (use wf assms in \<open>auto simp: bts_wf_def keys_after_def\<close>)
  moreover have "inj_on qk_task_id (set (ready_queue q))"
  proof (rule inj_onI)
    fix a b assume "a \<in> set (ready_queue q)" "b \<in> set (ready_queue q)" "qk_task_id a = qk_task_id b"
    then show "a = b" using key [of a] key [of b] by auto
  qed
  then have "distinct (map qk_task_id (ready_queue q))" using bts_wf_distinct [OF wf] by (simp add: distinct_map)
  moreover have "qk_task_id ` set (ready_queue q) = {tid. \<exists>e. hm_get (tasks q) tid = Some e \<and> te_state e = Queued}"
  proof (intro equalityI subsetI)
    fix tid assume "tid \<in> {tid. \<exists>e. hm_get (tasks q) tid = Some e \<and> te_state e = Queued}"
    then obtain e where "hm_get (tasks q) tid = Some e" "te_state e = Queued" by blast
    then have "order_key e tid \<in> set (ready_queue q)" using ready_key_iff [OF core] by simp
    then show "tid \<in> qk_task_id ` set (ready_queue q)" by force
  qed (use key in force)
  ultimately show ?thesis by (simp add: keys_after_def)
qed

theorem ready_pages_complete_witness: "length (read_pages 2 ex_queue1 None 1) = 1"
proof -
  have "ready_queue ex_queue1 = [OrderKey 5 1 1]" by (simp add: ex_queue1_def)
  then show ?thesis using ready_pages_complete [OF ex_reach1, of 1 2] by simp
qed

section \<open>The newest tasks\<close>

text \<open>What the standard library promises of \<^verbatim>\<open>select_nth_unstable_by_key\<close> with the key \<^verbatim>\<open>Reverse(sequence)\<close>.\<close>

definition selects :: "(nat \<Rightarrow> TaskEntry list \<Rightarrow> TaskEntry list) \<Rightarrow> bool" where
  "selects select \<longleftrightarrow>
     (\<forall>k xs. k < length xs \<longrightarrow>
        mset (select k xs) = mset xs
        \<and> (\<forall>i < k. te_sequence (select k xs ! k) \<le> te_sequence (select k xs ! i))
        \<and> (\<forall>j < length xs. k < j \<longrightarrow> te_sequence (select k xs ! j) \<le> te_sequence (select k xs ! k)))"

lemma newest_first_split:
  assumes "inj_on te_sequence (set (A @ B))" "\<forall>a \<in> set A. \<forall>b \<in> set B. te_sequence b \<le> te_sequence a"
    and "mset M = mset (A @ B)"
  shows "newest_first M = newest_first A @ newest_first B"
proof -
  have "sort_key te_sequence M = sort_key te_sequence B @ sort_key te_sequence A"
  proof (rule sort_key_inj_key_eq)
    show "mset M = mset (sort_key te_sequence B @ sort_key te_sequence A)" using assms(3) by simp
    show "inj_on te_sequence (set M)" using assms(1) mset_eq_setD [OF assms(3)] by simp
    show "sorted (map te_sequence (sort_key te_sequence B @ sort_key te_sequence A))"
      using assms(2) by (auto simp: sorted_append)
  qed
  then show ?thesis by (simp add: newest_first_def)
qed

lemma select_newest:
  assumes "selects select" "0 < w" "w < length M" "inj_on te_sequence (set M)"
  shows "newest_first (take w (select (w - 1) M)) = take w (newest_first M)"
proof -
  let ?S = "select (w - 1) M"
  have k: "w - 1 < length M" using assms(2,3) by simp
  have S: "mset ?S = mset M"
    "\<And>i. i < w - 1 \<Longrightarrow> te_sequence (?S ! (w - 1)) \<le> te_sequence (?S ! i)"
    "\<And>j. j < length M \<Longrightarrow> w - 1 < j \<Longrightarrow> te_sequence (?S ! j) \<le> te_sequence (?S ! (w - 1))"
    using assms(1) k by (auto simp: selects_def)
  have len: "length ?S = length M" using mset_eq_length [OF S(1)] .
  have "te_sequence b \<le> te_sequence a" if a: "a \<in> set (take w ?S)" and b: "b \<in> set (drop w ?S)" for a b
  proof -
    obtain i where "i < length (take w ?S)" "take w ?S ! i = a" using a unfolding in_set_conv_nth by blast
    then have i: "i < w" "a = ?S ! i" by auto
    obtain j where "j < length (drop w ?S)" "drop w ?S ! j = b" using b unfolding in_set_conv_nth by blast
    then have j: "w + j < length M" "b = ?S ! (w + j)" using len by auto
    have "te_sequence b \<le> te_sequence (?S ! (w - 1))" using S(3) [OF j(1)] j(2) assms(2) by simp
    also have "\<dots> \<le> te_sequence a" using S(2) [of i] i by (cases "i = w - 1") auto
    finally show ?thesis .
  qed
  moreover have "inj_on te_sequence (set (take w ?S @ drop w ?S))" using assms(4) mset_eq_setD [OF S(1)] by simp
  moreover have "mset M = mset (take w ?S @ drop w ?S)" using S(1) by simp
  ultimately have "newest_first M = newest_first (take w ?S) @ newest_first (drop w ?S)"
    by (intro newest_first_split) blast+
  moreover have "length (newest_first (take w ?S)) = w" using len assms(3) by (simp add: newest_first_def)
  ultimately show ?thesis by simp
qed

lemma sequences_inj:
  assumes "reachable q"
  shows "inj_on te_sequence (set (filter accept (map snd (tasks q))))"
proof (rule inj_onI)
  have core: "core {} q" using queue_invD(1) [OF queue.reach_inv [OF assms]] .
  fix e f assume "e \<in> set (filter accept (map snd (tasks q)))" "f \<in> set (filter accept (map snd (tasks q)))"
    and s: "te_sequence e = te_sequence f"
  then obtain i j where "(i, e) \<in> set (tasks q)" "(j, f) \<in> set (tasks q)" by auto
  then have g: "hm_get (tasks q) i = Some e" "hm_get (tasks q) j = Some f"
    using hm_get_mem [OF core_wf(1) [OF core]] by auto
  have "i = j" using core g s unfolding core_ok_def tasks_ok_def by blast
  with g show "e = f" by simp
qed

text \<open>
  C26. The newest tasks are the newest tasks.  The partial selection used to avoid sorting the whole
  table returns exactly the page that sorting all matching tasks by submission, newest first, would.
\<close>

theorem recent_tasks_newest:
  assumes "reachable q" "selects select" "length (tasks q) \<le> usize_max"
  shows "recent_tasks select accept offset n q =
    map to_info (take n (drop offset (newest_first (filter accept (map snd (tasks q))))))"
proof -
  let ?M = "filter accept (map snd (tasks q))"
  let ?w = "sat_add offset n"
  have len: "length ?M \<le> usize_max" using assms(3) le_trans [OF length_filter_le] by fastforce
  show ?thesis
  proof (cases "?w < length ?M \<and> 0 < ?w")
    case True
    then have w: "?w = offset + n" using len by (auto simp: sat_add_def split: if_splits)
    have "newest_first (take ?w (select (?w - 1) ?M)) = take ?w (newest_first ?M)"
      using select_newest [OF assms(2) _ _ sequences_inj [OF assms(1)], of ?w accept] True by simp
    then have "recent_tasks select accept offset n q = map to_info (take n (drop offset (take ?w (newest_first ?M))))"
      using True by (simp add: recent_tasks_def Let_def)
    then show ?thesis by (simp add: w take_drop)
  next
    case False
    show ?thesis unfolding recent_tasks_def Let_def if_not_P [OF False] ..
  qed
qed

theorem recent_tasks_newest_witness:
  "recent_tasks (\<lambda>k. newest_first) (\<lambda>_. True) 0 1 ex_queue1 = [to_info (ex_entry 1 5 1)]"
proof -
  have "selects (\<lambda>k. newest_first)"
    unfolding selects_def
  proof (intro allI impI conjI)
    fix k i and xs :: "TaskEntry list" assume k: "k < length xs"
    show "mset (newest_first xs) = mset xs" by (simp add: newest_first_def)
    have desc: "te_sequence (newest_first xs ! j) \<le> te_sequence (newest_first xs ! i)" if "i \<le> j" "j < length xs" for i j
    proof -
      have "sorted (map te_sequence (sort_key te_sequence xs))" by simp
      then have "map te_sequence (sort_key te_sequence xs) ! (length xs - Suc j) \<le> map te_sequence (sort_key te_sequence xs) ! (length xs - Suc i)"
        using that by (intro sorted_nth_mono) simp_all
      then show ?thesis using that by (simp add: newest_first_def rev_nth)
    qed
    show "i < k \<Longrightarrow> te_sequence (newest_first xs ! k) \<le> te_sequence (newest_first xs ! i)" using desc k by simp
    show "i < length xs \<Longrightarrow> k < i \<Longrightarrow> te_sequence (newest_first xs ! i) \<le> te_sequence (newest_first xs ! k)" using desc by simp
  qed
  from recent_tasks_newest [OF ex_reach1 this, of "\<lambda>_. True" 0 1] show ?thesis
    by (simp add: ex_queue1_def usize_max_def newest_first_def)
qed

section \<open>Counters\<close>

lemma count_entries:
  "qs_total (fold count_entry es s) = qs_total s"
  "qs_queued (fold count_entry es s) = qs_queued s + length (filter (\<lambda>e. te_state e = Queued) es)"
  "qs_scheduled (fold count_entry es s) = qs_scheduled s + length (filter (\<lambda>e. te_state e = Scheduled) es)"
  "qs_running (fold count_entry es s) = qs_running s + length (filter (\<lambda>e. te_state e = Running) es)"
  "qs_retrying (fold count_entry es s) = qs_retrying s + length (filter (\<lambda>e. te_state e = Retrying) es)"
  "qs_completed (fold count_entry es s) = qs_completed s + length (filter (\<lambda>e. te_state e = Completed) es)"
  "qs_failed (fold count_entry es s) = qs_failed s + length (filter (\<lambda>e. te_state e = Failed) es)"
  "qs_cancelled (fold count_entry es s) = qs_cancelled s + length (filter (\<lambda>e. te_state e = Cancelled) es)"
  by (induction es arbitrary: s) (simp_all add: count_entry_def split: TaskState.splits)

lemma count_state_length: "count_state st q = length (filter (\<lambda>e. te_state e = st) (map snd (tasks q)))"
  by (induction "tasks q" arbitrary: q) (auto simp: count_state_def hm_count_def filter_map comp_def case_prod_unfold)

lemma states_partition:
  assumes "\<forall>e \<in> set es. te_state e \<noteq> Submitted"
  shows "length (filter (\<lambda>e. te_state e = Queued) es) + length (filter (\<lambda>e. te_state e = Scheduled) es)
    + length (filter (\<lambda>e. te_state e = Running) es) + length (filter (\<lambda>e. te_state e = Retrying) es)
    + length (filter (\<lambda>e. te_state e = Completed) es) + length (filter (\<lambda>e. te_state e = Failed) es)
    + length (filter (\<lambda>e. te_state e = Cancelled) es) = length es"
  using assms
proof (induction es)
  case (Cons e es)
  then show ?case by (cases "te_state e") auto
qed simp

text \<open>
  The counters add up.  In every reachable state each counter of the statistics is the number of
  tasks in that state, and the four buckets the cluster view shows (waiting, active, completed,
  failed or cancelled) partition the tasks.
\<close>

theorem stats_partition:
  assumes "reachable q"
  shows "qs_queued (stats q) = count_state Queued q \<and> qs_running (stats q) = count_state Running q
    \<and> qs_completed (stats q) = count_state Completed q \<and> qs_failed (stats q) = count_state Failed q
    \<and> (case cluster_buckets (stats q) of (waiting, active, ok, bad) \<Rightarrow> waiting + active + ok + bad = length (tasks q))"
proof -
  have core: "core {} q" using queue_invD(1) [OF queue.reach_inv [OF assms]] .
  have "te_state e \<noteq> Submitted" if "e \<in> set (map snd (tasks q))" for e
  proof -
    from that obtain i where "(i, e) \<in> set (tasks q)" by auto
    then have "hm_get (tasks q) i = Some e" using hm_get_mem [OF core_wf(1) [OF core]] by simp
    then show ?thesis using core_entry [OF core] by (simp add: entry_ok_def)
  qed
  then have "\<forall>e \<in> set (map snd (tasks q)). te_state e \<noteq> Submitted" by blast
  from states_partition [OF this] show ?thesis
    by (simp add: stats_def count_entries count_state_length cluster_buckets_def)
qed

theorem stats_partition_witness: "cluster_buckets (stats ex_queue2) = (0, 1, 0, 0)"
  using stats_partition [OF ex_reach2]
  by (simp add: stats_def count_entry_def cluster_buckets_def ex_queue2_def mark_scheduled_def)

section \<open>Backoff values\<close>

lemma backoff_mono:
  assumes "1 \<le> rp_backoff_multiplier p" "1 \<le> m" "m \<le> n"
  shows "calculate_backoff p m \<le> calculate_backoff p n"
proof -
  have "rp_backoff_multiplier p ^ (m - 1) \<le> rp_backoff_multiplier p ^ (n - 1)"
    using assms by (intro power_increasing) simp_all
  then have "(of_nat (rp_initial_backoff_ms p) :: rat) * rp_backoff_multiplier p ^ (m - 1)
      \<le> of_nat (rp_initial_backoff_ms p) * rp_backoff_multiplier p ^ (n - 1)"
    by (intro mult_left_mono) simp_all
  then have "nat (round (of_nat (rp_initial_backoff_ms p) * rp_backoff_multiplier p ^ (m - 1)))
      \<le> nat (round (of_nat (rp_initial_backoff_ms p) * rp_backoff_multiplier p ^ (n - 1)))"
    by (intro nat_mono round_mono)
  then show ?thesis
    using assms(2,3) unfolding calculate_backoff_def Let_def by (auto simp: min_def)
qed

lemma backoff_default:
  assumes "1 \<le> n"
  shows "calculate_backoff retry_policy_default n = min (500 * 2 ^ (n - 1)) 30000"
proof -
  have "(of_nat 500 :: rat) * 2 ^ (n - 1) = of_int (500 * 2 ^ (n - 1))" by simp
  then have "nat (round ((of_nat 500 :: rat) * 2 ^ (n - 1))) = 500 * 2 ^ (n - 1)"
    by (simp only: round_of_int) (simp add: nat_mult_distrib nat_power_eq)
  then show ?thesis
    using assms by (simp add: calculate_backoff_def retry_policy_default_def usize_max_def)
qed

text \<open>
  Backoff values.  The delay before a retry never exceeds the configured ceiling, does not
  decrease from one attempt to the next when the multiplier is at least one, and under the default
  policy is half a second doubled with every attempt, up to thirty seconds.
\<close>

theorem backoff_values:
  "calculate_backoff p n \<le> rp_max_backoff_ms p
   \<and> (1 \<le> rp_backoff_multiplier p \<and> 1 \<le> m \<and> m \<le> n \<longrightarrow> calculate_backoff p m \<le> calculate_backoff p n)
   \<and> (1 \<le> n \<longrightarrow> calculate_backoff retry_policy_default n = min (500 * 2 ^ (n - 1)) 30000)"
  using backoff_mono [of p m n] backoff_default [of n] by (auto simp: calculate_backoff_def Let_def)

theorem backoff_values_witness:
  "calculate_backoff retry_policy_default 3 = 2000 \<and> calculate_backoff retry_policy_default 9 = 30000
   \<and> calculate_backoff retry_policy_default 2 \<le> calculate_backoff retry_policy_default 3"
  using backoff_values [of retry_policy_default 3 2] backoff_values [of retry_policy_default 9 2]
  by (simp add: retry_policy_default_def)

section \<open>Load per worker\<close>

definition carried :: "TaskQueueInner \<Rightarrow> uuid \<Rightarrow> uuid set" where
  "carried q w = {tid. \<exists>e. hm_get (tasks q) tid = Some e \<and> carries e w}"

definition entry_of :: "TaskQueueInner \<Rightarrow> uuid \<Rightarrow> TaskEntry" where
  "entry_of q tid = the (hm_get (tasks q) tid)"

definition slots_of :: "TaskEntry \<Rightarrow> nat" where
  "slots_of e = max 1 (cpu_cores (t_requirements (te_task e)))"

definition unstarted_ram :: "TaskEntry \<Rightarrow> nat" where
  "unstarted_ram e = (if te_state e = Scheduled then ram_mb (t_requirements (te_task e)) else 0)"

lemma load_of_sums:
  assumes "\<forall>tid \<in> set tids. \<exists>e. hm_get (tasks q) tid = Some e \<and> is_active (te_state e)"
  shows "load_of q l tids =
    l\<lparr>al_tasks := al_tasks l + length tids,
      al_slots := al_slots l + (\<Sum>tid \<leftarrow> tids. slots_of (entry_of q tid)),
      al_unstarted_ram_mb := al_unstarted_ram_mb l + (\<Sum>tid \<leftarrow> tids. unstarted_ram (entry_of q tid))\<rparr>"
  using assms
proof (induction tids arbitrary: l)
  case (Cons tid tids)
  then obtain e where "hm_get (tasks q) tid = Some e" "is_active (te_state e)" by auto
  with Cons show ?case by (simp add: entry_of_def slots_of_def unstarted_ram_def)
qed simp

lemma loads_loop_get:
  assumes "hm_wf A"
  shows "hm_get (loads_loop q loads A) w =
    (case hm_get A w of
       None \<Rightarrow> hm_get loads w
     | Some tids \<Rightarrow> if 0 < al_tasks (load_of q load_default tids) then Some (load_of q load_default tids) else hm_get loads w)"
  using assms
proof (induction A arbitrary: loads)
  case (Cons x A)
  obtain v tids where x: "x = (v, tids)" by fastforce
  have wf: "hm_wf A" using Cons.prems by (simp add: hm_wf_def)
  have "hm_get A v = None" using Cons.prems x by (simp add: hm_wf_def hm_get_None)
  moreover have "hm_get (x # A) w = (if w = v then Some tids else hm_get A w)" by (simp add: x hm_get_def)
  ultimately show ?case using Cons.IH [OF wf] by (simp add: x Let_def hmap_simps split: option.splits)
qed simp

lemma assigned_loads_get:
  assumes "reachable q"
  shows "hm_get (assigned_loads q) w =
    (if carried q w = {} then None
     else Some \<lparr>al_tasks = card (carried q w),
                al_slots = (\<Sum>tid \<in> carried q w. slots_of (entry_of q tid)),
                al_unstarted_ram_mb = (\<Sum>tid \<in> carried q w. unstarted_ram (entry_of q tid))\<rparr>)"
proof -
  have core: "core {} q" using queue_invD(1) [OF queue.reach_inv [OF assms]] .
  have wf: "hm_wf (worker_assignments q)" using core_wf(4) [OF core] by (simp add: assign_wf_def)
  have ids: "assigned_ids (worker_assignments q) w = carried q w"
    using core by (auto simp: core_ok_def assign_ok_def carried_def)
  show ?thesis
  proof (cases "hm_get (worker_assignments q) w")
    case None
    then show ?thesis using ids loads_loop_get [OF wf, of q "[]" w] by (simp add: assigned_loads_def assigned_ids_def)
  next
    case (Some tids)
    have set: "set tids = carried q w" using ids Some by (simp add: assigned_ids_def)
    have dist: "distinct tids" using core_wf(4) [OF core] Some by (auto simp: assign_wf_def)
    have "\<forall>tid \<in> set tids. \<exists>e. hm_get (tasks q) tid = Some e \<and> is_active (te_state e)"
      by (auto simp: set carried_def carries_def)
    note sums = load_of_sums [OF this, of load_default]
    have "length tids = card (carried q w)" using distinct_card [OF dist] set by simp
    moreover have "(\<Sum>tid \<leftarrow> tids. f tid) = (\<Sum>tid \<in> carried q w. f tid)" for f :: "uuid \<Rightarrow> nat"
      using sum.distinct_set_conv_list [OF dist, of f] set by simp
    ultimately have load: "load_of q load_default tids = \<lparr>al_tasks = card (carried q w),
        al_slots = (\<Sum>tid \<in> carried q w. slots_of (entry_of q tid)),
        al_unstarted_ram_mb = (\<Sum>tid \<in> carried q w. unstarted_ram (entry_of q tid))\<rparr>"
      unfolding sums by (simp add: load_default_def)
    have "finite (carried q w)" using set by (metis finite_set)
    then show ?thesis
      using loads_loop_get [OF wf, of q "[]" w] Some load by (simp add: assigned_loads_def card_gt_0_iff)
  qed
qed



end
