(* ===== verification/Rust_Float.thy ===== *)
theory Rust_Float
  imports Prelude Complex_Main
begin

text \<open>
  The floating point numbers of Rust, as far as the scheduler and the telemetry use them.  A value
  is a rational number or one of the three special values; the sign of a zero is not kept, since no
  comparison sees it.  Arithmetic takes the rounding of the format (a rational number to the
  nearest representable value, or to an infinity on overflow) as an argument, so the lemmas hold
  for every rounding that has the properties they name.  Conversions to \<open>usize\<close> saturate.
\<close>

datatype fval = NaN | PosInf | NegInf | Fin rat

type_synonym rounding = "rat \<Rightarrow> fval"

fun f_less :: "fval \<Rightarrow> fval \<Rightarrow> bool" where
  "f_less (Fin a) (Fin b) = (a < b)"
| "f_less NegInf (Fin b) = True"
| "f_less NegInf PosInf = True"
| "f_less (Fin a) PosInf = True"
| "f_less _ _ = False"

definition f_max :: "fval \<Rightarrow> fval \<Rightarrow> fval" where
  "f_max x y = (if x = NaN then y else if y = NaN then x else if f_less x y then y else x)"

fun f_neg :: "fval \<Rightarrow> fval" where
  "f_neg NaN = NaN"
| "f_neg PosInf = NegInf"
| "f_neg NegInf = PosInf"
| "f_neg (Fin a) = Fin (- a)"

definition inf_of_sign :: "rat \<Rightarrow> fval" where
  "inf_of_sign a = (if a = 0 then NaN else if 0 < a then PosInf else NegInf)"

fun f_add :: "rounding \<Rightarrow> fval \<Rightarrow> fval \<Rightarrow> fval" where
  "f_add r (Fin a) (Fin b) = r (a + b)"
| "f_add r NaN _ = NaN"
| "f_add r _ NaN = NaN"
| "f_add r PosInf NegInf = NaN"
| "f_add r NegInf PosInf = NaN"
| "f_add r PosInf _ = PosInf"
| "f_add r NegInf _ = NegInf"
| "f_add r _ y = y"

fun f_mul :: "rounding \<Rightarrow> fval \<Rightarrow> fval \<Rightarrow> fval" where
  "f_mul r (Fin a) (Fin b) = r (a * b)"
| "f_mul r NaN _ = NaN"
| "f_mul r _ NaN = NaN"
| "f_mul r (Fin a) PosInf = inf_of_sign a"
| "f_mul r (Fin a) NegInf = f_neg (inf_of_sign a)"
| "f_mul r PosInf (Fin b) = inf_of_sign b"
| "f_mul r NegInf (Fin b) = f_neg (inf_of_sign b)"
| "f_mul r PosInf y = y"
| "f_mul r NegInf y = f_neg y"

fun f_div :: "rounding \<Rightarrow> fval \<Rightarrow> fval \<Rightarrow> fval" where
  "f_div r (Fin a) (Fin b) = (if b = 0 then inf_of_sign a else r (a / b))"
| "f_div r NaN _ = NaN"
| "f_div r _ NaN = NaN"
| "f_div r (Fin a) _ = Fin 0"
| "f_div r x (Fin b) = (if b < 0 then f_neg x else x)"
| "f_div r _ _ = NaN"

fun f_ceil :: "fval \<Rightarrow> fval" where
  "f_ceil (Fin a) = Fin (of_int \<lceil>a\<rceil>)"
| "f_ceil x = x"

fun f_to_usize :: "fval \<Rightarrow> nat" where
  "f_to_usize (Fin a) = min (nat (if 0 \<le> a then \<lfloor>a\<rfloor> else \<lceil>a\<rceil>)) usize_max"
| "f_to_usize PosInf = usize_max"
| "f_to_usize NegInf = 0"
| "f_to_usize NaN = 0"

datatype ordering = Less | Equal | Greater

definition f_partial_cmp :: "fval \<Rightarrow> fval \<Rightarrow> ordering option" where
  "f_partial_cmp x y =
     (if x = NaN \<or> y = NaN then None
      else if f_less x y then Some Less else if f_less y x then Some Greater else Some Equal)"

definition cmp :: "'a::linorder \<Rightarrow> 'a \<Rightarrow> ordering" where
  "cmp x y = (if x < y then Less else if y < x then Greater else Equal)"

fun then_with :: "ordering \<Rightarrow> ordering \<Rightarrow> ordering" where
  "then_with Equal o2 = o2"
| "then_with o1 o2 = o1"

text \<open>A stable sort by a comparison.\<close>

fun sort_insert :: "('a \<Rightarrow> 'a \<Rightarrow> ordering) \<Rightarrow> 'a \<Rightarrow> 'a list \<Rightarrow> 'a list" where
  "sort_insert c x [] = [x]"
| "sort_insert c x (y # ys) = (if c y x = Less then y # sort_insert c x ys else x # y # ys)"

fun sort_by :: "('a \<Rightarrow> 'a \<Rightarrow> ordering) \<Rightarrow> 'a list \<Rightarrow> 'a list" where
  "sort_by c [] = []"
| "sort_by c (x # xs) = sort_insert c x (sort_by c xs)"

section \<open>Facts\<close>

lemma f_less_irrefl [simp]: "\<not> f_less x x"
  by (cases x) auto

lemma f_less_trans: "f_less x y \<Longrightarrow> f_less y z \<Longrightarrow> f_less x z"
  by (cases x; cases y; cases z) auto

lemma f_less_asym: "f_less x y \<Longrightarrow> \<not> f_less y x"
  by (cases x; cases y) auto

lemma f_less_NaN [simp]: "\<not> f_less NaN y" "\<not> f_less x NaN"
  by (cases x; cases y; simp)+

lemma f_less_linear: "x \<noteq> NaN \<Longrightarrow> y \<noteq> NaN \<Longrightarrow> f_less x y \<or> x = y \<or> f_less y x"
  by (cases x; cases y) auto

lemma f_less_cotrans: "f_less x z \<Longrightarrow> y \<noteq> NaN \<Longrightarrow> f_less x y \<or> f_less y z"
  by (cases x; cases y; cases z) auto

lemma f_max_zero_nonneg: "\<not> f_less (f_max x (Fin 0)) (Fin 0)" "f_max x (Fin 0) \<noteq> NaN"
  by (cases x; simp add: f_max_def)+

lemma f_to_usize_le: "f_to_usize x \<le> usize_max"
  by (cases x) auto

lemma sort_insert_set [simp]: "set (sort_insert c x ys) = insert x (set ys)"
  by (induction ys) auto

lemma sort_by_set [simp]: "set (sort_by c xs) = set xs"
  by (induction xs) auto

lemma sort_insert_length [simp]: "length (sort_insert c x ys) = Suc (length ys)"
  by (induction ys) auto

lemma sort_by_length [simp]: "length (sort_by c xs) = length xs"
  by (induction xs) auto

lemma sort_by_Nil_iff [simp]: "sort_by c xs = [] \<longleftrightarrow> xs = []"
  by (metis length_0_conv sort_by_length)

text \<open>
  A comparison of the form ``first by this, then by that'' is a total preorder whenever its parts
  are; the head of a sort by a total preorder is a least element.
\<close>

definition total_cmp_on :: "'a set \<Rightarrow> ('a \<Rightarrow> 'a \<Rightarrow> ordering) \<Rightarrow> bool" where
  "total_cmp_on A c \<longleftrightarrow>
     (\<forall>x\<in>A. \<forall>y\<in>A. (c x y = Less \<longleftrightarrow> c y x = Greater))
     \<and> (\<forall>x\<in>A. \<forall>y\<in>A. \<forall>z\<in>A. c x y \<noteq> Greater \<longrightarrow> c y z \<noteq> Greater \<longrightarrow> c x z \<noteq> Greater)"

lemma total_cmp_onD:
  assumes "total_cmp_on A c" "x \<in> A" "y \<in> A"
  shows "c x y = Less \<longleftrightarrow> c y x = Greater" "c x y = Equal \<longleftrightarrow> c y x = Equal"
    "z \<in> A \<Longrightarrow> c x y \<noteq> Greater \<Longrightarrow> c y z \<noteq> Greater \<Longrightarrow> c x z \<noteq> Greater"
proof -
  note both = assms(1) [unfolded total_cmp_on_def]
  have flip: "c x y = Less \<longleftrightarrow> c y x = Greater" if "x \<in> A" "y \<in> A" for x y
    using bspec [OF bspec [OF conjunct1 [OF both] that(1)] that(2)] .
  show "c x y = Less \<longleftrightarrow> c y x = Greater" by (rule flip [OF assms(2,3)])
  show "c x y = Equal \<longleftrightarrow> c y x = Equal"
    using flip [OF assms(2,3)] flip [OF assms(3,2)] by (cases "c x y"; cases "c y x") simp_all
  show "z \<in> A \<Longrightarrow> c x y \<noteq> Greater \<Longrightarrow> c y z \<noteq> Greater \<Longrightarrow> c x z \<noteq> Greater"
    using bspec [OF bspec [OF conjunct2 [OF both] assms(2)] assms(3)] by simp
qed

lemma total_cmp_on_subset: "total_cmp_on A c \<Longrightarrow> B \<subseteq> A \<Longrightarrow> total_cmp_on B c"
  unfolding total_cmp_on_def by blast

lemma total_cmp_on_cmp: "total_cmp_on A (\<lambda>x y. cmp (f x) (f y))"
  by (auto simp: total_cmp_on_def cmp_def)

lemma total_cmp_on_flip: "total_cmp_on A (\<lambda>x y. cmp (f y) (f x))"
  by (auto simp: total_cmp_on_def cmp_def)

lemma total_cmp_on_const: "total_cmp_on A (\<lambda>x y. Equal)"
  by (auto simp: total_cmp_on_def)

definition f_cmp :: "fval \<Rightarrow> fval \<Rightarrow> ordering" where
  "f_cmp x y = (case f_partial_cmp x y of Some c \<Rightarrow> c | None \<Rightarrow> Equal)"

lemma f_cmp_iff:
  "f_cmp x y = Less \<longleftrightarrow> f_less x y" "f_cmp x y = Greater \<longleftrightarrow> f_less y x"
  using f_less_asym [of x y] by (auto simp: f_cmp_def f_partial_cmp_def)

lemma total_cmp_on_f_cmp:
  assumes "\<And>x. x \<in> A \<Longrightarrow> f x \<noteq> NaN"
  shows "total_cmp_on A (\<lambda>x y. f_cmp (f x) (f y))"
proof -
  have "\<not> f_less (f z) (f x)" if "y \<in> A" "\<not> f_less (f y) (f x)" "\<not> f_less (f z) (f y)" for x y z
    using f_less_cotrans [of "f z" "f x" "f y"] assms that by blast
  then show ?thesis unfolding total_cmp_on_def f_cmp_iff by blast
qed

lemma then_with_simps [simp]: "then_with a Equal = a" "then_with Less b = Less" "then_with Greater b = Greater"
  by (cases a; simp)+

lemma then_with_iff:
  "then_with a b = Less \<longleftrightarrow> a = Less \<or> a = Equal \<and> b = Less"
  "then_with a b = Greater \<longleftrightarrow> a = Greater \<or> a = Equal \<and> b = Greater"
  "then_with a b = Equal \<longleftrightarrow> a = Equal \<and> b = Equal"
  by (cases a; simp)+

lemma total_cmp_on_then:
  assumes c: "total_cmp_on A c" and d: "total_cmp_on A d"
  shows "total_cmp_on A (\<lambda>x y. then_with (c x y) (d x y))"
  unfolding total_cmp_on_def
proof (intro conjI ballI impI)
  fix x y assume xy: "x \<in> A" "y \<in> A"
  show "then_with (c x y) (d x y) = Less \<longleftrightarrow> then_with (c y x) (d y x) = Greater"
    using total_cmp_onD [OF c xy] total_cmp_onD [OF d xy] by (simp add: then_with_iff)
next
  fix x y z assume A: "x \<in> A" "y \<in> A" "z \<in> A"
    and le: "then_with (c x y) (d x y) \<noteq> Greater" "then_with (c y z) (d y z) \<noteq> Greater"
  note cs = total_cmp_onD [OF c] and ds = total_cmp_onD [OF d]
  show "then_with (c x z) (d x z) \<noteq> Greater"
    using le A cs(3) [OF A(1,2,3)] cs(3) [OF A(2,3,1)] cs(3) [OF A(3,1,2)] ds(3) [OF A(1,2,3)]
      cs(1,2) [OF A(1,2)] cs(1,2) [OF A(2,3)] cs(1,2) [OF A(1,3)]
    by (cases "c x y"; cases "c y z"; cases "c x z") (auto simp: then_with_iff)
qed

lemma sort_by_hd_least:
  assumes "total_cmp_on (set xs) c" "xs \<noteq> []" "y \<in> set xs"
  shows "c (hd (sort_by c xs)) y \<noteq> Greater"
  using assms
proof (induction xs arbitrary: y)
  case (Cons x xs)
  have tot: "total_cmp_on (set xs) c"
    using total_cmp_on_subset [OF Cons.prems(1)] by auto
  note D = total_cmp_onD [OF Cons.prems(1)]
  have refl: "c x x \<noteq> Greater" using D(1) [of x x] by auto
  show ?case
  proof (cases "sort_by c xs")
    case Nil
    then show ?thesis using Cons.prems refl by simp
  next
    case (Cons z zs)
    then have z: "z \<in> set xs" by (metis list.set_intros(1) sort_by_set)
    have least: "\<And>v. v \<in> set xs \<Longrightarrow> c z v \<noteq> Greater" using Cons.IH [OF tot] Cons z by force
    have xz: "c z x \<noteq> Less \<Longrightarrow> c x z \<noteq> Greater" using D(1) [of z x] z by auto
    show ?thesis
      using Cons.prems(3) least xz refl z D(3) [of x z y] Cons by auto
  qed
qed simp

end
