(* ===== verification/Capabilities.thy ===== *)
theory Capabilities
  imports Task_Model Rust_Float
begin

text \<open>
  Worker capabilities (\<open>crates/core/src/capabilities.rs\<close>): the telemetry of mobile devices with its
  battery and thermal tiers, the concurrency a tier leaves, the heartbeat interval, the hardware a
  worker advertises, how command line overrides, environment variables and probes are combined into
  it, and the check of a task's requirements.  Running the probes (child processes, \<open>sysfs\<close>) is
  input of the model: a record of what each probe reads.  Durations count nanoseconds.
\<close>

section \<open>Durations\<close>

definition duration_max :: nat where
  "duration_max = (2 ^ 64 - 1) * 1000000000 + 999999999"

definition secs :: "nat \<Rightarrow> nat" where
  "secs n = n * 1000000000"

definition dur_mul :: "nat \<Rightarrow> nat \<Rightarrow> nat" where
  "dur_mul d k = min (d * k) duration_max"

section \<open>Mobile telemetry\<close>

datatype BatteryTier = BatNormal | BatLow | BatSubLow | BatCritical

datatype ThermalTier = ThermNormal | ThermWarm | ThermHot | ThermCritical

record MobileCapabilities =
  mc_os_version :: string
  mc_soc_model :: string
  mc_battery_pct :: "nat option"
  mc_is_charging :: "bool option"
  mc_thermal_throttled :: bool

definition mobile_default :: MobileCapabilities where
  "mobile_default =
     \<lparr>mc_os_version = ''unknown'', mc_soc_model = ''unknown'', mc_battery_pct = None,
      mc_is_charging = None, mc_thermal_throttled = False\<rparr>"

record MobileLiveStatus =
  ls_battery_pct :: "nat option"
  ls_is_charging :: "bool option"
  ls_thermal_throttled :: bool
  ls_battery_temperature :: "fval option"
  ls_network_type :: "string option"
  ls_battery_tier :: "BatteryTier option"
  ls_thermal_tier :: "ThermalTier option"

definition with_live_status :: "MobileCapabilities \<Rightarrow> MobileLiveStatus \<Rightarrow> MobileCapabilities" where
  "with_live_status m s =
     \<lparr>mc_os_version = mc_os_version m, mc_soc_model = mc_soc_model m,
      mc_battery_pct = ls_battery_pct s, mc_is_charging = ls_is_charging s,
      mc_thermal_throttled = ls_thermal_throttled s\<rparr>"

definition live_status :: "MobileCapabilities \<Rightarrow> MobileLiveStatus" where
  "live_status m =
     \<lparr>ls_battery_pct = mc_battery_pct m, ls_is_charging = mc_is_charging m,
      ls_thermal_throttled = mc_thermal_throttled m, ls_battery_temperature = None,
      ls_network_type = None, ls_battery_tier = None, ls_thermal_tier = None\<rparr>"

definition unwrap_or :: "'a option \<Rightarrow> 'a \<Rightarrow> 'a" where
  "unwrap_or x d = (case x of Some v \<Rightarrow> v | None \<Rightarrow> d)"

definition compute_battery_tier :: "nat option \<Rightarrow> bool option \<Rightarrow> BatteryTier" where
  "compute_battery_tier pct is_charging =
     (if unwrap_or is_charging False then BatNormal
      else case pct of
             Some p \<Rightarrow> if 50 \<le> p then BatNormal else if 30 \<le> p then BatLow
                       else if 15 \<le> p then BatSubLow else BatCritical
           | None \<Rightarrow> BatNormal)"

definition compute_thermal_tier :: "fval option \<Rightarrow> bool \<Rightarrow> ThermalTier" where
  "compute_thermal_tier temp throttled =
     (case temp of
        Some t \<Rightarrow>
          if f_less (Fin 42) t then ThermCritical
          else if f_less (Fin 40) t then ThermHot
          else if f_less (Fin 37) t \<or> throttled then ThermWarm
          else ThermNormal
      | None \<Rightarrow> if throttled then ThermWarm else ThermNormal)"

definition from_readings :: "nat option \<Rightarrow> bool option \<Rightarrow> BatteryTier" where
  "from_readings pct is_charging = compute_battery_tier pct is_charging"

definition from_temp_c :: "fval option \<Rightarrow> bool \<Rightarrow> ThermalTier" where
  "from_temp_c temp throttled = compute_thermal_tier temp throttled"

fun battery_cores :: "nat \<Rightarrow> BatteryTier \<Rightarrow> nat" where
  "battery_cores n BatNormal = n"
| "battery_cores n BatLow = max (n div 2) 1"
| "battery_cores n BatSubLow = 1"
| "battery_cores n BatCritical = 0"

fun thermal_cores :: "nat \<Rightarrow> ThermalTier \<Rightarrow> nat" where
  "thermal_cores n ThermNormal = n"
| "thermal_cores n ThermWarm = max (n div 2) 1"
| "thermal_cores n ThermHot = 1"
| "thermal_cores n ThermCritical = 0"

definition calculate_effective_concurrency :: "nat \<Rightarrow> BatteryTier \<Rightarrow> ThermalTier \<Rightarrow> nat" where
  "calculate_effective_concurrency max_cores bat therm =
     min (battery_cores max_cores bat) (thermal_cores max_cores therm)"

definition effective_concurrency :: "MobileLiveStatus \<Rightarrow> nat \<Rightarrow> nat" where
  "effective_concurrency s max_cores =
     (let bat = unwrap_or (ls_battery_tier s) (compute_battery_tier (ls_battery_pct s) (ls_is_charging s));
          therm = unwrap_or (ls_thermal_tier s)
                    (compute_thermal_tier (ls_battery_temperature s) (ls_thermal_throttled s))
      in calculate_effective_concurrency max_cores bat therm)"

definition cellular_markers :: "string list" where
  "cellular_markers = [''cellular'', ''mobile'', ''lte'', ''5g'', ''4g'', ''3g'', ''cgnat'']"

definition is_cellular :: "string \<Rightarrow> bool" where
  "is_cellular net = list_ex (contains_str (to_ascii_lowercase net)) cellular_markers"

definition calculate_keepalive_interval :: "string \<Rightarrow> nat \<Rightarrow> nat" where
  "calculate_keepalive_interval network_type active_tasks =
     (if is_cellular network_type then if 0 < active_tasks then secs 10 else secs 25
      else secs 60)"

definition net_is_cellular :: "MobileLiveStatus \<Rightarrow> bool" where
  "net_is_cellular s = (case ls_network_type s of Some net \<Rightarrow> is_cellular net | None \<Rightarrow> False)"

definition recommended_keepalive_interval :: "MobileLiveStatus \<Rightarrow> nat \<Rightarrow> nat" where
  "recommended_keepalive_interval s active_tasks =
     (if net_is_cellular s then if 0 < active_tasks then secs 10 else secs 25
      else secs 60)"

definition spec_is_heavy :: "TaskSpec \<Rightarrow> bool" where
  "spec_is_heavy spec =
     (case spec of RustCompilation _ _ _ _ \<Rightarrow> True | GpuCompute _ _ _ _ _ \<Rightarrow> True | _ \<Rightarrow> False)"

definition is_task_eligible :: "TaskSpec \<Rightarrow> BatteryTier \<Rightarrow> ThermalTier \<Rightarrow> bool \<Rightarrow> bool" where
  "is_task_eligible spec bat therm is_charging =
     (if calculate_effective_concurrency 8 bat therm = 0 then False
      else let heavy = spec_is_heavy spec in
        if (case bat of BatCritical \<Rightarrow> True | BatSubLow \<Rightarrow> heavy | BatLow \<Rightarrow> heavy | BatNormal \<Rightarrow> False)
        then False
        else if (case therm of ThermCritical \<Rightarrow> True | ThermHot \<Rightarrow> heavy
                  | ThermWarm \<Rightarrow> heavy \<and> \<not> is_charging | ThermNormal \<Rightarrow> False)
        then False
        else True)"

section \<open>Advertised hardware\<close>

record WorkerCapabilities =
  wc_name :: string
  wc_cpu_cores :: nat
  wc_ram_mb :: nat
  wc_has_gpu :: bool
  wc_is_simulated_gpu :: bool
  wc_gpu_device_name :: "string option"
  wc_tags :: "string list"
  wc_mobile :: "MobileCapabilities option"
  wc_has_blender :: bool
  wc_blender_version :: "string option"
  wc_vram_mb :: "nat option"
  wc_has_cuda :: bool

definition capabilities_new ::
  "string \<Rightarrow> nat \<Rightarrow> nat \<Rightarrow> bool \<Rightarrow> bool \<Rightarrow> string option \<Rightarrow> WorkerCapabilities" where
  "capabilities_new name cores ram gpu simulated device =
     \<lparr>wc_name = name, wc_cpu_cores = cores, wc_ram_mb = ram, wc_has_gpu = gpu,
      wc_is_simulated_gpu = simulated, wc_gpu_device_name = device, wc_tags = [], wc_mobile = None,
      wc_has_blender = False, wc_blender_version = None, wc_vram_mb = None, wc_has_cuda = False\<rparr>"

definition capabilities_default :: WorkerCapabilities where
  "capabilities_default = capabilities_new ''default-worker'' 1 1024 False False None"

definition can_execute_gpu :: "WorkerCapabilities \<Rightarrow> bool" where
  "can_execute_gpu c \<longleftrightarrow> wc_has_gpu c \<or> wc_is_simulated_gpu c"

definition satisfies :: "WorkerCapabilities \<Rightarrow> TaskRequirements \<Rightarrow> bool" where
  "satisfies c r =
     (if gpu_required r \<and> \<not> can_execute_gpu c then False
      else if 0 < cpu_cores r \<and> wc_cpu_cores c < cpu_cores r then False
      else if 0 < ram_mb r \<and> wc_ram_mb c < ram_mb r then False
      else True)"

section \<open>Detection\<close>

record HardwareOverrides =
  ho_name :: "string option"
  ho_cores :: "nat option"
  ho_ram_mb :: "nat option"
  ho_gpu :: "bool option"
  ho_no_gpu :: bool
  ho_simulate_gpu :: bool
  ho_gpu_name :: "string option"
  ho_blender :: "bool option"
  ho_no_blender :: bool
  ho_blender_path :: "string option"
  ho_blender_version :: "string option"
  ho_vram_mb :: "nat option"
  ho_cuda :: "bool option"
  ho_no_cuda :: bool
  ho_no_battery :: bool

definition overrides_default :: HardwareOverrides where
  "overrides_default =
     \<lparr>ho_name = None, ho_cores = None, ho_ram_mb = None, ho_gpu = None, ho_no_gpu = False,
      ho_simulate_gpu = False, ho_gpu_name = None, ho_blender = None, ho_no_blender = False,
      ho_blender_path = None, ho_blender_version = None, ho_vram_mb = None, ho_cuda = None,
      ho_no_cuda = False, ho_no_battery = False\<rparr>"

text \<open>What the probes of one host read.\<close>

record host_probes =
  hp_hostname :: "string option"
  hp_pid :: nat
  hp_env :: "string \<Rightarrow> string option"
  hp_parallelism :: "nat option"
  hp_ram_mb :: nat
  hp_nvidia_name :: "string option"
  hp_blender :: "string option \<Rightarrow> bool \<times> string option"
  hp_blender_version :: "string option \<Rightarrow> string option"
  hp_vram_mb :: "nat option"
  hp_cuda :: "bool \<Rightarrow> bool"
  hp_mobile :: "MobileCapabilities option"

definition usable_name :: "string \<Rightarrow> bool" where
  "usable_name h \<longleftrightarrow> h \<noteq> [] \<and> \<not> eq_ignore_ascii_case h ''localhost''"

definition pick_worker_name ::
  "string option \<Rightarrow> string option \<Rightarrow> string option \<Rightarrow> nat \<Rightarrow> string" where
  "pick_worker_name os_hostname env_hostname env_computername pid =
     (case find usable_name (map trim (concat (map (\<lambda>h. case h of Some s \<Rightarrow> [s] | None \<Rightarrow> [])
             [os_hostname, env_hostname, env_computername]))) of
        Some h \<Rightarrow> h
      | None \<Rightarrow> ''worker-'' @ show_nat pid)"

definition detect_worker_name :: "host_probes \<Rightarrow> string" where
  "detect_worker_name h =
     pick_worker_name (hp_hostname h) (hp_env h ''HOSTNAME'') (hp_env h ''COMPUTERNAME'') (hp_pid h)"

definition bytes_to_mb :: "nat \<Rightarrow> nat option" where
  "bytes_to_mb bytes = (let mb = bytes div (1024 * 1024) in if 0 < mb then Some mb else None)"

definition detect_physical_gpu :: "host_probes \<Rightarrow> bool \<times> bool \<times> string option" where
  "detect_physical_gpu h =
     (if hp_env h ''RUSTY_GRID_ENABLE_PHYSICAL_GPU'' = Some ''1''
      then case hp_nvidia_name h of
             Some out \<Rightarrow> if trim out \<noteq> [] then (True, False, Some (trim out)) else (False, False, None)
           | None \<Rightarrow> (False, False, None)
      else (False, False, None))"

definition env_or :: "host_probes \<Rightarrow> string \<Rightarrow> string \<Rightarrow> string option" where
  "env_or h a b = (case hp_env h a of Some v \<Rightarrow> Some v | None \<Rightarrow> hp_env h b)"

definition truthy :: "string \<Rightarrow> bool" where
  "truthy v \<longleftrightarrow> v = ''1'' \<or> eq_ignore_ascii_case v ''true''"

definition positive_or :: "nat option \<Rightarrow> nat \<Rightarrow> nat" where
  "positive_or x d = (case x of Some c \<Rightarrow> if 0 < c then c else d | None \<Rightarrow> d)"

definition or_else :: "'a option \<Rightarrow> 'a option \<Rightarrow> 'a option" where
  "or_else x y = (case x of Some v \<Rightarrow> Some v | None \<Rightarrow> y)"

definition detect_gpu :: "HardwareOverrides \<Rightarrow> host_probes \<Rightarrow> bool \<times> bool \<times> string option" where
  "detect_gpu ov h =
     (if ho_no_gpu ov then (False, False, None)
      else if ho_simulate_gpu ov
      then (True, True, Some (unwrap_or (ho_gpu_name ov) ''Simulated Virtual GPU (Matrix Engine)''))
      else if ho_gpu ov = Some True
      then (True, False, Some (unwrap_or (ho_gpu_name ov) ''Physical GPU (Manual Override)''))
      else case detect_physical_gpu h of
             (has, sim, dev) \<Rightarrow> if has then (has, sim, or_else (ho_gpu_name ov) dev) else (False, False, None))"

definition detect_blender_use :: "HardwareOverrides \<Rightarrow> host_probes \<Rightarrow> bool \<times> string option" where
  "detect_blender_use ov h =
     (if ho_no_blender ov then (False, None)
      else if ho_blender ov = Some True
      then (True, or_else (or_else (ho_blender_version ov) (hp_blender_version h (ho_blender_path ov)))
                   (Some ''Blender (Manual Override)''))
      else if ho_blender ov = Some False then (False, None)
      else if (case env_or h ''RUSTY_GRID_NO_BLENDER'' ''OXIDE_SWARM_NO_BLENDER'' of
                 Some v \<Rightarrow> truthy v | None \<Rightarrow> False)
      then (False, None)
      else hp_blender h (ho_blender_path ov))"

definition detect_vram :: "HardwareOverrides \<Rightarrow> host_probes \<Rightarrow> bool \<Rightarrow> nat option" where
  "detect_vram ov h has_gpu =
     (if ho_no_gpu ov then None
      else case ho_vram_mb ov of
             Some vram \<Rightarrow> Some vram
           | None \<Rightarrow>
               (case env_or h ''RUSTY_GRID_VRAM_MB'' ''OXIDE_SWARM_VRAM_MB'' of
                  Some s \<Rightarrow> parse_usize (trim s)
                | None \<Rightarrow> if has_gpu then hp_vram_mb h else None))"

definition detect_cuda :: "HardwareOverrides \<Rightarrow> host_probes \<Rightarrow> bool \<Rightarrow> bool" where
  "detect_cuda ov h has_gpu =
     (if ho_no_gpu ov \<or> ho_no_cuda ov then False
      else case ho_cuda ov of
             Some c \<Rightarrow> c
           | None \<Rightarrow>
               (case env_or h ''RUSTY_GRID_CUDA'' ''OXIDE_SWARM_CUDA'' of
                  Some v \<Rightarrow> truthy v
                | None \<Rightarrow>
                    (case env_or h ''RUSTY_GRID_NO_CUDA'' ''OXIDE_SWARM_NO_CUDA'' of
                       Some v \<Rightarrow> if truthy v then False else hp_cuda h has_gpu
                     | None \<Rightarrow> if has_gpu then hp_cuda h has_gpu else False)))"

definition detect_with_overrides :: "HardwareOverrides \<Rightarrow> host_probes \<Rightarrow> WorkerCapabilities" where
  "detect_with_overrides ov h =
     (case detect_gpu ov h of (has_gpu, simulated, device) \<Rightarrow>
      case detect_blender_use ov h of (has_blender, version) \<Rightarrow>
        \<lparr>wc_name = (case ho_name ov of Some n \<Rightarrow> n | None \<Rightarrow> detect_worker_name h),
         wc_cpu_cores = positive_or (ho_cores ov) (unwrap_or (hp_parallelism h) 1),
         wc_ram_mb = positive_or (ho_ram_mb ov) (hp_ram_mb h),
         wc_has_gpu = has_gpu, wc_is_simulated_gpu = simulated, wc_gpu_device_name = device,
         wc_tags = [], wc_mobile = (if ho_no_battery ov then None else hp_mobile h),
         wc_has_blender = has_blender, wc_blender_version = version,
         wc_vram_mb = detect_vram ov h has_gpu, wc_has_cuda = detect_cuda ov h has_gpu\<rparr>)"

definition capabilities_detect :: "string option \<Rightarrow> nat option \<Rightarrow> bool \<Rightarrow> host_probes \<Rightarrow> WorkerCapabilities" where
  "capabilities_detect name cores simulate h =
     detect_with_overrides (overrides_default\<lparr>ho_name := name, ho_cores := cores, ho_simulate_gpu := simulate\<rparr>) h"

end
