(* ===== verification/Registry.thy ===== *)
theory Registry
  imports Capabilities Queue_Ops
begin

text \<open>
  The worker registry (\<open>crates/master/src/registry.rs\<close>) and the receive clocks it reads
  (\<open>crates/master/src/liveness.rs\<close>).  The registry is a record; every operation takes it and returns
  it, as the code does under its lock.  Instants and durations count nanoseconds.  An outbound
  channel and a connection task are known by a number; an operation that aborts connection tasks
  returns their numbers, and leaves out the task it runs in.
\<close>

section \<open>Receive clocks\<close>

record RxClock =
  rc_epoch :: nat
  rc_last_rx_nanos :: nat

definition rx_new :: "nat \<Rightarrow> RxClock" where
  "rx_new now = \<lparr>rc_epoch = now, rc_last_rx_nanos = 0\<rparr>"

definition rx_touch :: "nat \<Rightarrow> RxClock \<Rightarrow> RxClock" where
  "rx_touch now c =
     (let nanos = min (now - rc_epoch c) (2 ^ 64 - 1)
      in c\<lparr>rc_last_rx_nanos := max (rc_last_rx_nanos c) nanos\<rparr>)"

definition last_rx :: "RxClock \<Rightarrow> nat" where
  "last_rx c = rc_epoch c + rc_last_rx_nanos c"

text \<open>A read of the stream stamps the clock when it delivered bytes.\<close>

definition poll_read :: "nat \<Rightarrow> nat \<Rightarrow> RxClock \<Rightarrow> RxClock" where
  "poll_read now received c = (if 0 < received then rx_touch now c else c)"

section \<open>Entries\<close>

definition RX_LIVENESS_CEILING_FACTOR :: nat where "RX_LIVENESS_CEILING_FACTOR = 60"

definition REJECTION_COOLDOWN_BASE :: nat where "REJECTION_COOLDOWN_BASE = secs 5"

definition REJECTION_COOLDOWN_MAX :: nat where "REJECTION_COOLDOWN_MAX = secs 60"

datatype WorkerStatus = Connected | Busy | Disconnected

fun worker_status_as_str :: "WorkerStatus \<Rightarrow> string" where
  "worker_status_as_str Connected = ''connected''"
| "worker_status_as_str Busy = ''busy''"
| "worker_status_as_str Disconnected = ''disconnected''"

record WorkerEntry =
  we_worker_id :: uuid
  we_session_id :: nat
  we_capabilities :: WorkerCapabilities
  we_status :: WorkerStatus
  we_last_heartbeat_instant :: nat
  we_last_heartbeat_timestamp :: nat
  we_registered_at_instant :: nat
  we_registered_timestamp :: nat
  we_active_tasks :: nat
  we_reported_active_tasks :: nat
  we_remote_addr :: string
  we_sender :: nat
  we_abort_handle :: "nat option"
  we_cpu_usage_pct :: fval
  we_ram_available_mb :: nat
  we_rx_clock :: "RxClock option"
  we_consecutive_rejections :: nat
  we_excluded_until :: "nat option"
  we_heartbeat_interval :: "nat option"
  we_features :: ProtocolCapabilities

record WorkerInfo =
  wi_worker_id :: uuid
  wi_session_id :: nat
  wi_capabilities :: WorkerCapabilities
  wi_status :: WorkerStatus
  wi_last_heartbeat_timestamp :: nat
  wi_registered_timestamp :: nat
  wi_active_tasks :: nat
  wi_remote_addr :: string
  wi_cpu_usage_pct :: fval
  wi_ram_available_mb :: nat
  wi_features :: ProtocolCapabilities

definition worker_info_new ::
  "uuid \<Rightarrow> nat \<Rightarrow> WorkerCapabilities \<Rightarrow> WorkerStatus \<Rightarrow> nat \<Rightarrow> nat \<Rightarrow> nat \<Rightarrow> string \<Rightarrow> WorkerInfo" where
  "worker_info_new wid session caps status heartbeat registered active addr =
     \<lparr>wi_worker_id = wid, wi_session_id = session, wi_capabilities = caps, wi_status = status,
      wi_last_heartbeat_timestamp = heartbeat, wi_registered_timestamp = registered,
      wi_active_tasks = active, wi_remote_addr = addr, wi_cpu_usage_pct = Fin 0,
      wi_ram_available_mb = wc_ram_mb caps, wi_features = caps_empty\<rparr>"

definition calculate_master_dead_peer_window :: "nat \<Rightarrow> nat" where
  "calculate_master_dead_peer_window tau = max (secs 2) (dur_mul tau 4)"

definition visible_active_tasks :: "WorkerEntry \<Rightarrow> nat" where
  "visible_active_tasks e = max (we_active_tasks e) (we_reported_active_tasks e)"

definition effective_timeout :: "WorkerEntry \<Rightarrow> nat \<Rightarrow> nat" where
  "effective_timeout e timeout =
     (case we_heartbeat_interval e of Some tau \<Rightarrow> calculate_master_dead_peer_window tau | None \<Rightarrow> timeout)"

definition is_silent :: "WorkerEntry \<Rightarrow> nat \<Rightarrow> nat \<Rightarrow> bool" where
  "is_silent e now timeout =
     (let window = effective_timeout e timeout;
          since_heartbeat = now - we_last_heartbeat_instant e
      in if since_heartbeat \<le> window then False
         else case we_rx_clock e of
                Some clock \<Rightarrow>
                  window < now - last_rx clock
                  \<or> dur_mul window RX_LIVENESS_CEILING_FACTOR < since_heartbeat
              | None \<Rightarrow> True)"

definition worker_info :: "WorkerEntry \<Rightarrow> WorkerInfo" where
  "worker_info e =
     \<lparr>wi_worker_id = we_worker_id e, wi_session_id = we_session_id e,
      wi_capabilities = we_capabilities e, wi_status = we_status e,
      wi_last_heartbeat_timestamp = we_last_heartbeat_timestamp e,
      wi_registered_timestamp = we_registered_timestamp e, wi_active_tasks = visible_active_tasks e,
      wi_remote_addr = we_remote_addr e, wi_cpu_usage_pct = we_cpu_usage_pct e,
      wi_ram_available_mb = we_ram_available_mb e, wi_features = we_features e\<rparr>"

section \<open>The registry\<close>

record Registration =
  rg_session_id :: nat
  rg_superseded_session :: "nat option"

datatype HeartbeatOutcome = Applied | Revived | StaleSession

record WorkerRegistry =
  workers :: "(uuid, WorkerEntry) hmap"
  next_session_id :: nat

definition registry_new :: WorkerRegistry where
  "registry_new = \<lparr>workers = [], next_session_id = 1\<rparr>"

text \<open>What an operation reads of its surroundings: the clocks and the task it runs in.\<close>

record reg_env =
  re_now :: nat
  re_epoch :: nat
  re_current :: "nat option"

type_synonym registry_error = "queue_message GridError"

definition abort_unless_current :: "reg_env \<Rightarrow> nat option \<Rightarrow> nat list" where
  "abort_unless_current env handle =
     (case handle of None \<Rightarrow> [] | Some h \<Rightarrow> if re_current env = Some h then [] else [h])"

definition put_worker :: "uuid \<Rightarrow> WorkerEntry \<Rightarrow> WorkerRegistry \<Rightarrow> WorkerRegistry" where
  "put_worker wid e r = r\<lparr>workers := hm_put wid e (workers r)\<rparr>"

definition mobile_interval :: "WorkerCapabilities \<Rightarrow> nat option" where
  "mobile_interval caps =
     map_option (\<lambda>m. recommended_keepalive_interval (live_status m) 0) (wc_mobile caps)"

definition rebound_entry ::
  "reg_env \<Rightarrow> nat \<Rightarrow> WorkerCapabilities \<Rightarrow> ProtocolCapabilities \<Rightarrow> string \<Rightarrow> nat \<Rightarrow> nat option
     \<Rightarrow> WorkerEntry \<Rightarrow> WorkerEntry" where
  "rebound_entry env session caps features addr sender handle e =
     e\<lparr>we_session_id := session, we_capabilities := caps, we_features := features,
       we_status := Connected, we_last_heartbeat_instant := re_now env,
       we_last_heartbeat_timestamp := re_epoch env, we_remote_addr := addr, we_sender := sender,
       we_abort_handle := handle, we_ram_available_mb := wc_ram_mb caps, we_active_tasks := 0,
       we_reported_active_tasks := 0, we_rx_clock := None, we_consecutive_rejections := 0,
       we_excluded_until := None, we_heartbeat_interval := mobile_interval caps\<rparr>"

definition fresh_entry ::
  "reg_env \<Rightarrow> uuid \<Rightarrow> nat \<Rightarrow> WorkerCapabilities \<Rightarrow> ProtocolCapabilities \<Rightarrow> string \<Rightarrow> nat \<Rightarrow> nat option
     \<Rightarrow> WorkerEntry" where
  "fresh_entry env wid session caps features addr sender handle =
     \<lparr>we_worker_id = wid, we_session_id = session, we_capabilities = caps, we_status = Connected,
      we_last_heartbeat_instant = re_now env, we_last_heartbeat_timestamp = re_epoch env,
      we_registered_at_instant = re_now env, we_registered_timestamp = re_epoch env,
      we_active_tasks = 0, we_reported_active_tasks = 0, we_remote_addr = addr, we_sender = sender,
      we_abort_handle = handle, we_cpu_usage_pct = Fin 0, we_ram_available_mb = wc_ram_mb caps,
      we_rx_clock = None, we_consecutive_rejections = 0, we_excluded_until = None,
      we_heartbeat_interval = mobile_interval caps, we_features = features\<rparr>"

definition register_session ::
  "reg_env \<Rightarrow> uuid \<Rightarrow> WorkerCapabilities \<Rightarrow> ProtocolCapabilities \<Rightarrow> string \<Rightarrow> nat \<Rightarrow> nat option
     \<Rightarrow> WorkerRegistry \<Rightarrow> Registration \<times> nat list \<times> WorkerRegistry" where
  "register_session env wid caps features addr sender handle r0 =
     (let session = next_session_id r0; r = r0\<lparr>next_session_id := session + 1\<rparr>
      in case hm_get (workers r) wid of
           Some e \<Rightarrow>
             (\<lparr>rg_session_id = session,
               rg_superseded_session =
                 (if we_status e \<noteq> Disconnected then Some (we_session_id e) else None)\<rparr>,
              abort_unless_current env (we_abort_handle e),
              put_worker wid (rebound_entry env session caps features addr sender handle e) r)
         | None \<Rightarrow>
             (\<lparr>rg_session_id = session, rg_superseded_session = None\<rparr>, [],
              put_worker wid (fresh_entry env wid session caps features addr sender handle) r))"

definition register ::
  "reg_env \<Rightarrow> uuid \<Rightarrow> WorkerCapabilities \<Rightarrow> string \<Rightarrow> nat \<Rightarrow> nat option
     \<Rightarrow> WorkerRegistry \<Rightarrow> nat \<times> nat list \<times> WorkerRegistry" where
  "register env wid caps addr sender handle r =
     (case register_session env wid caps caps_empty addr sender handle r of
        (reg, aborted, r') \<Rightarrow> (rg_session_id reg, aborted, r'))"

definition set_rx_clock :: "uuid \<Rightarrow> nat \<Rightarrow> RxClock \<Rightarrow> WorkerRegistry \<Rightarrow> WorkerRegistry" where
  "set_rx_clock wid session clock r =
     (case hm_get (workers r) wid of
        Some e \<Rightarrow> if we_session_id e = session then put_worker wid (e\<lparr>we_rx_clock := Some clock\<rparr>) r else r
      | None \<Rightarrow> r)"

definition receive_bytes :: "nat \<Rightarrow> uuid \<Rightarrow> nat \<Rightarrow> WorkerRegistry \<Rightarrow> WorkerRegistry" where
  "receive_bytes now wid received r =
     (case hm_get (workers r) wid of
        Some e \<Rightarrow> put_worker wid (e\<lparr>we_rx_clock := map_option (poll_read now received) (we_rx_clock e)\<rparr>) r
      | None \<Rightarrow> r)"

definition stale_session :: "nat option \<Rightarrow> WorkerEntry \<Rightarrow> bool" where
  "stale_session expected e =
     (case expected of Some s \<Rightarrow> we_session_id e \<noteq> s | None \<Rightarrow> False)"

definition disconnected_entry :: "WorkerEntry \<Rightarrow> WorkerEntry" where
  "disconnected_entry e =
     e\<lparr>we_status := Disconnected, we_active_tasks := 0, we_reported_active_tasks := 0,
       we_abort_handle := None\<rparr>"

definition unregister ::
  "reg_env \<Rightarrow> uuid \<Rightarrow> nat option \<Rightarrow> WorkerRegistry \<Rightarrow> bool \<times> nat list \<times> WorkerRegistry" where
  "unregister env wid expected r =
     (case hm_get (workers r) wid of
        None \<Rightarrow> (False, [], r)
      | Some e \<Rightarrow>
          if stale_session expected e then (False, [], r)
          else if we_status e = Disconnected then (False, [], r)
          else (True, abort_unless_current env (we_abort_handle e), put_worker wid (disconnected_entry e) r))"

definition mark_disconnected ::
  "reg_env \<Rightarrow> uuid \<Rightarrow> WorkerRegistry \<Rightarrow> bool \<times> nat list \<times> WorkerRegistry" where
  "mark_disconnected env wid r = unregister env wid None r"

definition remove_worker ::
  "reg_env \<Rightarrow> uuid \<Rightarrow> WorkerRegistry \<Rightarrow> WorkerInfo option \<times> nat list \<times> WorkerRegistry" where
  "remove_worker env wid r =
     (case hm_get (workers r) wid of
        Some e \<Rightarrow> (Some (worker_info e), abort_unless_current env (we_abort_handle e),
                   r\<lparr>workers := hm_del wid (workers r)\<rparr>)
      | None \<Rightarrow> (None, [], r))"

definition is_stale_entry :: "nat \<Rightarrow> nat \<Rightarrow> WorkerEntry \<Rightarrow> bool" where
  "is_stale_entry now stale_timeout e \<longleftrightarrow>
     we_status e = Disconnected \<and> stale_timeout \<le> now - we_last_heartbeat_instant e"

fun remove_stale ::
  "reg_env \<Rightarrow> uuid list \<Rightarrow> nat list \<Rightarrow> WorkerRegistry \<Rightarrow> nat list \<times> WorkerRegistry" where
  "remove_stale env [] aborted r = (aborted, r)"
| "remove_stale env (wid # wids) aborted r =
     (case hm_get (workers r) wid of
        Some e \<Rightarrow> remove_stale env wids (aborted @ abort_unless_current env (we_abort_handle e))
                    (r\<lparr>workers := hm_del wid (workers r)\<rparr>)
      | None \<Rightarrow> remove_stale env wids aborted r)"

definition prune_stale_workers ::
  "reg_env \<Rightarrow> nat \<Rightarrow> WorkerRegistry \<Rightarrow> nat \<times> nat list \<times> WorkerRegistry" where
  "prune_stale_workers env stale_timeout r =
     (let gone = map fst (filter (\<lambda>(wid, e). is_stale_entry (re_now env) stale_timeout e) (workers r))
      in (length gone, remove_stale env gone [] r))"

definition set_status ::
  "uuid \<Rightarrow> WorkerStatus \<Rightarrow> nat option \<Rightarrow> WorkerRegistry \<Rightarrow> (registry_error + unit) \<times> WorkerRegistry" where
  "set_status wid status expected r =
     (case hm_get (workers r) wid of
        None \<Rightarrow> (Inl (WorkerNotFound wid), r)
      | Some e \<Rightarrow>
          if stale_session expected e then (Inr (), r)
          else (Inr (), put_worker wid (e\<lparr>we_status := status\<rparr>) r))"

section \<open>Heartbeats and telemetry\<close>

definition heartbeat_interval_after :: "WorkerEntry \<Rightarrow> nat option" where
  "heartbeat_interval_after e =
     (case wc_mobile (we_capabilities e) of
        None \<Rightarrow> we_heartbeat_interval e
      | Some m \<Rightarrow>
          let live = live_status m;
              cellular = net_is_cellular live
                \<or> (case we_heartbeat_interval e of Some d \<Rightarrow> d < secs 60 | None \<Rightarrow> False)
          in if cellular then Some (recommended_keepalive_interval live (we_active_tasks e))
             else if we_heartbeat_interval e = None then Some (secs 60)
             else we_heartbeat_interval e)"

definition load_status :: "WorkerEntry \<Rightarrow> WorkerStatus" where
  "load_status e = (if 0 < visible_active_tasks e then Busy else Connected)"

definition heartbeat_entry ::
  "reg_env \<Rightarrow> nat \<Rightarrow> nat \<Rightarrow> fval \<Rightarrow> nat \<Rightarrow> bool \<Rightarrow> WorkerEntry \<Rightarrow> WorkerEntry" where
  "heartbeat_entry env active timestamp cpu ram revive e =
     (let e1 = e\<lparr>we_last_heartbeat_instant := re_now env, we_last_heartbeat_timestamp := timestamp,
                 we_reported_active_tasks := active, we_cpu_usage_pct := cpu, we_ram_available_mb := ram\<rparr>;
          e2 = e1\<lparr>we_heartbeat_interval := heartbeat_interval_after e1\<rparr>
      in if we_status e2 \<noteq> Disconnected \<or> revive then e2\<lparr>we_status := load_status e2\<rparr> else e2)"

definition record_heartbeat_session ::
  "reg_env \<Rightarrow> uuid \<Rightarrow> nat \<Rightarrow> nat \<Rightarrow> fval \<Rightarrow> nat \<Rightarrow> nat option \<Rightarrow> WorkerRegistry
     \<Rightarrow> (registry_error + HeartbeatOutcome) \<times> WorkerRegistry" where
  "record_heartbeat_session env wid active timestamp cpu ram expected r =
     (case hm_get (workers r) wid of
        None \<Rightarrow> (Inl (WorkerNotFound wid), r)
      | Some e \<Rightarrow>
          if stale_session expected e then (Inr StaleSession, r)
          else
            let revive = (we_status e = Disconnected \<and> expected \<noteq> None)
            in (Inr (if revive then Revived else Applied),
                put_worker wid (heartbeat_entry env active timestamp cpu ram revive e) r))"

definition record_heartbeat ::
  "reg_env \<Rightarrow> uuid \<Rightarrow> nat \<Rightarrow> nat \<Rightarrow> fval \<Rightarrow> nat \<Rightarrow> nat option \<Rightarrow> WorkerRegistry
     \<Rightarrow> (registry_error + unit) \<times> WorkerRegistry" where
  "record_heartbeat env wid active timestamp cpu ram expected r =
     (case record_heartbeat_session env wid active timestamp cpu ram expected r of
        (Inl err, r') \<Rightarrow> (Inl err, r')
      | (Inr _, r') \<Rightarrow> (Inr (), r'))"

definition live_mobile :: "WorkerCapabilities \<Rightarrow> MobileLiveStatus \<Rightarrow> MobileCapabilities" where
  "live_mobile caps status =
     (case wc_mobile caps of
        Some current \<Rightarrow> with_live_status current status
      | None \<Rightarrow>
          \<lparr>mc_os_version = ''unknown'', mc_soc_model = ''unknown'',
           mc_battery_pct = ls_battery_pct status, mc_is_charging = ls_is_charging status,
           mc_thermal_throttled = ls_thermal_throttled status\<rparr>)"

definition update_mobile_telemetry ::
  "uuid \<Rightarrow> nat option \<Rightarrow> MobileLiveStatus \<Rightarrow> WorkerRegistry
     \<Rightarrow> (registry_error + bool) \<times> WorkerRegistry" where
  "update_mobile_telemetry wid expected status r =
     (case hm_get (workers r) wid of
        None \<Rightarrow> (Inl (WorkerNotFound wid), r)
      | Some e \<Rightarrow>
          if stale_session expected e then (Inr False, r)
          else
            let updated = live_mobile (we_capabilities e) status;
                e' = e\<lparr>we_heartbeat_interval := Some (recommended_keepalive_interval status (we_active_tasks e)),
                       we_capabilities := (we_capabilities e)\<lparr>wc_mobile := Some updated\<rparr>\<rparr>
            in (Inr (wc_mobile (we_capabilities e) \<noteq> Some updated), put_worker wid e' r))"

section \<open>Dispatch slots and the circuit breaker\<close>

definition with_slot :: "WorkerEntry \<Rightarrow> WorkerEntry" where
  "with_slot e =
     (let e1 = e\<lparr>we_active_tasks := we_active_tasks e + 1\<rparr>
      in if we_status e1 = Connected then e1\<lparr>we_status := Busy\<rparr> else e1)"

definition without_slot :: "WorkerEntry \<Rightarrow> WorkerEntry" where
  "without_slot e =
     (let e1 = e\<lparr>we_active_tasks := we_active_tasks e - 1\<rparr>
      in if we_status e1 = Busy \<and> visible_active_tasks e1 = 0 then e1\<lparr>we_status := Connected\<rparr> else e1)"

definition reserve_dispatch ::
  "uuid \<Rightarrow> nat \<Rightarrow> WorkerRegistry \<Rightarrow> (registry_error + nat) \<times> WorkerRegistry" where
  "reserve_dispatch wid session r =
     (case hm_get (workers r) wid of
        None \<Rightarrow> (Inl (WorkerNotFound wid), r)
      | Some e \<Rightarrow>
          if we_session_id e \<noteq> session \<or> we_status e = Disconnected then (Inl ConnectionClosed, r)
          else (Inr (we_sender e), put_worker wid (with_slot e) r))"

definition release_dispatch :: "uuid \<Rightarrow> nat \<Rightarrow> WorkerRegistry \<Rightarrow> WorkerRegistry" where
  "release_dispatch wid session r =
     (case hm_get (workers r) wid of
        Some e \<Rightarrow> if we_session_id e = session then put_worker wid (without_slot e) r else r
      | None \<Rightarrow> r)"

definition increment_active_tasks ::
  "uuid \<Rightarrow> WorkerRegistry \<Rightarrow> (registry_error + nat) \<times> WorkerRegistry" where
  "increment_active_tasks wid r =
     (case hm_get (workers r) wid of
        None \<Rightarrow> (Inl (WorkerNotFound wid), r)
      | Some e \<Rightarrow> (Inr (we_active_tasks (with_slot e)), put_worker wid (with_slot e) r))"

definition decrement_active_tasks ::
  "uuid \<Rightarrow> WorkerRegistry \<Rightarrow> (registry_error + nat) \<times> WorkerRegistry" where
  "decrement_active_tasks wid r =
     (case hm_get (workers r) wid of
        None \<Rightarrow> (Inl (WorkerNotFound wid), r)
      | Some e \<Rightarrow> (Inr (we_active_tasks (without_slot e)), put_worker wid (without_slot e) r))"

definition rejection_cooldown :: "nat \<Rightarrow> nat" where
  "rejection_cooldown rejections =
     min (dur_mul REJECTION_COOLDOWN_BASE (2 ^ min (rejections - 1) 16)) REJECTION_COOLDOWN_MAX"

definition record_rejection ::
  "reg_env \<Rightarrow> uuid \<Rightarrow> nat option \<Rightarrow> WorkerRegistry \<Rightarrow> nat option \<times> WorkerRegistry" where
  "record_rejection env wid expected r =
     (case hm_get (workers r) wid of
        None \<Rightarrow> (None, r)
      | Some e \<Rightarrow>
          if stale_session expected e then (None, r)
          else
            let n = min (we_consecutive_rejections e + 1) (2 ^ 32 - 1);
                cooldown = rejection_cooldown n
            in (Some cooldown,
                put_worker wid (e\<lparr>we_consecutive_rejections := n,
                                  we_excluded_until := Some (re_now env + cooldown)\<rparr>) r))"

definition clear_rejections :: "uuid \<Rightarrow> WorkerRegistry \<Rightarrow> WorkerRegistry" where
  "clear_rejections wid r =
     (case hm_get (workers r) wid of
        Some e \<Rightarrow>
          if 0 < we_consecutive_rejections e \<or> we_excluded_until e \<noteq> None
          then put_worker wid (e\<lparr>we_consecutive_rejections := 0, we_excluded_until := None\<rparr>) r
          else r
      | None \<Rightarrow> r)"

definition exclusion_remaining :: "reg_env \<Rightarrow> uuid \<Rightarrow> WorkerRegistry \<Rightarrow> nat option" where
  "exclusion_remaining env wid r =
     (case hm_get (workers r) wid of
        None \<Rightarrow> None
      | Some e \<Rightarrow>
          (case we_excluded_until e of
             None \<Rightarrow> None
           | Some until \<Rightarrow> if re_now env \<le> until then Some (until - re_now env) else None))"

section \<open>Queries\<close>

definition entries :: "WorkerRegistry \<Rightarrow> WorkerEntry list" where
  "entries r = map snd (workers r)"

definition get_worker :: "uuid \<Rightarrow> WorkerRegistry \<Rightarrow> WorkerInfo option" where
  "get_worker wid r = map_option worker_info (hm_get (workers r) wid)"

definition list_all_workers :: "WorkerRegistry \<Rightarrow> WorkerInfo list" where
  "list_all_workers r = map worker_info (entries r)"

definition list_active_workers :: "WorkerRegistry \<Rightarrow> WorkerInfo list" where
  "list_active_workers r = map worker_info (filter (\<lambda>e. we_status e \<noteq> Disconnected) (entries r))"

definition excluded :: "nat \<Rightarrow> WorkerEntry \<Rightarrow> bool" where
  "excluded now e = (case we_excluded_until e of Some until \<Rightarrow> now < until | None \<Rightarrow> False)"

definition list_schedulable_workers :: "reg_env \<Rightarrow> WorkerRegistry \<Rightarrow> WorkerInfo list" where
  "list_schedulable_workers env r =
     map worker_info (filter (\<lambda>e. \<not> excluded (re_now env) e)
       (filter (\<lambda>e. we_status e \<noteq> Disconnected) (entries r)))"

definition list_available_workers :: "WorkerRegistry \<Rightarrow> WorkerInfo list" where
  "list_available_workers r = map worker_info (filter (\<lambda>e. we_status e = Connected) (entries r))"

definition list_gpu_workers :: "WorkerRegistry \<Rightarrow> WorkerInfo list" where
  "list_gpu_workers r =
     map worker_info (filter (\<lambda>e. we_status e \<noteq> Disconnected \<and> can_execute_gpu (we_capabilities e)) (entries r))"

definition list_non_gpu_workers :: "WorkerRegistry \<Rightarrow> WorkerInfo list" where
  "list_non_gpu_workers r =
     map worker_info (filter (\<lambda>e. we_status e \<noteq> Disconnected \<and> \<not> can_execute_gpu (we_capabilities e)) (entries r))"

definition find_eligible_workers :: "TaskRequirements \<Rightarrow> WorkerRegistry \<Rightarrow> WorkerInfo list" where
  "find_eligible_workers req r =
     map worker_info (filter (\<lambda>e. we_status e \<noteq> Disconnected \<and> satisfies (we_capabilities e) req) (entries r))"

definition sender_of :: "uuid \<Rightarrow> WorkerRegistry \<Rightarrow> registry_error + nat" where
  "sender_of wid r =
     (case hm_get (workers r) wid of
        None \<Rightarrow> Inl (WorkerNotFound wid)
      | Some e \<Rightarrow> if we_status e = Disconnected then Inl ConnectionClosed else Inr (we_sender e))"

fun broadcast_loop ::
  "(nat \<Rightarrow> bool) \<Rightarrow> reg_env \<Rightarrow> (uuid \<times> nat) list \<Rightarrow> nat \<Rightarrow> nat list \<Rightarrow> WorkerRegistry
     \<Rightarrow> nat \<times> nat list \<times> WorkerRegistry" where
  "broadcast_loop delivers env [] sent aborted r = (sent, aborted, r)"
| "broadcast_loop delivers env ((wid, sender) # rest) sent aborted r =
     (if delivers sender then broadcast_loop delivers env rest (sent + 1) aborted r
      else case unregister env wid None r of
             (_, more_aborted, r') \<Rightarrow> broadcast_loop delivers env rest sent (aborted @ more_aborted) r')"

definition broadcast ::
  "(nat \<Rightarrow> bool) \<Rightarrow> reg_env \<Rightarrow> WorkerRegistry \<Rightarrow> nat \<times> nat list \<times> WorkerRegistry" where
  "broadcast delivers env r =
     broadcast_loop delivers env
       (map (\<lambda>(wid, e). (wid, we_sender e)) (filter (\<lambda>(wid, e). we_status e \<noteq> Disconnected) (workers r))) 0 [] r"

definition registry_counts :: "WorkerRegistry \<Rightarrow> nat \<times> nat \<times> nat" where
  "registry_counts r =
     (length (workers r),
      length (filter (\<lambda>e. we_status e \<noteq> Disconnected) (entries r)),
      length (filter (\<lambda>e. we_status e \<noteq> Disconnected \<and> can_execute_gpu (we_capabilities e)) (entries r)))"

section \<open>Reaping\<close>

definition reap_due :: "nat \<Rightarrow> nat \<Rightarrow> WorkerEntry \<Rightarrow> bool" where
  "reap_due now timeout e \<longleftrightarrow> we_status e \<noteq> Disconnected \<and> is_silent e now timeout"

definition reap_candidates :: "nat \<Rightarrow> nat \<Rightarrow> WorkerRegistry \<Rightarrow> uuid list" where
  "reap_candidates now timeout r = map we_worker_id (filter (reap_due now timeout) (entries r))"

fun reap_mark ::
  "reg_env \<Rightarrow> nat \<Rightarrow> uuid list \<Rightarrow> (uuid \<times> nat) list \<Rightarrow> nat list \<Rightarrow> WorkerRegistry
     \<Rightarrow> (uuid \<times> nat) list \<times> nat list \<times> WorkerRegistry" where
  "reap_mark env timeout [] reaped aborted r = (reaped, aborted, r)"
| "reap_mark env timeout (wid # wids) reaped aborted r =
     (case hm_get (workers r) wid of
        Some e \<Rightarrow>
          if reap_due (re_now env) timeout e
          then reap_mark env timeout wids (reaped @ [(wid, we_session_id e)])
                 (aborted @ abort_unless_current env (we_abort_handle e)) (put_worker wid (disconnected_entry e) r)
          else reap_mark env timeout wids reaped aborted r
      | None \<Rightarrow> reap_mark env timeout wids reaped aborted r)"

text \<open>
  The candidates are found under a read lock and marked under a later write lock; \<open>r1\<close> is the
  registry the first phase saw at \<open>now1\<close>, \<open>r\<close> the one the second phase works on.
\<close>

definition reap_stale_sessions ::
  "nat \<Rightarrow> WorkerRegistry \<Rightarrow> reg_env \<Rightarrow> nat \<Rightarrow> WorkerRegistry \<Rightarrow> (uuid \<times> nat) list \<times> nat list \<times> WorkerRegistry" where
  "reap_stale_sessions now1 r1 env timeout r =
     (let candidates = reap_candidates now1 timeout r1
      in if candidates = [] then ([], [], r) else reap_mark env timeout candidates [] [] r)"

definition reap_stale_workers ::
  "nat \<Rightarrow> WorkerRegistry \<Rightarrow> reg_env \<Rightarrow> nat \<Rightarrow> WorkerRegistry \<Rightarrow> uuid list \<times> nat list \<times> WorkerRegistry" where
  "reap_stale_workers now1 r1 env timeout r =
     (case reap_stale_sessions now1 r1 env timeout r of
        (reaped, aborted, r') \<Rightarrow> (map fst reaped, aborted, r'))"

end
