(* ===== verification/Scheduler.thy ===== *)
theory Scheduler
  imports Registry
begin

text \<open>
  The placement engine of the workload scheduler (\<open>crates/master/src/scheduler.rs\<close>): the scheduling
  policies and the configuration, the seat that stands for a worker during a pass, the engine with
  its stages, the ranking of the candidates, the pure matchmaking function and the estimate of GPU
  demand; the walk of a scheduling pass over the queue is in the theory \<open>Scheduler_Pass\<close>.  The uuid parser and the
  rounding of \<open>f64\<close> are the fields of an environment record.  Reasons are values instead of
  formatted messages.
\<close>

record sched_env =
  se_parse_uuid :: "string \<Rightarrow> uuid option"
  se_round :: rounding

definition SCAN_PAGE :: nat where "SCAN_PAGE = 256"

definition GPU_PROBE_INTERVAL :: nat where "GPU_PROBE_INTERVAL = secs 1"

section \<open>Configuration\<close>

datatype SchedulingPolicy = LeastLoaded | WeightedLeastLoaded | RoundRobin

fun policy_as_str :: "SchedulingPolicy \<Rightarrow> string" where
  "policy_as_str WeightedLeastLoaded = ''weighted''"
| "policy_as_str LeastLoaded = ''least-loaded''"
| "policy_as_str RoundRobin = ''round-robin''"

definition policy_from_str :: "string \<Rightarrow> string + SchedulingPolicy" where
  "policy_from_str s =
     (let t = replace_char (CHR ''_'') (CHR ''-'') (to_ascii_lowercase (trim s))
      in if t \<in> {''weighted'', ''weighted-least-loaded''} then Inr WeightedLeastLoaded
         else if t \<in> {''least-loaded'', ''leastloaded''} then Inr LeastLoaded
         else if t \<in> {''round-robin'', ''roundrobin'', ''rr''} then Inr RoundRobin
         else Inl t)"

record SchedulerConfig =
  sc_policy :: SchedulingPolicy
  sc_core_concurrency_multiplier :: fval
  sc_max_tasks_per_worker :: "nat option"
  sc_preserve_gpu_for_gpu_tasks :: bool
  sc_gpu_reserved_slots :: nat
  sc_gpu_demand_window :: nat
  sc_fail_unfulfillable_tasks :: bool
  sc_mobile_min_battery_pct :: nat
  sc_max_host_cpu_pct :: fval
  sc_min_vram_fast_mb :: nat
  sc_min_vram_standard_mb :: nat
  sc_min_vram_high_mb :: nat
  sc_tick_interval :: nat
  sc_micro_batch_window :: nat
  sc_max_batch_size :: nat
  sc_max_scan_per_pass :: nat

definition scheduler_config_default :: SchedulerConfig where
  "scheduler_config_default =
     \<lparr>sc_policy = WeightedLeastLoaded, sc_core_concurrency_multiplier = Fin 1,
      sc_max_tasks_per_worker = None, sc_preserve_gpu_for_gpu_tasks = True, sc_gpu_reserved_slots = 1,
      sc_gpu_demand_window = secs 30, sc_fail_unfulfillable_tasks = False,
      sc_mobile_min_battery_pct = 15, sc_max_host_cpu_pct = Fin 85, sc_min_vram_fast_mb = 2048,
      sc_min_vram_standard_mb = 4096, sc_min_vram_high_mb = 6144,
      sc_tick_interval = millis 100, sc_micro_batch_window = millis 5, sc_max_batch_size = 128,
      sc_max_scan_per_pass = 20000\<rparr>"

definition with_micro_batch_window :: "nat \<Rightarrow> SchedulerConfig \<Rightarrow> SchedulerConfig" where
  "with_micro_batch_window window cfg = cfg\<lparr>sc_micro_batch_window := window\<rparr>"

definition with_max_batch_size :: "nat \<Rightarrow> SchedulerConfig \<Rightarrow> SchedulerConfig" where
  "with_max_batch_size n cfg = cfg\<lparr>sc_max_batch_size := n\<rparr>"

definition cap_at :: "nat option \<Rightarrow> nat \<Rightarrow> nat" where
  "cap_at cap n = (case cap of Some c \<Rightarrow> min n c | None \<Rightarrow> n)"

definition f_of_nat :: "rounding \<Rightarrow> nat \<Rightarrow> fval" where
  "f_of_nat r n = r (of_nat n)"

definition effective_max_concurrency :: "sched_env \<Rightarrow> SchedulerConfig \<Rightarrow> WorkerInfo \<Rightarrow> nat" where
  "effective_max_concurrency env cfg w =
     (let cores = max (wc_cpu_cores (wi_capabilities w)) 1;
          by_multiplier = f_to_usize (f_ceil (f_mul (se_round env) (f_of_nat (se_round env) cores)
                                                (sc_core_concurrency_multiplier cfg)));
          limit = max by_multiplier 1
      in cap_at (sc_max_tasks_per_worker cfg) limit)"

definition effective_max_tasks :: "sched_env \<Rightarrow> SchedulerConfig \<Rightarrow> WorkerInfo \<Rightarrow> nat" where
  "effective_max_tasks env cfg w =
     (let limit = (case advertised_slots (wc_tags (wi_capabilities w)) of
                     Some slots \<Rightarrow> slots | None \<Rightarrow> effective_max_concurrency env cfg w)
      in cap_at (sc_max_tasks_per_worker cfg) limit)"

definition engine_is_cpu_capable :: "Engine3D \<Rightarrow> bool" where
  "engine_is_cpu_capable e \<longleftrightarrow> \<not> engine_requires_gpu e"

definition required_vram_mb :: "SchedulerConfig \<Rightarrow> Task \<Rightarrow> nat" where
  "required_vram_mb cfg t =
     (case t_spec t of
        Generative3D spec \<Rightarrow>
          if engine_is_cpu_capable (engine spec) then 0
          else if g3_quality spec = ''fast'' then sc_min_vram_fast_mb cfg
          else if g3_quality spec = ''high'' then sc_min_vram_high_mb cfg
          else sc_min_vram_standard_mb cfg
      | _ \<Rightarrow> 0)"

section \<open>Decisions\<close>

record ScheduleAssignment =
  sa_task_id :: uuid
  sa_worker_id :: uuid
  sa_session_id :: nat
  sa_task :: Task

datatype sched_reason =
    InvalidPlacement placement_error
  | LacksGpuWorkers
  | LacksFeatures string
  | NoPlacementMatch Placement

datatype ScheduleSkipReason =
    NoEligibleWorkers
  | NoGpuWorkersAvailable
  | AllEligibleWorkersSaturated
  | MobileThrottledOrLowBattery
  | ClusterLacksCapability sched_reason

record ScheduleReport =
  sr_assignments :: "ScheduleAssignment list"
  sr_skipped :: "(uuid \<times> ScheduleSkipReason) list"
  sr_unfulfillable :: "(uuid \<times> sched_reason) list"

definition report_default :: ScheduleReport where
  "report_default = \<lparr>sr_assignments = [], sr_skipped = [], sr_unfulfillable = []\<rparr>"

datatype Verdict = Placed nat | Skip ScheduleSkipReason | Unfulfillable sched_reason

record Shape =
  sh_requires_gpu :: bool
  sh_heavy :: bool
  sh_required_features :: ProtocolCapabilities
  sh_cpu_cores :: nat
  sh_ram_mb :: nat
  sh_placement :: Placement

definition shape_of :: "TaskView \<Rightarrow> Placement \<Rightarrow> Shape" where
  "shape_of v p =
     \<lparr>sh_requires_gpu = tv_requires_gpu v, sh_heavy = tv_heavy v,
      sh_required_features = tv_required_features v,
      sh_cpu_cores = cpu_cores (tv_requirements v), sh_ram_mb = ram_mb (tv_requirements v),
      sh_placement = p\<rparr>"

definition feature_names :: "ProtocolCapabilities \<Rightarrow> string" where
  "feature_names f =
     join '' and '' ((if caps_contains f FILE_STAGING then [''FILE_STAGING''] else [])
                     @ (if caps_contains f BLOB_TRANSFER then [''BLOB_TRANSFER''] else []))"

definition statically_fits :: "TaskRequirements \<Rightarrow> WorkerInfo \<Rightarrow> bool" where
  "statically_fits req w \<longleftrightarrow>
     (cpu_cores req = 0 \<or> cpu_cores req \<le> wc_cpu_cores (wi_capabilities w))
     \<and> (ram_mb req = 0 \<or> ram_mb req \<le> wc_ram_mb (wi_capabilities w))"

definition placement_admits :: "sched_env \<Rightarrow> Placement \<Rightarrow> WorkerInfo \<Rightarrow> bool" where
  "placement_admits env p w =
     placement_matches (se_parse_uuid env) p (wi_worker_id w) (wc_name (wi_capabilities w))
       (wc_tags (wi_capabilities w))"

definition view_fits :: "sched_env \<Rightarrow> TaskView \<Rightarrow> WorkerInfo \<Rightarrow> bool" where
  "view_fits env v w \<longleftrightarrow>
     statically_fits (tv_requirements v) w
     \<and> (case tv_placement v of Inr p \<Rightarrow> placement_admits env p w | Inl _ \<Rightarrow> False)"

section \<open>Seats\<close>

record Seat =
  st_worker :: WorkerInfo
  st_max_slots :: nat
  st_max_tasks :: nat
  st_base :: AssignedLoad
  st_placed :: AssignedLoad

definition used_slots :: "Seat \<Rightarrow> nat" where
  "used_slots s = al_slots (st_base s) + al_slots (st_placed s)"

definition seat_load :: "Seat \<Rightarrow> nat" where
  "seat_load s = al_tasks (st_base s) + al_tasks (st_placed s)"

definition remaining_slots :: "Seat \<Rightarrow> nat" where
  "remaining_slots s = (if st_max_tasks s \<le> seat_load s then 0 else st_max_slots s - used_slots s)"

definition effective_scheduler_battery_tier ::
  "WorkerInfo \<Rightarrow> MobileCapabilities \<Rightarrow> MobileLiveStatus \<Rightarrow> BatteryTier" where
  "effective_scheduler_battery_tier w m live =
     (let raw = unwrap_or (ls_battery_tier live) (compute_battery_tier (ls_battery_pct live) (ls_is_charging live))
      in if raw = BatCritical then BatCritical
         else
           let os = to_ascii_lowercase (mc_os_version m); tags = wc_tags (wi_capabilities w);
               is_mobile_os = contains_str os ''android'' \<or> contains_str os ''ios''
                 \<or> list_ex (\<lambda>t. t = ''os:android'' \<or> t = ''os:ios'') tags;
               is_laptop_os = \<not> is_mobile_os
                 \<and> (starts_with os ''macos'' \<or> starts_with os ''linux'' \<or> starts_with os ''windows''
                    \<or> list_ex (\<lambda>t. t = ''os:macos'' \<or> t = ''os:windows'' \<or> t = ''os:linux'') tags)
           in if is_laptop_os then BatNormal else raw)"

definition live_thermal_tier :: "MobileLiveStatus \<Rightarrow> ThermalTier" where
  "live_thermal_tier live =
     unwrap_or (ls_thermal_tier live)
       (compute_thermal_tier (ls_battery_temperature live) (ls_thermal_throttled live))"

definition mobile_concurrency :: "WorkerInfo \<Rightarrow> MobileCapabilities \<Rightarrow> nat" where
  "mobile_concurrency w m =
     (let live = live_status m
      in calculate_effective_concurrency (wc_cpu_cores (wi_capabilities w))
           (effective_scheduler_battery_tier w m live) (live_thermal_tier live))"

definition base_load :: "(uuid, AssignedLoad) hmap option \<Rightarrow> WorkerInfo \<Rightarrow> AssignedLoad" where
  "base_load loads w =
     (case loads of
        Some ls \<Rightarrow> unwrap_or (hm_get ls (wi_worker_id w)) load_default
      | None \<Rightarrow> \<lparr>al_tasks = wi_active_tasks w, al_slots = wi_active_tasks w, al_unstarted_ram_mb = 0\<rparr>)"

definition new_seat ::
  "sched_env \<Rightarrow> SchedulerConfig \<Rightarrow> (uuid, AssignedLoad) hmap option \<Rightarrow> WorkerInfo \<Rightarrow> Seat" where
  "new_seat env cfg loads w =
     (let slots = effective_max_concurrency env cfg w; max_tasks = effective_max_tasks env cfg w
      in \<lparr>st_worker = w,
          st_max_slots = (case wc_mobile (wi_capabilities w) of
                            Some m \<Rightarrow> min slots (mobile_concurrency w m) | None \<Rightarrow> slots),
          st_max_tasks = (case wc_mobile (wi_capabilities w) of
                            Some m \<Rightarrow> min max_tasks (mobile_concurrency w m) | None \<Rightarrow> max_tasks),
          st_base = base_load loads w, st_placed = load_default\<rparr>)"

section \<open>The engine\<close>

record Engine =
  en_seats :: "Seat list"
  en_rr_cursor :: nat
  en_gpu_waiting :: bool
  en_gpu_recent :: bool
  en_any_gpu_worker :: bool
  en_dead :: "Shape list"
  en_free_slots :: nat
  en_reserved :: "bool list"

definition engine_new ::
  "sched_env \<Rightarrow> SchedulerConfig \<Rightarrow> WorkerInfo list \<Rightarrow> (uuid, AssignedLoad) hmap option \<Rightarrow> bool \<Rightarrow> bool \<Rightarrow> Engine" where
  "engine_new env cfg ws loads gpu_waiting gpu_recent =
     (let seats = map (new_seat env cfg loads) ws
      in \<lparr>en_seats = seats, en_rr_cursor = 0, en_gpu_waiting = gpu_waiting,
          en_gpu_recent = (gpu_recent \<or> gpu_waiting),
          en_any_gpu_worker = list_ex (\<lambda>w. can_execute_gpu (wi_capabilities w)) ws, en_dead = [],
          en_free_slots = sum_list (map remaining_slots
            (filter (\<lambda>s. wi_status (st_worker s) \<noteq> Disconnected) seats)),
          en_reserved = replicate (length seats) False\<rparr>)"

definition weight_of :: "TaskView \<Rightarrow> nat" where
  "weight_of v = max (cpu_cores (tv_requirements v)) 1"

definition seat_is_gpu :: "Seat \<Rightarrow> bool" where
  "seat_is_gpu s = can_execute_gpu (wi_capabilities (st_worker s))"

definition seat_is_real_gpu :: "Seat \<Rightarrow> bool" where
  "seat_is_real_gpu s \<longleftrightarrow>
     wc_has_gpu (wi_capabilities (st_worker s)) \<and> \<not> wc_is_simulated_gpu (wi_capabilities (st_worker s))"

text \<open>Stage 4: battery and heat, from the tags and from the telemetry.\<close>

definition tags_allow :: "SchedulerConfig \<Rightarrow> TaskView \<Rightarrow> WorkerCapabilities \<Rightarrow> bool" where
  "tags_allow cfg v caps =
     (let throttled = list_ex (\<lambda>t. t = ''thermal_throttled'') (wc_tags caps)
            \<or> (case wc_mobile caps of Some m \<Rightarrow> mc_thermal_throttled m | None \<Rightarrow> False);
          low = list_ex (\<lambda>t. t = ''low_battery'') (wc_tags caps)
            \<or> (case wc_mobile caps of
                 Some m \<Rightarrow> (case mc_battery_pct m of
                              Some pct \<Rightarrow> pct < sc_mobile_min_battery_pct cfg | None \<Rightarrow> False)
                           \<and> mc_is_charging m = Some False
               | None \<Rightarrow> False)
      in \<not> (throttled \<and> (1 < cpu_cores (tv_requirements v) \<or> tv_heavy v)) \<and> \<not> (low \<and> tv_heavy v))"

definition mobile_allows :: "TaskView \<Rightarrow> WorkerInfo \<Rightarrow> MobileCapabilities \<Rightarrow> bool" where
  "mobile_allows v w m =
     (let live = live_status m; wide = 1 < cpu_cores (tv_requirements v)
      in mobile_concurrency w m \<noteq> 0
         \<and> (case effective_scheduler_battery_tier w m live of
              BatCritical \<Rightarrow> False | BatSubLow \<Rightarrow> \<not> (wide \<or> tv_heavy v)
            | BatLow \<Rightarrow> \<not> tv_heavy v | BatNormal \<Rightarrow> True)
         \<and> (case live_thermal_tier live of
              ThermCritical \<Rightarrow> False | ThermHot \<Rightarrow> \<not> (wide \<or> tv_heavy v)
            | ThermWarm \<Rightarrow> \<not> (tv_heavy v \<and> \<not> unwrap_or (ls_is_charging live) False)
            | ThermNormal \<Rightarrow> True))"

definition ram_free :: "TaskView \<Rightarrow> Seat \<Rightarrow> bool" where
  "ram_free v s =
     (let need = ram_mb (tv_requirements v); free = wi_ram_available_mb (st_worker s);
          reserved = al_unstarted_ram_mb (st_base s) + al_unstarted_ram_mb (st_placed s)
      in 0 < need \<and> 0 < free \<longrightarrow> need \<le> free - reserved)"

text \<open>Stages 1 to 4: everything but free slots.\<close>

definition seat_admits :: "sched_env \<Rightarrow> SchedulerConfig \<Rightarrow> TaskView \<Rightarrow> uuid list \<Rightarrow> Seat \<Rightarrow> bool" where
  "seat_admits env cfg v avoided s =
     (let w = st_worker s; caps = wi_capabilities w
      in \<not> (wi_status w = Disconnected \<or> wi_worker_id w \<in> set avoided)
         \<and> view_fits env v w
         \<and> \<not> f_less (sc_max_host_cpu_pct cfg) (wi_cpu_usage_pct w)
         \<and> ram_free v s
         \<and> \<not> (tv_requires_gpu v \<and> \<not> can_execute_gpu caps)
         \<and> caps_contains (wi_features w) (tv_required_features v)
         \<and> tags_allow cfg v caps
         \<and> (case wc_mobile caps of Some m \<Rightarrow> mobile_allows v w m | None \<Rightarrow> True))"

definition saturated :: "TaskView \<Rightarrow> Seat \<Rightarrow> bool" where
  "saturated v s \<longleftrightarrow>
     st_max_tasks s \<le> seat_load s
     \<or> 0 < used_slots s \<and> st_max_slots s < used_slots s + weight_of v"

definition open_seats ::
  "sched_env \<Rightarrow> SchedulerConfig \<Rightarrow> Engine \<Rightarrow> TaskView \<Rightarrow> uuid list \<Rightarrow> nat list" where
  "open_seats env cfg en v avoided =
     filter (\<lambda>i. \<not> en_reserved en ! i \<and> seat_admits env cfg v avoided (en_seats en ! i)) [0..<length (en_seats en)]"

definition leaves_gpu_reserve :: "SchedulerConfig \<Rightarrow> TaskView \<Rightarrow> Seat \<Rightarrow> bool" where
  "leaves_gpu_reserve cfg v s =
     (let reserve = min (min (sc_gpu_reserved_slots cfg) (st_max_slots s - 1)) (st_max_tasks s - 1)
      in reserve \<le> st_max_slots s - (used_slots s + weight_of v)
         \<and> reserve \<le> st_max_tasks s - (seat_load s + 1))"

definition preserve_gpu :: "SchedulerConfig \<Rightarrow> Engine \<Rightarrow> TaskView \<Rightarrow> nat list \<Rightarrow> nat list" where
  "preserve_gpu cfg en v found =
     (if \<not> tv_requires_gpu v \<and> sc_preserve_gpu_for_gpu_tasks cfg \<and> (en_gpu_waiting en \<or> en_gpu_recent en) then
        let is_gpu = (\<lambda>i. seat_is_gpu (en_seats en ! i))
        in if en_gpu_waiting en \<and> list_ex (\<lambda>i. \<not> is_gpu i) found
           then filter (\<lambda>i. \<not> is_gpu i) found
           else filter (\<lambda>i. \<not> is_gpu i \<or> leaves_gpu_reserve cfg v (en_seats en ! i)) found
      else found)"

definition prefer_real_gpu :: "Engine \<Rightarrow> TaskView \<Rightarrow> nat list \<Rightarrow> nat list" where
  "prefer_real_gpu en v found =
     (if tv_requires_gpu v
         \<and> list_ex (\<lambda>i. seat_is_real_gpu (en_seats en ! i) \<and> used_slots (en_seats en ! i) = 0) found
      then filter (\<lambda>i. seat_is_real_gpu (en_seats en ! i)) found
      else found)"

definition candidates ::
  "sched_env \<Rightarrow> SchedulerConfig \<Rightarrow> Engine \<Rightarrow> TaskView \<Rightarrow> uuid list \<Rightarrow> nat list \<times> nat list" where
  "candidates env cfg en v avoided =
     (let seats = open_seats env cfg en v avoided;
          full = filter (\<lambda>i. saturated v (en_seats en ! i)) seats;
          found = filter (\<lambda>i. \<not> saturated v (en_seats en ! i)) seats
      in (prefer_real_gpu en v (preserve_gpu cfg en v found), full))"

section \<open>Ranking\<close>

definition gpu_pref :: "SchedulerConfig \<Rightarrow> TaskView \<Rightarrow> Seat \<Rightarrow> Seat \<Rightarrow> ordering" where
  "gpu_pref cfg v a b =
     (if sc_preserve_gpu_for_gpu_tasks cfg \<and> \<not> tv_requires_gpu v then cmp (seat_is_gpu a) (seat_is_gpu b)
      else if tv_requires_gpu v then cmp (seat_is_real_gpu b) (seat_is_real_gpu a)
      else Equal)"

definition load_ratio :: "sched_env \<Rightarrow> Seat \<Rightarrow> fval" where
  "load_ratio env s =
     (let r = se_round env; w = st_worker s
      in f_add r (f_div r (f_of_nat r (seat_load s)) (f_of_nat r (max (wc_cpu_cores (wi_capabilities w)) 1)))
           (f_mul r (Fin (1 / 2)) (f_div r (f_max (wi_cpu_usage_pct w) (Fin 0)) (Fin 100))))"

definition tie_break :: "SchedulerConfig \<Rightarrow> TaskView \<Rightarrow> Seat \<Rightarrow> Seat \<Rightarrow> ordering" where
  "tie_break cfg v a b =
     then_with (gpu_pref cfg v a b)
       (then_with (cmp (wc_cpu_cores (wi_capabilities (st_worker b))) (wc_cpu_cores (wi_capabilities (st_worker a))))
          (cmp (wi_worker_id (st_worker a)) (wi_worker_id (st_worker b))))"

definition seat_order :: "sched_env \<Rightarrow> SchedulerConfig \<Rightarrow> TaskView \<Rightarrow> Seat \<Rightarrow> Seat \<Rightarrow> ordering" where
  "seat_order env cfg v a b =
     (case sc_policy cfg of
        LeastLoaded \<Rightarrow> then_with (cmp (seat_load a) (seat_load b)) (tie_break cfg v a b)
      | _ \<Rightarrow> then_with (f_cmp (load_ratio env a) (load_ratio env b)) (tie_break cfg v a b))"

definition next_cursor :: "nat \<Rightarrow> nat" where
  "next_cursor c = (c + 1) mod 2 ^ 64"

definition rank :: "sched_env \<Rightarrow> SchedulerConfig \<Rightarrow> Engine \<Rightarrow> TaskView \<Rightarrow> nat list \<Rightarrow> nat \<times> Engine" where
  "rank env cfg en v cands =
     (case sc_policy cfg of
        RoundRobin \<Rightarrow>
          let real = filter (\<lambda>i. seat_is_real_gpu (en_seats en ! i)) cands;
              pool = (if tv_requires_gpu v \<and> real \<noteq> [] then real else cands)
          in (pool ! (en_rr_cursor en mod length pool), en\<lparr>en_rr_cursor := next_cursor (en_rr_cursor en)\<rparr>)
      | _ \<Rightarrow> (hd (sort_by (\<lambda>a b. seat_order env cfg v (en_seats en ! a) (en_seats en ! b)) cands), en))"

section \<open>Placing one task\<close>

definition slots_to_free :: "nat \<Rightarrow> Seat \<Rightarrow> nat" where
  "slots_to_free weight s =
     (if st_max_slots s < weight then used_slots s else used_slots s + weight - st_max_slots s)"

definition hold_back :: "nat list \<Rightarrow> nat \<Rightarrow> Engine \<Rightarrow> Engine" where
  "hold_back full weight en =
     (case sort_by (\<lambda>a b. cmp (slots_to_free weight (en_seats en ! a), a) (slots_to_free weight (en_seats en ! b), b)) full of
        [] \<Rightarrow> en
      | i # _ \<Rightarrow> en\<lparr>en_reserved := (en_reserved en)[i := True],
                    en_free_slots := en_free_slots en - remaining_slots (en_seats en ! i)\<rparr>)"

definition seat_take :: "TaskView \<Rightarrow> Seat \<Rightarrow> Seat" where
  "seat_take v s =
     s\<lparr>st_placed := \<lparr>al_tasks = al_tasks (st_placed s) + 1,
                     al_slots = al_slots (st_placed s) + weight_of v,
                     al_unstarted_ram_mb = al_unstarted_ram_mb (st_placed s) + ram_mb (tv_requirements v)\<rparr>\<rparr>"

definition take_seat :: "TaskView \<Rightarrow> nat \<Rightarrow> Engine \<Rightarrow> Engine" where
  "take_seat v i en =
     (let s = en_seats en ! i; s' = seat_take v s
      in en\<lparr>en_seats := (en_seats en)[i := s'],
            en_free_slots := en_free_slots en - (remaining_slots s - remaining_slots s')\<rparr>)"

definition nobody_has_features :: "Engine \<Rightarrow> TaskView \<Rightarrow> bool" where
  "nobody_has_features en v \<longleftrightarrow>
     \<not> caps_is_empty (tv_required_features v)
     \<and> \<not> list_ex (\<lambda>s. caps_contains (wi_features (st_worker s)) (tv_required_features v)) (en_seats en)"

definition nobody_matches :: "sched_env \<Rightarrow> Engine \<Rightarrow> Placement \<Rightarrow> bool" where
  "nobody_matches env en p \<longleftrightarrow>
     \<not> placement_is_empty p \<and> \<not> list_ex (\<lambda>s. placement_admits env p (st_worker s)) (en_seats en)"

definition skip_reason :: "sched_env \<Rightarrow> Engine \<Rightarrow> TaskView \<Rightarrow> Placement \<Rightarrow> ScheduleSkipReason" where
  "skip_reason env en v p =
     (if tv_requires_gpu v then NoGpuWorkersAvailable
      else if nobody_has_features en v
      then ClusterLacksCapability (LacksFeatures (feature_names (tv_required_features v)))
      else if nobody_matches env en p then ClusterLacksCapability (NoPlacementMatch p)
      else AllEligibleWorkersSaturated)"

definition unfulfillable :: "sched_env \<Rightarrow> SchedulerConfig \<Rightarrow> Engine \<Rightarrow> TaskView \<Rightarrow> Placement \<Rightarrow> sched_reason option" where
  "unfulfillable env cfg en v p =
     (if \<not> sc_fail_unfulfillable_tasks cfg then None
      else if tv_requires_gpu v \<and> \<not> en_any_gpu_worker en then Some LacksGpuWorkers
      else if nobody_has_features en v then Some (LacksFeatures (feature_names (tv_required_features v)))
      else if nobody_matches env en p then Some (NoPlacementMatch p)
      else None)"

definition find_candidates ::
  "sched_env \<Rightarrow> SchedulerConfig \<Rightarrow> Engine \<Rightarrow> TaskView \<Rightarrow> nat list \<times> nat list" where
  "find_candidates env cfg en v =
     (case candidates env cfg en v (tv_avoid v) of
        (cands, full) \<Rightarrow>
          if cands = [] \<and> tv_avoid v \<noteq> [] then candidates env cfg en v [] else (cands, full))"

definition place :: "sched_env \<Rightarrow> SchedulerConfig \<Rightarrow> TaskView \<Rightarrow> Engine \<Rightarrow> Verdict \<times> Engine" where
  "place env cfg v en =
     (case tv_placement v of
        Inl err \<Rightarrow> (Unfulfillable (InvalidPlacement err), en)
      | Inr p \<Rightarrow>
          (case unfulfillable env cfg en v p of
             Some reason \<Rightarrow> (Unfulfillable reason, en)
           | None \<Rightarrow>
               let shape = shape_of v p; reason = skip_reason env en v p
               in if shape \<in> set (en_dead en) then (Skip reason, en)
                  else case find_candidates env cfg en v of
                         (cands, full) \<Rightarrow>
                           if cands = [] then
                             let en1 = hold_back full (weight_of v) en
                             in (Skip reason, en1\<lparr>en_dead := hs_insert shape (en_dead en1)\<rparr>)
                           else case rank env cfg en v cands of
                                  (chosen, en1) \<Rightarrow> (Placed chosen, take_seat v chosen en1)))"

section \<open>Matchmaking\<close>

definition assignment_on :: "Task \<Rightarrow> Seat \<Rightarrow> ScheduleAssignment" where
  "assignment_on t s =
     \<lparr>sa_task_id = t_id t, sa_worker_id = wi_worker_id (st_worker s),
      sa_session_id = wi_session_id (st_worker s), sa_task = t\<rparr>"

fun match_tasks ::
  "sched_env \<Rightarrow> SchedulerConfig \<Rightarrow> (Task \<times> TaskView) list \<Rightarrow> Engine \<Rightarrow> ScheduleReport \<Rightarrow> ScheduleReport" where
  "match_tasks env cfg [] en rep = rep"
| "match_tasks env cfg ((t, v) # rest) en rep =
     (case place env cfg v en of
        (Placed i, en') \<Rightarrow> match_tasks env cfg rest en'
          (rep\<lparr>sr_assignments := sr_assignments rep @ [assignment_on t (en_seats en' ! i)]\<rparr>)
      | (Skip reason, en') \<Rightarrow> match_tasks env cfg rest en' (rep\<lparr>sr_skipped := sr_skipped rep @ [(t_id t, reason)]\<rparr>)
      | (Unfulfillable reason, en') \<Rightarrow>
          match_tasks env cfg rest en' (rep\<lparr>sr_unfulfillable := sr_unfulfillable rep @ [(t_id t, reason)]\<rparr>))"

definition matchmake_with_avoid ::
  "sched_env \<Rightarrow> SchedulerConfig \<Rightarrow> Task list \<Rightarrow> WorkerInfo list \<Rightarrow> (uuid, uuid list) hmap \<Rightarrow> ScheduleReport" where
  "matchmake_with_avoid env cfg ts ws avoid =
     (if ts = [] \<or> ws = []
      then report_default\<lparr>sr_skipped := map (\<lambda>t. (t_id t, NoEligibleWorkers)) ts\<rparr>
      else
        let views = map (\<lambda>t. case hm_get avoid (t_id t) of
                              Some avoided \<Rightarrow> (view_of t)\<lparr>tv_avoid := avoided\<rparr> | None \<Rightarrow> view_of t) ts;
            gpu_waiting = list_ex tv_requires_gpu views
        in match_tasks env cfg (zip ts views) (engine_new env cfg ws None gpu_waiting False) report_default)"

definition matchmake ::
  "sched_env \<Rightarrow> SchedulerConfig \<Rightarrow> Task list \<Rightarrow> WorkerInfo list \<Rightarrow> ScheduleReport" where
  "matchmake env cfg ts ws = matchmake_with_avoid env cfg ts ws []"

section \<open>GPU demand\<close>

record GpuDemand =
  gd_last_seen :: "nat option"
  gd_last_probe :: "nat option"
  gd_last_waiting :: bool

definition demand_default :: GpuDemand where
  "demand_default = \<lparr>gd_last_seen = None, gd_last_probe = None, gd_last_waiting = False\<rparr>"

definition probe_finds :: "sched_env \<Rightarrow> WorkerInfo list \<Rightarrow> TaskQueueInner \<Rightarrow> bool" where
  "probe_finds env gpu_workers q =
     any_queued q (\<lambda>t. (gpu_required (t_requirements t) \<or> spec_requires_gpu (t_spec t))
       \<and> (case task_placement t of
            Inr p \<Rightarrow> list_ex (\<lambda>w. statically_fits (t_requirements t) w \<and> placement_admits env p w) gpu_workers
          | Inl _ \<Rightarrow> False))"

definition gpu_demand ::
  "sched_env \<Rightarrow> SchedulerConfig \<Rightarrow> nat \<Rightarrow> WorkerInfo list \<Rightarrow> TaskQueueInner \<Rightarrow> GpuDemand
     \<Rightarrow> (bool \<times> bool) \<times> GpuDemand" where
  "gpu_demand env cfg now ws q d =
     (if \<not> sc_preserve_gpu_for_gpu_tasks cfg then ((False, False), d)
      else
        let gpu_workers = filter (\<lambda>w. can_execute_gpu (wi_capabilities w)) ws
        in if gpu_workers = [] then ((False, False), d)
           else
             let probe_due = (case gd_last_probe d of
                                Some probe \<Rightarrow> GPU_PROBE_INTERVAL \<le> now - probe | None \<Rightarrow> True);
                 found = probe_finds env gpu_workers q;
                 waiting = (if probe_due then found else gd_last_waiting d);
                 d' = (if probe_due
                       then \<lparr>gd_last_seen = (if found then Some now else gd_last_seen d),
                             gd_last_probe = Some now, gd_last_waiting = found\<rparr>
                       else d);
                 recent = (case gd_last_seen d' of
                             Some seen \<Rightarrow> now - seen < sc_gpu_demand_window cfg | None \<Rightarrow> False)
             in ((waiting, recent \<or> waiting), d'))"

definition note_gpu_demand :: "nat \<Rightarrow> GpuDemand \<Rightarrow> GpuDemand" where
  "note_gpu_demand now d = d\<lparr>gd_last_seen := Some now\<rparr>"

end
