(* ===== verification/Scheduler_Pass.thy ===== *)
theory Scheduler_Pass
  imports Scheduler
begin

text \<open>
  One pass of the scheduler (\<open>schedule_batch\<close> of \<open>crates/master/src/scheduler.rs\<close>): the walk over
  the queue in pages, and the commit of the placements.  The pass releases the locks between its
  reads, so what it reads is an input: the workers, the queue whose books give the loads, the queue
  that is probed for GPU work, the queue each page is read from, and the clock (one reading per
  page).  Dispatch of the assignments is modelled with the master, where it interleaves with the
  other handlers.
\<close>

record pass_input =
  pi_workers :: "WorkerInfo list"
  pi_books :: TaskQueueInner
  pi_probe :: TaskQueueInner
  pi_page :: "nat \<Rightarrow> TaskQueueInner"
  pi_now :: nat
  pi_clock :: "nat \<Rightarrow> nat"

record scheduler_state =
  ss_gpu_demand :: GpuDemand
  ss_rr_cursor :: nat

definition scheduler_new :: scheduler_state where
  "scheduler_new = \<lparr>ss_gpu_demand = demand_default, ss_rr_cursor = 0\<rparr>"

record walk =
  wk_engine :: Engine
  wk_report :: ScheduleReport
  wk_placements :: "(uuid \<times> nat) list"
  wk_demand :: GpuDemand

definition placeable_gpu_view :: "sched_env \<Rightarrow> WorkerInfo list \<Rightarrow> TaskView \<Rightarrow> bool" where
  "placeable_gpu_view env ws v \<longleftrightarrow>
     tv_requires_gpu v \<and> list_ex (\<lambda>w. can_execute_gpu (wi_capabilities w) \<and> view_fits env v w) ws"

definition note_page ::
  "sched_env \<Rightarrow> SchedulerConfig \<Rightarrow> nat \<Rightarrow> WorkerInfo list \<Rightarrow> TaskView list \<Rightarrow> walk \<Rightarrow> walk" where
  "note_page env cfg now ws views wk =
     (if \<not> en_gpu_waiting (wk_engine wk) \<and> sc_preserve_gpu_for_gpu_tasks cfg
         \<and> list_ex (placeable_gpu_view env ws) views
      then wk\<lparr>wk_engine := (wk_engine wk)\<lparr>en_gpu_waiting := True, en_gpu_recent := True\<rparr>,
              wk_demand := note_gpu_demand now (wk_demand wk)\<rparr>
      else wk)"

definition note_placed :: "nat \<Rightarrow> TaskView \<Rightarrow> nat \<Rightarrow> Engine \<Rightarrow> walk \<Rightarrow> walk" where
  "note_placed now v i en wk =
     wk\<lparr>wk_engine := en, wk_placements := wk_placements wk @ [(tv_task_id v, i)],
        wk_demand := (if tv_requires_gpu v then note_gpu_demand now (wk_demand wk) else wk_demand wk)\<rparr>"

definition note_skipped :: "nat \<Rightarrow> TaskView \<Rightarrow> ScheduleSkipReason \<Rightarrow> Engine \<Rightarrow> walk \<Rightarrow> walk" where
  "note_skipped max_batch v reason en wk =
     (let rep = wk_report wk
      in wk\<lparr>wk_engine := en,
            wk_report := (if length (sr_skipped rep) < max_batch
                          then rep\<lparr>sr_skipped := sr_skipped rep @ [(tv_task_id v, reason)]\<rparr> else rep)\<rparr>)"

definition note_unfulfillable :: "TaskView \<Rightarrow> sched_reason \<Rightarrow> Engine \<Rightarrow> walk \<Rightarrow> walk" where
  "note_unfulfillable v reason en wk =
     (let rep = wk_report wk
      in wk\<lparr>wk_engine := en,
            wk_report := rep\<lparr>sr_unfulfillable := sr_unfulfillable rep @ [(tv_task_id v, reason)]\<rparr>\<rparr>)"

text \<open>The views of one page; the flag says that the walk ends here.\<close>

fun place_views ::
  "sched_env \<Rightarrow> SchedulerConfig \<Rightarrow> nat \<Rightarrow> nat \<Rightarrow> TaskView list \<Rightarrow> walk \<Rightarrow> bool \<times> walk" where
  "place_views env cfg max_batch now [] wk = (False, wk)"
| "place_views env cfg max_batch now (v # vs) wk =
     (case place env cfg v (wk_engine wk) of
        (Placed i, en) \<Rightarrow>
          let wk' = note_placed now v i en wk
          in if max_batch \<le> length (wk_placements wk') \<or> en_free_slots en = 0 then (True, wk')
             else place_views env cfg max_batch now vs wk'
      | (Skip reason, en) \<Rightarrow>
          let wk' = note_skipped max_batch v reason en wk
          in if en_free_slots en = 0 then (True, wk') else place_views env cfg max_batch now vs wk'
      | (Unfulfillable reason, en) \<Rightarrow>
          place_views env cfg max_batch now vs (note_unfulfillable v reason en wk))"

lemma ready_views_loop_full:
  assumes "ready_views_loop q page views ks = (vs, Some k)"
  shows "page \<le> length vs"
  using assms by (induction q page views ks rule: ready_views_loop.induct) (auto simp: Let_def split: option.splits if_splits)

lemma ready_views_full: "ready_views q after page = (vs, Some k) \<Longrightarrow> page \<le> length vs"
  by (auto simp: ready_views_def dest: ready_views_loop_full)

function scan ::
  "sched_env \<Rightarrow> SchedulerConfig \<Rightarrow> nat \<Rightarrow> pass_input \<Rightarrow> WorkerInfo list \<Rightarrow> nat
     \<Rightarrow> nat \<Rightarrow> QueueOrderKey option \<Rightarrow> nat \<Rightarrow> walk \<Rightarrow> walk" where
  "scan env cfg max_batch inp ws scan_budget page cursor scanned wk =
     (let page_limit = min SCAN_PAGE (scan_budget - scanned)
      in if page_limit = 0 then wk
         else case ready_views (pi_page inp page) cursor page_limit of
                (views, nxt) \<Rightarrow>
                  (case place_views env cfg max_batch (pi_clock inp page) views
                          (note_page env cfg (pi_clock inp page) ws views wk) of
                     (stop, wk') \<Rightarrow>
                       if stop then wk'
                       else case nxt of
                              Some key \<Rightarrow> scan env cfg max_batch inp ws scan_budget (page + 1) (Some key)
                                            (scanned + length views) wk'
                            | None \<Rightarrow> wk'))"
  by pat_completeness auto
termination
  by (relation "measure (\<lambda>(env, cfg, max_batch, inp, ws, scan_budget, page, cursor, scanned, wk). scan_budget - scanned)")
     (auto simp: SCAN_PAGE_def dest!: ready_views_full [OF sym])

declare scan.simps [simp del]

definition start_walk ::
  "sched_env \<Rightarrow> SchedulerConfig \<Rightarrow> pass_input \<Rightarrow> WorkerInfo list \<Rightarrow> scheduler_state \<Rightarrow> walk" where
  "start_walk env cfg inp ws ss =
     (case gpu_demand env cfg (pi_now inp) ws (pi_probe inp) (ss_gpu_demand ss) of
        ((waiting, recent), d) \<Rightarrow>
          \<lparr>wk_engine = (engine_new env cfg ws (Some (assigned_loads (pi_books inp))) waiting recent)
                         \<lparr>en_rr_cursor := ss_rr_cursor ss\<rparr>,
           wk_report = report_default, wk_placements = [], wk_demand = d\<rparr>)"

definition by_worker_id :: "WorkerInfo list \<Rightarrow> WorkerInfo list" where
  "by_worker_id ws = sort_by (\<lambda>a b. cmp (wi_worker_id a) (wi_worker_id b)) ws"

definition walk_queue ::
  "sched_env \<Rightarrow> SchedulerConfig \<Rightarrow> nat \<Rightarrow> pass_input \<Rightarrow> scheduler_state \<Rightarrow> walk" where
  "walk_queue env cfg max_batch inp ss =
     (let ws = by_worker_id (pi_workers inp); wk = start_walk env cfg inp ws ss
      in if 0 < en_free_slots (wk_engine wk) \<and> 0 < max_batch
         then scan env cfg max_batch inp ws (max (sc_max_scan_per_pass cfg) 1) 0 None 0 wk
         else wk)"

section \<open>Commit\<close>

definition placement_triple :: "Engine \<Rightarrow> uuid \<times> nat \<Rightarrow> uuid \<times> uuid \<times> nat" where
  "placement_triple en p =
     (let w = st_worker (en_seats en ! snd p) in (fst p, wi_worker_id w, wi_session_id w))"

fun collect_assignments ::
  "(uuid \<times> uuid \<times> nat) list \<Rightarrow> (uuid, Task) hmap \<Rightarrow> ScheduleAssignment list" where
  "collect_assignments [] scheduled = []"
| "collect_assignments ((tid, w, s) # rest) scheduled =
     (case hm_get scheduled tid of
        Some t \<Rightarrow> \<lparr>sa_task_id = tid, sa_worker_id = w, sa_session_id = s, sa_task = t\<rparr>
                    # collect_assignments rest (hm_del tid scheduled)
      | None \<Rightarrow> collect_assignments rest scheduled)"

definition commit_walk ::
  "call_env \<Rightarrow> walk \<Rightarrow> TaskQueueInner \<Rightarrow> ScheduleReport \<times> TaskQueueInner" where
  "commit_walk cenv wk q =
     (if wk_placements wk = [] then (wk_report wk, q)
      else
        let triples = map (placement_triple (wk_engine wk)) (wk_placements wk)
        in case schedule_tasks_batch_in_sessions cenv triples q of
             (rows, q') \<Rightarrow>
               let scheduled = foldl (\<lambda>m (tid, _, t). hm_put tid t m) [] rows
               in ((wk_report wk)\<lparr>sr_assignments := sr_assignments (wk_report wk)
                      @ collect_assignments triples scheduled\<rparr>, q'))"

text \<open>The pass after the delayed retries were advanced, up to the dispatch of its assignments; \<open>q\<close>
  is the queue at the moment of the commit.\<close>

definition schedule_batch ::
  "sched_env \<Rightarrow> SchedulerConfig \<Rightarrow> call_env \<Rightarrow> nat \<Rightarrow> pass_input \<Rightarrow> scheduler_state \<Rightarrow> TaskQueueInner
     \<Rightarrow> ScheduleReport \<times> scheduler_state \<times> TaskQueueInner" where
  "schedule_batch env cfg cenv max_batch inp ss q =
     (if pi_workers inp = []
      then (report_default\<lparr>sr_skipped :=
              map (\<lambda>tid. (tid, NoEligibleWorkers)) (ready_task_ids (pi_books inp) max_batch)\<rparr>, ss, q)
      else
        let wk = walk_queue env cfg max_batch inp ss
        in case commit_walk cenv wk q of
             (rep, q') \<Rightarrow> (rep, \<lparr>ss_gpu_demand = wk_demand wk, ss_rr_cursor = en_rr_cursor (wk_engine wk)\<rparr>, q'))"

definition schedule_once ::
  "sched_env \<Rightarrow> SchedulerConfig \<Rightarrow> call_env \<Rightarrow> pass_input \<Rightarrow> scheduler_state \<Rightarrow> TaskQueueInner
     \<Rightarrow> ScheduleReport \<times> scheduler_state \<times> TaskQueueInner" where
  "schedule_once env cfg cenv inp ss q = schedule_batch env cfg cenv (sc_max_batch_size cfg) inp ss q"

end
