(* ===== verification/Scheduler_Inv.thy ===== *)
theory Scheduler_Inv
  imports Scheduler_Pass Queue_System
begin

text \<open>
  The invariant of the placement engine during a pass: the capacity of every seat is respected, the
  count of free slots is exact, and a shape in the cache of dead shapes really has no seat left.
  It is kept by every placement and by the late discovery of GPU work.
\<close>

section \<open>When a seat is available\<close>

definition gpu_spare :: "SchedulerConfig \<Rightarrow> Engine \<Rightarrow> TaskView \<Rightarrow> Seat \<Rightarrow> bool" where
  "gpu_spare cfg en v s \<longleftrightarrow>
     tv_requires_gpu v \<or> \<not> sc_preserve_gpu_for_gpu_tasks cfg \<or> \<not> (en_gpu_waiting en \<or> en_gpu_recent en)
     \<or> \<not> seat_is_gpu s \<or> leaves_gpu_reserve cfg v s"

definition may_take :: "sched_env \<Rightarrow> SchedulerConfig \<Rightarrow> Engine \<Rightarrow> TaskView \<Rightarrow> uuid list \<Rightarrow> nat \<Rightarrow> bool" where
  "may_take env cfg en v avoided i \<longleftrightarrow>
     i < length (en_seats en) \<and> \<not> en_reserved en ! i
     \<and> seat_admits env cfg v avoided (en_seats en ! i)
     \<and> \<not> saturated v (en_seats en ! i) \<and> gpu_spare cfg en v (en_seats en ! i)"

lemma open_seats_iff:
  "i \<in> set (open_seats env cfg en v avoided) \<longleftrightarrow>
     i < length (en_seats en) \<and> \<not> en_reserved en ! i \<and> seat_admits env cfg v avoided (en_seats en ! i)"
  by (auto simp: open_seats_def)

lemma preserve_gpu_subset: "set (preserve_gpu cfg en v found) \<subseteq> set found"
  by (auto simp: preserve_gpu_def Let_def)

lemma preserve_gpu_spare: "i \<in> set (preserve_gpu cfg en v found) \<Longrightarrow> gpu_spare cfg en v (en_seats en ! i)"
  by (auto simp: preserve_gpu_def gpu_spare_def Let_def split: if_splits)

lemma preserve_gpu_Nil_iff:
  "preserve_gpu cfg en v found = [] \<longleftrightarrow> (\<forall>i\<in>set found. \<not> gpu_spare cfg en v (en_seats en ! i))"
  by (auto simp: preserve_gpu_def gpu_spare_def Let_def filter_empty_conv list_ex_iff)

lemma prefer_real_gpu_subset: "set (prefer_real_gpu en v found) \<subseteq> set found"
  by (auto simp: prefer_real_gpu_def)

lemma prefer_real_gpu_Nil_iff: "prefer_real_gpu en v found = [] \<longleftrightarrow> found = []"
  by (auto simp: prefer_real_gpu_def filter_empty_conv list_ex_iff)

lemma candidates_may_take:
  assumes "candidates env cfg en v avoided = (cands, full)" and "i \<in> set cands"
  shows "may_take env cfg en v avoided i"
proof -
  let ?found = "filter (\<lambda>i. \<not> saturated v (en_seats en ! i)) (open_seats env cfg en v avoided)"
  have "i \<in> set (preserve_gpu cfg en v ?found)"
    using assms prefer_real_gpu_subset by (fastforce simp: candidates_def Let_def)
  then show ?thesis
    using preserve_gpu_subset [of cfg en v ?found] preserve_gpu_spare [of i cfg en v ?found]
    by (auto simp: may_take_def open_seats_iff)
qed

lemma candidates_Nil_iff:
  "fst (candidates env cfg en v avoided) = [] \<longleftrightarrow> (\<forall>i. \<not> may_take env cfg en v avoided i)"
  by (auto simp: candidates_def Let_def prefer_real_gpu_Nil_iff preserve_gpu_Nil_iff may_take_def open_seats_iff)

lemma candidates_full:
  assumes "candidates env cfg en v avoided = (cands, full)" and "i \<in> set full"
  shows "i < length (en_seats en)" "\<not> en_reserved en ! i" "wi_status (st_worker (en_seats en ! i)) \<noteq> Disconnected"
    "seat_admits env cfg v avoided (en_seats en ! i)" "saturated v (en_seats en ! i)"
  using assms by (auto simp: candidates_def Let_def open_seats_iff seat_admits_def)

lemma may_take_avoid: "may_take env cfg en v avoided i \<Longrightarrow> may_take env cfg en v [] i"
  by (auto simp: may_take_def seat_admits_def Let_def)

lemma find_candidates_cases:
  assumes "find_candidates env cfg en v = (cands, full)"
  obtains avoided where "candidates env cfg en v avoided = (cands, full)"
    and "avoided = tv_avoid v \<or> avoided = [] \<and> (\<forall>i. \<not> may_take env cfg en v (tv_avoid v) i)"
proof (cases "fst (candidates env cfg en v (tv_avoid v)) = [] \<and> tv_avoid v \<noteq> []")
  case True
  then have "candidates env cfg en v [] = (cands, full)"
    using assms by (auto simp: find_candidates_def split: prod.splits)
  then show ?thesis using that [of "[]"] True by (auto simp: candidates_Nil_iff)
next
  case False
  then have "candidates env cfg en v (tv_avoid v) = (cands, full)"
    using assms by (auto simp: find_candidates_def split: prod.splits if_splits)
  then show ?thesis using that by blast
qed

lemma find_candidates_Nil_iff:
  "fst (find_candidates env cfg en v) = [] \<longleftrightarrow> (\<forall>i. \<not> may_take env cfg en v [] i)"
proof (cases "fst (candidates env cfg en v (tv_avoid v)) = []")
  case True
  then show ?thesis
    using candidates_Nil_iff [of env cfg en v "[]"] by (auto simp: find_candidates_def split: prod.splits)
next
  case False
  then obtain i where "may_take env cfg en v (tv_avoid v) i" by (auto simp: candidates_Nil_iff)
  then have "may_take env cfg en v [] i" by (rule may_take_avoid)
  then show ?thesis using False by (auto simp: find_candidates_def split: prod.splits)
qed

section \<open>A pass only takes seats away\<close>

text \<open>Two views of one shape are interchangeable.\<close>

lemma may_take_shape:
  assumes "tv_placement v = Inr p" "tv_placement v' = Inr p" "shape_of v p = shape_of v' p"
  shows "may_take env cfg en v avoided i = may_take env cfg en v' avoided i"
proof -
  from assms(3) have eqs: "tv_requires_gpu v = tv_requires_gpu v'" "tv_heavy v = tv_heavy v'"
    "tv_required_features v = tv_required_features v'"
    "cpu_cores (tv_requirements v) = cpu_cores (tv_requirements v')"
    "ram_mb (tv_requirements v) = ram_mb (tv_requirements v')" by (simp_all add: shape_of_def)
  have "mobile_allows v = mobile_allows v'" "tags_allow cfg v = tags_allow cfg v'"
    by (intro ext, simp add: mobile_allows_def tags_allow_def eqs cong: BatteryTier.case_cong ThermalTier.case_cong)+
  then show ?thesis
    by (simp add: may_take_def seat_admits_def view_fits_def statically_fits_def ram_free_def saturated_def
        weight_of_def gpu_spare_def leaves_gpu_reserve_def assms(1,2) eqs Let_def cong: option.case_cong)
qed

definition seat_le :: "Seat \<Rightarrow> Seat \<Rightarrow> bool" where
  "seat_le s s' \<longleftrightarrow>
     st_worker s' = st_worker s \<and> st_max_slots s' = st_max_slots s \<and> st_max_tasks s' = st_max_tasks s
     \<and> st_base s' = st_base s \<and> al_tasks (st_placed s) \<le> al_tasks (st_placed s')
     \<and> al_slots (st_placed s) \<le> al_slots (st_placed s')
     \<and> al_unstarted_ram_mb (st_placed s) \<le> al_unstarted_ram_mb (st_placed s')"

definition engine_le :: "Engine \<Rightarrow> Engine \<Rightarrow> bool" where
  "engine_le en en' \<longleftrightarrow>
     length (en_seats en') = length (en_seats en)
     \<and> (\<forall>i < length (en_seats en). seat_le (en_seats en ! i) (en_seats en' ! i)
          \<and> (en_reserved en ! i \<longrightarrow> en_reserved en' ! i))
     \<and> (en_gpu_waiting en \<longrightarrow> en_gpu_waiting en') \<and> (en_gpu_recent en \<longrightarrow> en_gpu_recent en')
     \<and> en_any_gpu_worker en' = en_any_gpu_worker en"

lemma seat_le_refl [simp]: "seat_le s s"
  by (simp add: seat_le_def)

lemma engine_le_refl [simp]: "engine_le en en"
  by (simp add: engine_le_def)

lemma seat_le_trans: "seat_le a b \<Longrightarrow> seat_le b c \<Longrightarrow> seat_le a c"
  by (auto simp: seat_le_def)

lemma engine_le_trans: "engine_le a b \<Longrightarrow> engine_le b c \<Longrightarrow> engine_le a c"
  by (auto simp: engine_le_def intro: seat_le_trans)

lemma seat_le_admits: "seat_le s s' \<Longrightarrow> seat_admits env cfg v avoided s' \<Longrightarrow> seat_admits env cfg v avoided s"
  by (auto simp: seat_le_def seat_admits_def ram_free_def Let_def)

lemma seat_le_saturated: "seat_le s s' \<Longrightarrow> saturated v s \<Longrightarrow> saturated v s'"
  by (auto simp: seat_le_def saturated_def seat_load_def used_slots_def)

lemma seat_le_reserve:
  assumes le: "seat_le s s'" and res: "leaves_gpu_reserve cfg v s'"
  shows "leaves_gpu_reserve cfg v s"
proof -
  have "st_max_slots s - (used_slots s' + weight_of v) \<le> st_max_slots s - (used_slots s + weight_of v)"
    "st_max_tasks s - (seat_load s' + 1) \<le> st_max_tasks s - (seat_load s + 1)"
    using le by (auto simp: seat_le_def seat_load_def used_slots_def)
  moreover have "st_max_slots s' = st_max_slots s" "st_max_tasks s' = st_max_tasks s"
    using le by (simp_all add: seat_le_def)
  ultimately show ?thesis
    using res unfolding leaves_gpu_reserve_def Let_def by (auto elim!: order_trans simp del: One_nat_def)
qed

lemma engine_le_may_take:
  assumes le: "engine_le en en'" and take: "may_take env cfg en' v avoided i"
  shows "may_take env cfg en v avoided i"
proof -
  have i: "i < length (en_seats en)" using le take by (simp add: engine_le_def may_take_def)
  then have s: "seat_le (en_seats en ! i) (en_seats en' ! i)" "\<not> en_reserved en ! i"
    using le take by (auto simp: engine_le_def may_take_def)
  have "gpu_spare cfg en v (en_seats en ! i)"
    using le take seat_le_reserve [OF s(1)] s(1)
    by (auto simp: engine_le_def may_take_def gpu_spare_def seat_is_gpu_def seat_le_def)
  then show ?thesis
    using i s take seat_le_admits [OF s(1)] seat_le_saturated [OF s(1)] by (auto simp: may_take_def)
qed

section \<open>The invariant\<close>

definition seat_ok :: "Seat \<Rightarrow> bool" where
  "seat_ok s \<longleftrightarrow>
     (st_max_slots s = 0 \<longrightarrow> st_max_tasks s = 0)
     \<and> al_tasks (st_placed s) \<le> al_slots (st_placed s)
     \<and> (0 < al_tasks (st_placed s) \<longrightarrow>
          seat_load s \<le> st_max_tasks s
          \<and> (used_slots s \<le> st_max_slots s \<or> al_slots (st_base s) = 0 \<and> al_tasks (st_placed s) = 1))"

definition seat_free :: "Engine \<Rightarrow> nat \<Rightarrow> nat" where
  "seat_free en i =
     (if en_reserved en ! i \<or> wi_status (st_worker (en_seats en ! i)) = Disconnected then 0
      else remaining_slots (en_seats en ! i))"

definition free_total :: "Engine \<Rightarrow> nat" where
  "free_total en = (\<Sum>i<length (en_seats en). seat_free en i)"

definition dead_ok :: "sched_env \<Rightarrow> SchedulerConfig \<Rightarrow> Engine \<Rightarrow> bool" where
  "dead_ok env cfg en \<longleftrightarrow>
     (\<forall>v p i. tv_placement v = Inr p \<longrightarrow> shape_of v p \<in> set (en_dead en) \<longrightarrow> \<not> may_take env cfg en v [] i)"

definition engine_inv :: "sched_env \<Rightarrow> SchedulerConfig \<Rightarrow> Engine \<Rightarrow> bool" where
  "engine_inv env cfg en \<longleftrightarrow>
     length (en_reserved en) = length (en_seats en) \<and> (\<forall>s\<in>set (en_seats en). seat_ok s)
     \<and> en_free_slots en = free_total en \<and> dead_ok env cfg en"

lemma dead_ok_le:
  assumes "dead_ok env cfg en" "engine_le en en'" "set (en_dead en') = set (en_dead en)"
  shows "dead_ok env cfg en'"
  using assms(1,3) engine_le_may_take [OF assms(2)] unfolding dead_ok_def by metis

lemma seat_take_le: "seat_le s (seat_take v s)"
  by (simp add: seat_le_def seat_take_def)

lemma take_seat_le: "i < length (en_seats en) \<Longrightarrow> engine_le en (take_seat v i en)"
  by (auto simp: engine_le_def take_seat_def nth_list_update seat_take_le Let_def)

lemma seat_take_ok:
  assumes "seat_ok s" "\<not> saturated v s"
  shows "seat_ok (seat_take v s)"
  using assms by (auto simp: seat_ok_def saturated_def seat_take_def seat_load_def used_slots_def weight_of_def)

lemma remaining_le: "seat_le s s' \<Longrightarrow> remaining_slots s' \<le> remaining_slots s"
  by (auto simp: seat_le_def remaining_slots_def seat_load_def used_slots_def)

text \<open>Changing one term of a sum to a smaller one.\<close>

lemma sum_change:
  fixes f g :: "nat \<Rightarrow> nat"
  assumes "i < n" "\<And>j. j < n \<Longrightarrow> j \<noteq> i \<Longrightarrow> g j = f j" "g i \<le> f i"
  shows "(\<Sum>j<n. g j) = (\<Sum>j<n. f j) - (f i - g i)"
proof -
  have "(\<Sum>j<n. g j) = g i + (\<Sum>j\<in>{..<n} - {i}. g j)" using assms(1) by (simp add: sum.remove)
  also have "(\<Sum>j\<in>{..<n} - {i}. g j) = (\<Sum>j\<in>{..<n} - {i}. f j)" by (rule sum.cong) (auto simp: assms(2))
  finally show ?thesis using assms(1,3) by (simp add: sum.remove)
qed

lemma take_seat_free:
  assumes i: "i < length (en_seats en)" "\<not> en_reserved en ! i"
    and live: "wi_status (st_worker (en_seats en ! i)) \<noteq> Disconnected"
    and free: "en_free_slots en = free_total en"
  shows "en_free_slots (take_seat v i en) = free_total (take_seat v i en)"
proof -
  let ?en' = "take_seat v i en" and ?s = "en_seats en ! i"
  have "free_total ?en' = free_total en - (seat_free en i - seat_free ?en' i)"
    unfolding free_total_def using i(1) live remaining_le [OF seat_take_le, of v ?s]
    by (subst sum_change [where f = "seat_free en"])
       (auto simp: take_seat_def Let_def seat_free_def nth_list_update seat_take_def)
  moreover have "seat_free en i = remaining_slots ?s" "seat_free ?en' i = remaining_slots (seat_take v ?s)"
    using i live by (simp_all add: seat_free_def take_seat_def Let_def) (simp add: seat_take_def)
  ultimately show ?thesis by (simp add: take_seat_def Let_def free)
qed

lemma take_seat_inv:
  assumes inv: "engine_inv env cfg en" and take: "may_take env cfg en v avoided i"
  shows "engine_inv env cfg (take_seat v i en)"
proof -
  have i: "i < length (en_seats en)" "\<not> en_reserved en ! i" "\<not> saturated v (en_seats en ! i)"
    "wi_status (st_worker (en_seats en ! i)) \<noteq> Disconnected"
    using take by (auto simp: may_take_def seat_admits_def Let_def)
  have "\<forall>s\<in>set (en_seats (take_seat v i en)). seat_ok s"
    using inv seat_take_ok [OF _ i(3)] i(1)
    by (auto simp: engine_inv_def take_seat_def Let_def dest!: set_update_subset_insert [THEN subsetD])
  moreover have "dead_ok env cfg (take_seat v i en)"
    using inv by (intro dead_ok_le [OF _ take_seat_le [OF i(1)]]) (auto simp: engine_inv_def take_seat_def Let_def)
  moreover have "length (en_reserved (take_seat v i en)) = length (en_seats (take_seat v i en))"
    using inv by (simp add: engine_inv_def take_seat_def Let_def)
  ultimately show ?thesis
    using take_seat_free [OF i(1,2,4)] inv by (auto simp: engine_inv_def)
qed

section \<open>Every step of a pass keeps it\<close>

lemma list_update_True: "i < length xs \<Longrightarrow> xs ! i \<Longrightarrow> xs[a := True] ! i"
  by (cases "a = i") simp_all

lemma hold_back_le: "length (en_reserved en) = length (en_seats en) \<Longrightarrow> engine_le en (hold_back full weight en)"
  by (cases "sort_by (\<lambda>a b. cmp (slots_to_free weight (en_seats en ! a), a) (slots_to_free weight (en_seats en ! b), b)) full")
     (auto simp: hold_back_def engine_le_def list_update_True)

lemma hold_back_frame [simp]:
  "en_seats (hold_back full weight en) = en_seats en" "en_dead (hold_back full weight en) = en_dead en"
  "length (en_reserved (hold_back full weight en)) = length (en_reserved en)"
  by (auto simp: hold_back_def split: list.splits)

lemma hold_back_free:
  assumes len: "length (en_reserved en) = length (en_seats en)" and free: "en_free_slots en = free_total en"
    and full: "\<And>i. i \<in> set full \<Longrightarrow> i < length (en_seats en) \<and> \<not> en_reserved en ! i
                 \<and> wi_status (st_worker (en_seats en ! i)) \<noteq> Disconnected"
  shows "en_free_slots (hold_back full weight en) = free_total (hold_back full weight en)"
proof -
  let ?order = "\<lambda>a b. cmp (slots_to_free weight (en_seats en ! a), a) (slots_to_free weight (en_seats en ! b), b)"
  show ?thesis
  proof (cases "sort_by ?order full")
    case Nil
    then show ?thesis by (simp add: hold_back_def free)
  next
    case (Cons i rest)
    let ?en' = "hold_back full weight en"
    have en': "?en' = en\<lparr>en_reserved := (en_reserved en)[i := True],
        en_free_slots := en_free_slots en - remaining_slots (en_seats en ! i)\<rparr>"
      using Cons by (simp add: hold_back_def)
    have "i \<in> set full" using Cons sort_by_set [of ?order full] by auto
    then have i: "i < length (en_seats en)" "\<not> en_reserved en ! i"
      "wi_status (st_worker (en_seats en ! i)) \<noteq> Disconnected" using full by blast+
    have "free_total ?en' = free_total en - (seat_free en i - seat_free ?en' i)"
      unfolding free_total_def hold_back_frame using i(1) len
      by (subst sum_change [where f = "seat_free en"]) (auto simp: en' seat_free_def nth_list_update)
    then show ?thesis using i len free by (simp add: en' seat_free_def)
  qed
qed

lemma hold_back_inv:
  assumes inv: "engine_inv env cfg en" and full: "find_candidates env cfg en v = (cands, full)"
  shows "engine_inv env cfg (hold_back full weight en)"
proof -
  obtain avoided where c: "candidates env cfg en v avoided = (cands, full)"
    using find_candidates_cases [OF full] by blast
  have len: "length (en_reserved en) = length (en_seats en)" and free: "en_free_slots en = free_total en"
    using inv by (auto simp: engine_inv_def)
  have "en_free_slots (hold_back full weight en) = free_total (hold_back full weight en)"
    using candidates_full(1-3) [OF c] by (intro hold_back_free [OF len free]) blast
  moreover have "dead_ok env cfg (hold_back full weight en)"
    using inv by (intro dead_ok_le [OF _ hold_back_le [OF len]]) (auto simp: engine_inv_def)
  ultimately show ?thesis using inv by (simp add: engine_inv_def)
qed

lemma free_total_frame [simp]:
  "free_total (en\<lparr>en_dead := d\<rparr>) = free_total en" "free_total (en\<lparr>en_rr_cursor := c\<rparr>) = free_total en"
  "free_total (en\<lparr>en_gpu_waiting := w, en_gpu_recent := r\<rparr>) = free_total en"
  by (simp_all add: free_total_def seat_free_def cong: if_cong)

lemma may_take_frame [simp]:
  "may_take env cfg (en\<lparr>en_dead := d\<rparr>) v avoided i = may_take env cfg en v avoided i"
  "may_take env cfg (en\<lparr>en_rr_cursor := c\<rparr>) v avoided i = may_take env cfg en v avoided i"
  by (simp_all add: may_take_def gpu_spare_def)

lemma mark_dead_inv:
  assumes inv: "engine_inv env cfg en" and p: "tv_placement v = Inr p"
    and none: "\<And>i. \<not> may_take env cfg en v [] i"
  shows "engine_inv env cfg (en\<lparr>en_dead := hs_insert (shape_of v p) (en_dead en)\<rparr>)"
proof -
  have "\<not> may_take env cfg en v' [] i" if "tv_placement v' = Inr p'"
    "shape_of v' p' \<in> insert (shape_of v p) (set (en_dead en))" for v' p' i
  proof (cases "shape_of v' p' = shape_of v p")
    case True
    then have "p' = p" by (simp add: shape_of_def)
    then show ?thesis using none that True may_take_shape [of v' p v env cfg en "[]" i] p by auto
  next
    case False
    then show ?thesis using inv that by (auto simp: engine_inv_def dead_ok_def)
  qed
  then show ?thesis using inv by (auto simp: engine_inv_def dead_ok_def)
qed

lemma rank_cursor: "rank env cfg en v cands = (i, en') \<Longrightarrow> en' = en\<lparr>en_rr_cursor := en_rr_cursor en'\<rparr>"
  by (cases "sc_policy cfg") (auto simp: rank_def Let_def)

lemma nth_mod_mem: "xs \<noteq> [] \<Longrightarrow> xs ! (k mod length xs) \<in> set xs"
  by (intro nth_mem) simp

lemma hd_sort_by_mem: "xs \<noteq> [] \<Longrightarrow> hd (sort_by ord xs) \<in> set xs"
  using hd_in_set [of "sort_by ord xs"] by simp

lemma rank_in:
  assumes "rank env cfg en v cands = (i, en')" "cands \<noteq> []"
  shows "i \<in> set cands"
proof (cases "sc_policy cfg")
  case RoundRobin
  let ?real = "filter (\<lambda>i. seat_is_real_gpu (en_seats en ! i)) cands"
  have "?real \<noteq> [] \<Longrightarrow> ?real ! (en_rr_cursor en mod length ?real) \<in> set cands"
    using nth_mod_mem [of ?real "en_rr_cursor en"] by (simp only: set_filter) blast
  then show ?thesis
    using assms RoundRobin nth_mod_mem [OF assms(2)] by (auto simp: rank_def Let_def split: if_splits)
qed (use assms hd_sort_by_mem [OF assms(2)] in \<open>auto simp: rank_def\<close>)

text \<open>The outcomes of a placement.\<close>

lemma place_cases:
  obtains (refused) reason where "place env cfg v en = (Unfulfillable reason, en)"
  | (cached) p where "tv_placement v = Inr p" "shape_of v p \<in> set (en_dead en)"
      "place env cfg v en = (Skip (skip_reason env en v p), en)"
  | (stuck) p full where "tv_placement v = Inr p" "find_candidates env cfg en v = ([], full)"
      "place env cfg v en = (Skip (skip_reason env en v p), (hold_back full (weight_of v) en)
         \<lparr>en_dead := hs_insert (shape_of v p) (en_dead (hold_back full (weight_of v) en))\<rparr>)"
  | (placed) p cands full i en1 where "tv_placement v = Inr p" "shape_of v p \<notin> set (en_dead en)"
      "find_candidates env cfg en v = (cands, full)" "cands \<noteq> []" "rank env cfg en v cands = (i, en1)"
      "place env cfg v en = (Placed i, take_seat v i en1)"
proof (cases "tv_placement v")
  case (Inl err)
  then show ?thesis by (intro refused) (simp add: place_def)
next
  case (Inr p)
  show ?thesis
  proof (cases "unfulfillable env cfg en v p")
    case (Some reason)
    then show ?thesis by (intro refused) (simp add: place_def Inr)
  next
    case None
    obtain cands full where find: "find_candidates env cfg en v = (cands, full)" by fastforce
    obtain i en1 where rank: "rank env cfg en v cands = (i, en1)" by fastforce
    consider "shape_of v p \<in> set (en_dead en)" | "shape_of v p \<notin> set (en_dead en)" "cands = []"
      | "shape_of v p \<notin> set (en_dead en)" "cands \<noteq> []" by blast
    then show ?thesis
    proof cases
      case 1
      then show ?thesis by (intro cached [OF Inr]) (simp_all add: place_def Inr None Let_def)
    next
      case 2
      then show ?thesis
        using find by (intro stuck [OF Inr]) (simp_all add: place_def Inr None Let_def)
    next
      case 3
      then show ?thesis
        by (intro placed [OF Inr 3(1) find 3(2) rank]) (simp add: place_def Inr None Let_def find rank)
    qed
  qed
qed

lemma place_Placed:
  assumes "place env cfg v en = (Placed i, en')"
  obtains p cands full en1 where "tv_placement v = Inr p" "shape_of v p \<notin> set (en_dead en)"
    "find_candidates env cfg en v = (cands, full)" "cands \<noteq> []" "rank env cfg en v cands = (i, en1)"
    "en' = take_seat v i en1"
proof (cases rule: place_cases [of env cfg v en])
  case (placed p cands full j en1)
  then show ?thesis using assms that [of p cands full en1] by simp
qed (use assms in simp_all)

lemma place_takes:
  assumes "place env cfg v en = (Placed i, en')"
  obtains avoided c where "may_take env cfg en v avoided i"
    "avoided = tv_avoid v \<or> avoided = [] \<and> (\<forall>j. \<not> may_take env cfg en v (tv_avoid v) j)"
    "en' = take_seat v i (en\<lparr>en_rr_cursor := c\<rparr>)"
proof -
  obtain p cands full en1 where find: "find_candidates env cfg en v = (cands, full)" "cands \<noteq> []"
    and rank: "rank env cfg en v cands = (i, en1)" and en': "en' = take_seat v i en1"
    using assms by (rule place_Placed)
  obtain avoided where c: "candidates env cfg en v avoided = (cands, full)"
    and a: "avoided = tv_avoid v \<or> avoided = [] \<and> (\<forall>i. \<not> may_take env cfg en v (tv_avoid v) i)"
    using find(1) by (rule find_candidates_cases)
  show ?thesis
    using that [OF candidates_may_take [OF c rank_in [OF rank find(2)]] a, of "en_rr_cursor en1"]
      rank_cursor [OF rank] en' by simp
qed

lemma rr_cursor_inv [simp]: "engine_inv env cfg (en\<lparr>en_rr_cursor := c\<rparr>) = engine_inv env cfg en"
  by (simp add: engine_inv_def dead_ok_def)

lemma stuck_inv:
  assumes inv: "engine_inv env cfg en" and p: "tv_placement v = Inr p"
    and find: "find_candidates env cfg en v = ([], full)"
    and en': "en' = (hold_back full (weight_of v) en)
      \<lparr>en_dead := hs_insert (shape_of v p) (en_dead (hold_back full (weight_of v) en))\<rparr>"
  shows "engine_inv env cfg en'" and "engine_le en en'"
proof -
  let ?en1 = "hold_back full (weight_of v) en"
  have le: "engine_le en ?en1" using inv by (intro hold_back_le) (simp add: engine_inv_def)
  have none: "\<And>i. \<not> may_take env cfg ?en1 v [] i"
    using find_candidates_Nil_iff [of env cfg en v] engine_le_may_take [OF le, of env cfg v "[]"] find by auto
  show "engine_inv env cfg en'"
    unfolding en' by (rule mark_dead_inv [OF hold_back_inv [OF inv find] p none])
  have "engine_le ?en1 en'" unfolding en' by (simp add: engine_le_def)
  then show "engine_le en en'" by (rule engine_le_trans [OF le])
qed

lemma placed_inv:
  assumes inv: "engine_inv env cfg en" and place: "place env cfg v en = (Placed i, en')"
  shows "engine_inv env cfg en'" and "engine_le en en'"
proof -
  obtain avoided c where take: "may_take env cfg en v avoided i"
    and en': "en' = take_seat v i (en\<lparr>en_rr_cursor := c\<rparr>)"
    using place by (rule place_takes)
  let ?en1 = "en\<lparr>en_rr_cursor := c\<rparr>"
  have take1: "may_take env cfg ?en1 v avoided i" using take by simp
  show "engine_inv env cfg en'"
    unfolding en' using inv by (intro take_seat_inv [OF _ take1]) simp
  have "engine_le ?en1 en'" unfolding en' using take by (intro take_seat_le) (simp add: may_take_def)
  then show "engine_le en en'" by (rule engine_le_trans [rotated]) (simp add: engine_le_def)
qed

lemma place_inv:
  assumes inv: "engine_inv env cfg en" and place: "place env cfg v en = (verdict, en')"
  shows "engine_inv env cfg en'" and "engine_le en en'"
proof -
  have "engine_inv env cfg en' \<and> engine_le en en'"
  proof (cases rule: place_cases [of env cfg v en])
    case (stuck p full)
    then show ?thesis using stuck_inv [OF inv stuck(1,2)] place by simp
  next
    case (placed p cands full i en1)
    then show ?thesis using placed_inv [OF inv placed(6)] place by simp
  qed (use inv place in simp_all)
  then show "engine_inv env cfg en'" "engine_le en en'" by simp_all
qed

lemma gpu_flags_le: "engine_le en (en\<lparr>en_gpu_waiting := True, en_gpu_recent := True\<rparr>)"
  by (simp add: engine_le_def)

lemma gpu_flags_inv:
  assumes "engine_inv env cfg en"
  shows "engine_inv env cfg (en\<lparr>en_gpu_waiting := True, en_gpu_recent := True\<rparr>)"
proof -
  have "dead_ok env cfg en" using assms by (simp add: engine_inv_def)
  then have "dead_ok env cfg (en\<lparr>en_gpu_waiting := True, en_gpu_recent := True\<rparr>)"
    by (rule dead_ok_le [OF _ gpu_flags_le]) simp
  then show ?thesis using assms by (simp add: engine_inv_def)
qed

lemma min_0_iff: "min a b = (0 :: nat) \<longleftrightarrow> a = 0 \<or> b = 0"
  by (auto simp: min_def)

lemma no_slots_no_tasks:
  assumes "effective_max_concurrency env cfg w = 0"
  shows "effective_max_tasks env cfg w = 0"
proof -
  obtain n where "effective_max_concurrency env cfg w = cap_at (sc_max_tasks_per_worker cfg) (max n 1)"
    unfolding effective_max_concurrency_def Let_def by blast
  then have "sc_max_tasks_per_worker cfg = Some 0"
    using assms by (auto simp: cap_at_def min_0_iff split: option.splits)
  then show ?thesis by (simp add: effective_max_tasks_def cap_at_def Let_def)
qed

lemma new_seat_ok: "seat_ok (new_seat env cfg loads w)"
  using no_slots_no_tasks [of env cfg w]
  by (cases "wc_mobile (wi_capabilities w)") (auto simp: seat_ok_def new_seat_def Let_def load_default_def min_0_iff)

lemma engine_new_free:
  "en_free_slots (engine_new env cfg ws loads w r) = free_total (engine_new env cfg ws loads w r)"
proof -
  let ?seats = "map (new_seat env cfg loads) ws"
  let ?free = "\<lambda>s. if wi_status (st_worker s) = Disconnected then 0 else remaining_slots s"
  have "sum_list (map remaining_slots (filter (\<lambda>s. wi_status (st_worker s) \<noteq> Disconnected) ?seats))
      = sum_list (map ?free ?seats)"
    by (induction ws) auto
  also have "\<dots> = (\<Sum>i<length ?seats. ?free (?seats ! i))"
    unfolding sum_list_sum_nth atLeast0LessThan by (rule sum.cong) auto
  also have "\<dots> = free_total (engine_new env cfg ws loads w r)"
    unfolding free_total_def by (rule sum.cong) (auto simp: engine_new_def seat_free_def Let_def)
  finally show ?thesis by (simp add: engine_new_def Let_def)
qed

lemma engine_new_inv: "engine_inv env cfg (engine_new env cfg ws loads w r)"
  unfolding engine_inv_def
proof (intro conjI)
  show "en_free_slots (engine_new env cfg ws loads w r) = free_total (engine_new env cfg ws loads w r)"
    by (rule engine_new_free)
qed (auto simp: dead_ok_def engine_new_def Let_def new_seat_ok)

inductive engine_step :: "sched_env \<Rightarrow> SchedulerConfig \<Rightarrow> Engine \<Rightarrow> Engine \<Rightarrow> bool" for env cfg where
  place: "place env cfg v en = (verdict, en') \<Longrightarrow> engine_step env cfg en en'"
| gpu_seen: "engine_step env cfg en (en\<lparr>en_gpu_waiting := True, en_gpu_recent := True\<rparr>)"

inductive engine_init ::
  "sched_env \<Rightarrow> SchedulerConfig \<Rightarrow> WorkerInfo list \<Rightarrow> (uuid, AssignedLoad) hmap option \<Rightarrow> Engine \<Rightarrow> bool"
  for env cfg ws loads where
  new: "engine_init env cfg ws loads ((engine_new env cfg ws loads w r)\<lparr>en_rr_cursor := c\<rparr>)"

interpretation engine: invariant_system "engine_init env cfg ws loads" "engine_step env cfg" "engine_inv env cfg"
proof
  fix en assume "engine_init env cfg ws loads en"
  then show "engine_inv env cfg en" by cases (simp add: engine_new_inv)
next
  fix en en' assume "engine_step env cfg en en'" "engine_inv env cfg en"
  then show "engine_inv env cfg en'" by cases (auto intro: place_inv(1) gpu_flags_inv)
qed

lemma engine_step_le:
  assumes "engine_step env cfg en en'" "engine_inv env cfg en"
  shows "engine_le en en'"
  using assms
proof cases
  case (place v verdict)
  then show ?thesis using place_inv(2) [OF assms(2)] by blast
qed (simp add: gpu_flags_le)

end
