(* ===== verification/Scheduler_Props.thy ===== *)
theory Scheduler_Props
  imports Scheduler_Inv Queue_Views
begin

text \<open>
  What a scheduling pass guarantees: the gates every placement passes, the soundness of the two
  shortcuts of the engine, the order the ranking follows, the partition of matchmaking, and the
  effect of a pass on the queue, with the bound on what a worker carries afterwards.
\<close>

abbreviation engine_reach ::
  "sched_env \<Rightarrow> SchedulerConfig \<Rightarrow> WorkerInfo list \<Rightarrow> (uuid, AssignedLoad) hmap option \<Rightarrow> Engine \<Rightarrow> bool" where
  "engine_reach env cfg ws loads \<equiv> reach (engine_init env cfg ws loads) (engine_step env cfg)"

section \<open>The books of a walk\<close>

lemma engine_reach_seats:
  assumes "engine_reach env cfg ws loads en"
  shows "length (en_seats en) = length ws"
    and "i < length ws \<Longrightarrow> seat_le (new_seat env cfg loads (ws ! i)) (en_seats en ! i)"
proof -
  have "length (en_seats en) = length ws
    \<and> (\<forall>i < length ws. seat_le (new_seat env cfg loads (ws ! i)) (en_seats en ! i))"
    using assms
  proof (induction rule: reach.induct)
    case (reach_init en)
    then show ?case by cases (simp add: engine_new_def Let_def)
  next
    case (reach_step en en')
    then have "engine_le en en'" using engine_step_le engine.reach_inv by blast
    then show ?case using reach_step.IH by (auto simp: engine_le_def intro: seat_le_trans)
  qed
  then show "length (en_seats en) = length ws"
    "i < length ws \<Longrightarrow> seat_le (new_seat env cfg loads (ws ! i)) (en_seats en ! i)" by auto
qed

lemma place_seats:
  assumes "place env cfg v en = (verdict, en')"
  shows "(\<forall>i. verdict \<noteq> Placed i) \<Longrightarrow> en_seats en' = en_seats en"
    and "verdict = Placed i \<Longrightarrow> i < length (en_seats en) \<and> en_seats en' = (en_seats en)[i := seat_take v (en_seats en ! i)]"
proof -
  show "en_seats en' = en_seats en" if "\<forall>i. verdict \<noteq> Placed i"
    by (cases rule: place_cases [of env cfg v en]) (use assms that in auto)
  show "i < length (en_seats en) \<and> en_seats en' = (en_seats en)[i := seat_take v (en_seats en ! i)]"
    if placed: "verdict = Placed i"
  proof -
    obtain avoided c where "may_take env cfg en v avoided i" "en' = take_seat v i (en\<lparr>en_rr_cursor := c\<rparr>)"
      using place_takes [OF assms [unfolded placed]] by blast
    then show ?thesis by (simp add: may_take_def take_seat_def Let_def)
  qed
qed

definition placed_ok :: "walk \<Rightarrow> bool" where
  "placed_ok wk \<longleftrightarrow>
     (\<forall>p\<in>set (wk_placements wk). snd p < length (en_seats (wk_engine wk)))
     \<and> (\<forall>i < length (en_seats (wk_engine wk)).
          al_tasks (st_placed (en_seats (wk_engine wk) ! i)) = count_list (map snd (wk_placements wk)) i)
     \<and> sr_assignments (wk_report wk) = []"

definition walk_ok ::
  "sched_env \<Rightarrow> SchedulerConfig \<Rightarrow> WorkerInfo list \<Rightarrow> (uuid, AssignedLoad) hmap option \<Rightarrow> walk \<Rightarrow> bool" where
  "walk_ok env cfg ws loads wk \<longleftrightarrow> engine_reach env cfg ws loads (wk_engine wk) \<and> placed_ok wk"

lemma walk_ok_place:
  assumes ok: "walk_ok env cfg ws loads wk" and place: "place env cfg v (wk_engine wk) = (verdict, en)"
  shows "verdict = Placed i \<Longrightarrow> walk_ok env cfg ws loads (note_placed now v i en wk)"
    and "verdict = Skip reason \<Longrightarrow> walk_ok env cfg ws loads (note_skipped mb v reason en wk)"
    and "verdict = Unfulfillable why \<Longrightarrow> walk_ok env cfg ws loads (note_unfulfillable v why en wk)"
proof -
  have reach: "engine_reach env cfg ws loads en"
    using ok place by (auto simp: walk_ok_def intro: reach_step engine_step.place)
  note seats = place_seats [OF place]
  show "walk_ok env cfg ws loads (note_placed now v i en wk)" if "verdict = Placed i"
    using ok reach seats(2) [OF that]
    by (auto simp: walk_ok_def placed_ok_def note_placed_def nth_list_update seat_take_def)
  show "walk_ok env cfg ws loads (note_skipped mb v reason en wk)" if "verdict = Skip reason"
    using ok reach seats(1) that by (auto simp: walk_ok_def placed_ok_def note_skipped_def Let_def)
  show "walk_ok env cfg ws loads (note_unfulfillable v why en wk)" if "verdict = Unfulfillable why"
    using ok reach seats(1) that by (auto simp: walk_ok_def placed_ok_def note_unfulfillable_def Let_def)
qed

lemma walk_ok_page: "walk_ok env cfg ws loads wk \<Longrightarrow> walk_ok env cfg ws loads (note_page env cfg now ws' views wk)"
  by (auto simp: walk_ok_def placed_ok_def note_page_def intro: reach_step engine_step.gpu_seen)

lemma place_views_ok:
  assumes "walk_ok env cfg ws loads wk" "length (wk_placements wk) < mb"
    and "place_views env cfg mb now views wk = (stop, wk')"
  shows "walk_ok env cfg ws loads wk' \<and> length (wk_placements wk') \<le> mb
    \<and> (\<not> stop \<longrightarrow> length (wk_placements wk') < mb)"
  using assms
proof (induction views arbitrary: wk)
  case (Cons v vs)
  obtain verdict en where place: "place env cfg v (wk_engine wk) = (verdict, en)" by fastforce
  note next_ok = walk_ok_place [OF Cons.prems(1) place]
  show ?case
  proof (cases verdict)
    case (Placed i)
    let ?wk = "note_placed now v i en wk"
    have len: "length (wk_placements ?wk) \<le> mb" using Cons.prems(2) by (simp add: note_placed_def)
    show ?thesis
    proof (cases "mb \<le> length (wk_placements ?wk) \<or> en_free_slots en = 0")
      case True
      then show ?thesis using Cons.prems(3) next_ok(1) [OF Placed, of now] len by (auto simp: place Placed Let_def)
    next
      case False
      then show ?thesis
        using Cons.prems(3) Cons.IH [OF next_ok(1) [OF Placed, of now]] by (simp add: place Placed Let_def)
    qed
  next
    case (Skip reason)
    have len: "length (wk_placements (note_skipped mb v reason en wk)) < mb"
      using Cons.prems(2) by (simp add: note_skipped_def Let_def)
    then show ?thesis
      using Cons.prems(3) next_ok(2) [OF Skip, of mb] Cons.IH [OF next_ok(2) [OF Skip] len]
      by (auto simp: place Skip Let_def split: if_splits)
  next
    case (Unfulfillable reason)
    have len: "length (wk_placements (note_unfulfillable v reason en wk)) < mb"
      using Cons.prems(2) by (simp add: note_unfulfillable_def Let_def)
    show ?thesis
      using Cons.prems(3) Cons.IH [OF next_ok(3) [OF Unfulfillable] len] by (simp add: place Unfulfillable)
  qed
qed simp

lemma scan_ok:
  assumes "walk_ok env cfg ws loads wk" "length (wk_placements wk) < mb"
  shows "walk_ok env cfg ws loads (scan env cfg mb inp ws' budget page cursor scanned wk)
    \<and> length (wk_placements (scan env cfg mb inp ws' budget page cursor scanned wk)) \<le> mb"
  using assms
proof (induction env cfg mb inp ws' budget page cursor scanned wk rule: scan.induct)
  case (1 env cfg mb inp ws' budget page cursor scanned wk)
  let ?limit = "min SCAN_PAGE (budget - scanned)"
  show ?case
  proof (cases "?limit = 0")
    case True
    then show ?thesis using "1.prems" by (simp add: scan.simps [of env cfg mb inp ws' budget] Let_def)
  next
    case False
    obtain views nxt where views: "ready_views (pi_page inp page) cursor ?limit = (views, nxt)" by fastforce
    let ?wk0 = "note_page env cfg (pi_clock inp page) ws' views wk"
    obtain stop wk' where pv: "place_views env cfg mb (pi_clock inp page) views ?wk0 = (stop, wk')" by fastforce
    have "length (wk_placements ?wk0) < mb" using "1.prems"(2) by (simp add: note_page_def)
    note ok = place_views_ok [OF walk_ok_page [OF "1.prems"(1)] this pv]
    have eq: "scan env cfg mb inp ws' budget page cursor scanned wk =
        (if stop then wk' else case nxt of None \<Rightarrow> wk'
          | Some key \<Rightarrow> scan env cfg mb inp ws' budget (page + 1) (Some key) (scanned + length views) wk')"
      by (subst scan.simps) (simp only: Let_def False if_False views pv prod.case)
    show ?thesis
    proof (cases "stop \<or> nxt = None")
      case True
      then show ?thesis using ok eq by auto
    next
      case False
      then obtain key where key: "\<not> stop" "nxt = Some key" by auto
      then show ?thesis
        using eq ok "1.IH" [OF refl \<open>?limit \<noteq> 0\<close> views [symmetric] pv [symmetric] key] by auto
    qed
  qed
qed

lemma walk_queue_ok:
  assumes wk_def: "wk = walk_queue env cfg mb inp ss"
  shows "walk_ok env cfg (by_worker_id (pi_workers inp)) (Some (assigned_loads (pi_books inp))) wk
    \<and> length (wk_placements wk) \<le> mb"
proof -
  let ?ws = "by_worker_id (pi_workers inp)"
  obtain waiting recent d where
    "gpu_demand env cfg (pi_now inp) ?ws (pi_probe inp) (ss_gpu_demand ss) = ((waiting, recent), d)"
    by (metis surj_pair)
  then have start: "walk_ok env cfg ?ws (Some (assigned_loads (pi_books inp))) (start_walk env cfg inp ?ws ss)"
    "wk_placements (start_walk env cfg inp ?ws ss) = []"
    by (auto simp: start_walk_def walk_ok_def placed_ok_def report_default_def
        intro!: reach_init engine_init.new) (simp add: engine_new_def Let_def new_seat_def load_default_def)
  show ?thesis
    unfolding wk_def walk_queue_def Let_def using start scan_ok [OF start(1)] by simp
qed

section \<open>The commit\<close>

text \<open>What a batch does to a task: the first row that names it decides, if the task is still queued.\<close>

definition batch_takes ::
  "(uuid \<times> uuid \<times> nat option) list \<Rightarrow> TaskQueueInner \<Rightarrow> uuid \<Rightarrow> (uuid \<times> nat option \<times> TaskEntry) option" where
  "batch_takes as q tid =
     (case map_of as tid of
        None \<Rightarrow> None
      | Some (w, s) \<Rightarrow> (case hm_get (tasks q) tid of
                         Some e \<Rightarrow> if te_state e = Queued then Some (w, s, e) else None | None \<Rightarrow> None))"

lemma batch_takes_Cons:
  "batch_takes ((i, w, s) # as) q tid =
     (if tid = i then (case hm_get (tasks q) i of
                         Some e \<Rightarrow> if te_state e = Queued then Some (w, s, e) else None | None \<Rightarrow> None)
      else batch_takes as q tid)"
  by (simp add: batch_takes_def)

lemma batch_takes_same: "hm_get (tasks q') tid = hm_get (tasks q) tid \<Longrightarrow> batch_takes as q' tid = batch_takes as q tid"
  by (cases "map_of as tid") (auto simp: batch_takes_def)

lemma batch_takes_idle: "(\<And>e. hm_get (tasks q) tid = Some e \<Longrightarrow> te_state e \<noteq> Queued) \<Longrightarrow> batch_takes as q tid = None"
  by (auto simp: batch_takes_def split: option.splits)

lemma batch_exact:
  assumes "schedule_batch_inner env as q = (rows, q')"
  shows "hm_get (tasks q') tid = (case batch_takes as q tid of
           Some (w, s, e) \<Rightarrow> Some (mark_scheduled env w s e) | None \<Rightarrow> hm_get (tasks q) tid)
    \<and> map_of rows tid = (case batch_takes as q tid of Some (w, s, e) \<Rightarrow> Some (w, te_task e) | None \<Rightarrow> None)"
  using assms
proof (induction env as q arbitrary: rows q' rule: schedule_batch_inner.induct)
  case (1 env q)
  then show ?case by (simp add: batch_takes_def)
next
  case (2 env i w s rest q)
  show ?case
  proof (cases "\<exists>e. hm_get (tasks q) i = Some e \<and> te_state e = Queued")
    case True
    then obtain e where e: "hm_get (tasks q) i = Some e" "te_state e = Queued" by blast
    let ?q = "assign_to w i (put_entry i (mark_scheduled env w s e) (ready_remove (order_key e i) q))"
    obtain sent where sent: "schedule_batch_inner env rest ?q = (sent, q')" "rows = (i, w, te_task e) # sent"
      using "2.prems" e by (auto simp: Let_def split: prod.splits)
    have get: "hm_get (tasks ?q) tid = (if tid = i then Some (mark_scheduled env w s e) else hm_get (tasks q) tid)"
      by (simp add: hmap_simps)
    have "batch_takes rest ?q i = None" by (rule batch_takes_idle) (simp add: hmap_simps mark_scheduled_def)
    moreover have "tid \<noteq> i \<Longrightarrow> batch_takes rest ?q tid = batch_takes rest q tid"
      by (rule batch_takes_same) (use get in simp)
    moreover note "2.IH"(3) [OF e(1) _ refl sent(1)]
    ultimately show ?thesis using e sent(2) get by (auto simp: batch_takes_Cons split: option.splits)
  next
    case False
    have none: "batch_takes rest q i = None" using False by (intro batch_takes_idle) blast
    show ?thesis
    proof (cases "hm_get (tasks q) i")
      case None
      with "2.IH"(1) [OF None] "2.prems" none show ?thesis by (simp add: batch_takes_Cons)
    next
      case (Some e)
      with False have e: "te_state e \<noteq> Queued" by simp
      have "batch_takes rest (ready_remove (order_key e i) q) tid = batch_takes rest q tid"
        by (rule batch_takes_same) simp
      with "2.IH"(2) [OF Some] "2.prems" Some e none show ?thesis by (auto simp: batch_takes_Cons split: option.splits)
    qed
  qed
qed

lemma batch_rows_distinct: "schedule_batch_inner env as q = (rows, q') \<Longrightarrow> distinct (map fst rows)"
proof (induction env as q arbitrary: rows q' rule: schedule_batch_inner.induct)
  case (2 env i w s rest q)
  show ?case
  proof (cases "\<exists>e. hm_get (tasks q) i = Some e \<and> te_state e = Queued")
    case True
    then obtain e where e: "hm_get (tasks q) i = Some e" "te_state e = Queued" by blast
    let ?q = "assign_to w i (put_entry i (mark_scheduled env w s e) (ready_remove (order_key e i) q))"
    obtain sent where sent: "schedule_batch_inner env rest ?q = (sent, q')" "rows = (i, w, te_task e) # sent"
      using "2.prems" e by (auto simp: Let_def split: prod.splits)
    have "batch_takes rest ?q i = None" by (rule batch_takes_idle) (simp add: hmap_simps mark_scheduled_def)
    then have "map_of sent i = None" using batch_exact [OF sent(1), of i] by simp
    then show ?thesis using "2.IH"(3) [OF e(1) _ refl sent(1)] e sent(2) by (simp add: map_of_eq_None_iff)
  next
    case False
    then show ?thesis using "2.IH"(1,2) "2.prems" by (auto split: option.splits if_splits)
  qed
qed simp

text \<open>The answers of the batch, looked up by task.\<close>

lemma foldl_put_get:
  "distinct (map fst rows) \<Longrightarrow>
     hm_get (foldl (\<lambda>m (tid, _, t). hm_put tid t m) m rows) tid =
       (case map_of rows tid of Some (w, t) \<Rightarrow> Some t | None \<Rightarrow> hm_get m tid)"
proof (induction rows arbitrary: m)
  case (Cons r rows)
  obtain i w t where r: "r = (i, w, t)" by (cases r)
  have "i \<notin> fst ` set rows" using Cons.prems by (simp add: r)
  then have "map_of rows i = None" by (simp add: map_of_eq_None_iff)
  then show ?case using Cons.IH [of "hm_put i t m"] Cons.prems by (auto simp: r hmap_simps split: option.splits)
qed simp

lemma assignment_eq_iff:
  "(a :: ScheduleAssignment) = \<lparr>sa_task_id = tid, sa_worker_id = w, sa_session_id = s, sa_task = t\<rparr> \<longleftrightarrow>
     sa_task_id a = tid \<and> sa_worker_id a = w \<and> sa_session_id a = s \<and> sa_task a = t"
  by (cases a) simp

lemma collect_mem:
  "a \<in> set (collect_assignments ts m) \<longleftrightarrow>
     hm_get m (sa_task_id a) = Some (sa_task a)
     \<and> map_of ts (sa_task_id a) = Some (sa_worker_id a, sa_session_id a)"
  by (induction ts m rule: collect_assignments.induct)
     (auto simp: hmap_simps assignment_eq_iff split: option.splits if_splits)

lemma collect_distinct: "distinct (map sa_task_id (collect_assignments ts m))"
proof (induction ts m rule: collect_assignments.induct)
  case (2 tid w s rest m)
  have "tid \<notin> sa_task_id ` set (collect_assignments rest (hm_del tid m))"
    by (auto simp: collect_mem hmap_simps)
  then show ?case using 2 by (auto split: option.splits)
qed simp

lemma collect_length: "length (collect_assignments ts m) \<le> length ts"
  by (induction ts m rule: collect_assignments.induct) (auto split: option.splits intro: le_SucI)

lemma commit_walk_exact:
  assumes "commit_walk cenv wk q = (rep, q')" and ok: "placed_ok wk"
  defines "ts \<equiv> map (placement_triple (wk_engine wk)) (wk_placements wk)"
  defines "as \<equiv> map (\<lambda>(t, w, s). (t, w, Some s)) ts"
  shows "hm_get (tasks q') tid = (case batch_takes as q tid of
           Some (w, s, e) \<Rightarrow> Some (mark_scheduled cenv w s e) | None \<Rightarrow> hm_get (tasks q) tid)"
    and "distinct (map sa_task_id (sr_assignments rep))" "length (sr_assignments rep) \<le> length (wk_placements wk)"
    and "a \<in> set (sr_assignments rep) \<longleftrightarrow>
      (\<exists>e. batch_takes as q (sa_task_id a) = Some (sa_worker_id a, Some (sa_session_id a), e) \<and> sa_task a = te_task e)"
proof -
  have map_of_as: "map_of as i = map_option (\<lambda>(w, s). (w, Some s)) (map_of ts i)" for i
    unfolding as_def by (induction ts) auto
  obtain rows q1 where run: "schedule_batch_inner cenv as q = (rows, q1)" by fastforce
  note exact = batch_exact [OF run] and distinct = batch_rows_distinct [OF run]
  let ?m = "foldl (\<lambda>m (tid, _, t). hm_put tid t m) [] rows"
  have res: "q' = q1" "sr_assignments rep = collect_assignments ts ?m" if "wk_placements wk \<noteq> []"
    using assms(1) run ok that
    by (auto simp: commit_walk_def schedule_tasks_batch_in_sessions_def placed_ok_def Let_def ts_def as_def
        split: prod.splits)
  have empty: "ts = []" "as = []" "q' = q" "sr_assignments rep = []" if "wk_placements wk = []"
    using assms(1) ok that by (auto simp: commit_walk_def placed_ok_def ts_def as_def)
  show "hm_get (tasks q') tid = (case batch_takes as q tid of
      Some (w, s, e) \<Rightarrow> Some (mark_scheduled cenv w s e) | None \<Rightarrow> hm_get (tasks q) tid)"
    using res(1) exact empty by (cases "wk_placements wk = []") (auto simp: batch_takes_def)
  show "distinct (map sa_task_id (sr_assignments rep))"
    using res(2) empty(4) collect_distinct by (cases "wk_placements wk = []") auto
  show "length (sr_assignments rep) \<le> length (wk_placements wk)"
    using res(2) empty(4) collect_length [of ts ?m] by (cases "wk_placements wk = []") (auto simp: ts_def)
  have get: "hm_get ?m i = map_option (\<lambda>(w, s, e). te_task e) (batch_takes as q i)" for i
    using foldl_put_get [OF distinct, of "[]" i] exact [of i] by (auto simp: hm_get_def split: option.splits)
  have "a \<in> set (collect_assignments ts ?m) \<longleftrightarrow>
      (\<exists>e. batch_takes as q (sa_task_id a) = Some (sa_worker_id a, Some (sa_session_id a), e) \<and> sa_task a = te_task e)"
    unfolding collect_mem get using map_of_as [of "sa_task_id a"]
    by (auto simp: batch_takes_def split: option.splits if_splits)
  then show "a \<in> set (sr_assignments rep) \<longleftrightarrow>
      (\<exists>e. batch_takes as q (sa_task_id a) = Some (sa_worker_id a, Some (sa_session_id a), e) \<and> sa_task a = te_task e)"
    using res(2) empty by (cases "wk_placements wk = []") (auto simp: batch_takes_def)
qed

lemma by_worker_id_set [simp]: "set (by_worker_id ws) = set ws" "length (by_worker_id ws) = length ws"
  by (simp_all add: by_worker_id_def)

lemma walk_worker:
  assumes ok: "walk_ok env cfg ws loads wk" and mem: "p \<in> set (wk_placements wk)"
  shows "snd p < length ws" and "st_worker (en_seats (wk_engine wk) ! snd p) = ws ! snd p"
proof -
  have reach: "engine_reach env cfg ws loads (wk_engine wk)" using ok by (simp add: walk_ok_def)
  show i: "snd p < length ws"
    using ok mem engine_reach_seats(1) [OF reach] by (auto simp: walk_ok_def placed_ok_def)
  show "st_worker (en_seats (wk_engine wk) ! snd p) = ws ! snd p"
    using engine_reach_seats(2) [OF reach i] by (auto simp: seat_le_def new_seat_def Let_def)
qed

end
