(* ===== verification/Registry_Inv.thy ===== *)
theory Registry_Inv
  imports Registry
begin

text \<open>
  The invariant of the worker registry, its preservation by every operation, and the step relation
  of the registry: session numbers are handed out once, in increasing order, a worker is busy
  exactly when its books or its last report show work, and the scheduling exclusion is set exactly
  while there is a streak of rejections.
\<close>

named_theorems registry_defs \<open>the definitions of the registry operations\<close>

section \<open>The invariant\<close>

definition status_ok :: "WorkerEntry \<Rightarrow> bool" where
  "status_ok e \<longleftrightarrow> we_status e \<noteq> Disconnected \<longrightarrow> we_status e = load_status e"

definition breaker_ok :: "WorkerEntry \<Rightarrow> bool" where
  "breaker_ok e \<longleftrightarrow> (we_excluded_until e = None \<longleftrightarrow> we_consecutive_rejections e = 0)"

definition worker_ok :: "uuid \<Rightarrow> nat \<Rightarrow> WorkerEntry \<Rightarrow> bool" where
  "worker_ok wid next e \<longleftrightarrow>
     we_worker_id e = wid \<and> 0 < we_session_id e \<and> we_session_id e < next \<and> status_ok e \<and> breaker_ok e"

definition registry_inv :: "WorkerRegistry \<Rightarrow> bool" where
  "registry_inv r \<longleftrightarrow>
     hm_wf (workers r) \<and> 0 < next_session_id r
     \<and> (\<forall>wid e. hm_get (workers r) wid = Some e \<longrightarrow> worker_ok wid (next_session_id r) e)
     \<and> (\<forall>v w d e. hm_get (workers r) v = Some d \<longrightarrow> hm_get (workers r) w = Some e \<longrightarrow>
          we_session_id d = we_session_id e \<longrightarrow> v = w)"

lemma registry_invI:
  assumes "hm_wf (workers r)" "0 < next_session_id r"
    and "\<And>wid e. hm_get (workers r) wid = Some e \<Longrightarrow> worker_ok wid (next_session_id r) e"
    and "\<And>v w d e. hm_get (workers r) v = Some d \<Longrightarrow> hm_get (workers r) w = Some e \<Longrightarrow>
          we_session_id d = we_session_id e \<Longrightarrow> v = w"
  shows "registry_inv r"
  unfolding registry_inv_def using assms by blast

lemma registry_inv_pos: "registry_inv r \<Longrightarrow> 0 < next_session_id r"
  by (simp add: registry_inv_def)

lemma registry_invD:
  assumes "registry_inv r" "hm_get (workers r) wid = Some e"
  shows "worker_ok wid (next_session_id r) e"
  using assms by (simp add: registry_inv_def)

lemma registry_inv_unique:
  assumes "registry_inv r" "hm_get (workers r) v = Some d" "hm_get (workers r) w = Some e"
    "we_session_id d = we_session_id e"
  shows "v = w"
  using assms unfolding registry_inv_def by blast

lemma registry_inv_wf [simp]: "registry_inv r \<Longrightarrow> hm_wf (workers r)"
  by (simp add: registry_inv_def)

lemma registry_inv_new: "registry_inv registry_new"
  by (simp add: registry_inv_def registry_new_def)

lemma put_worker_simps [simp]:
  "next_session_id (put_worker wid e r) = next_session_id r"
  "hm_get (workers (put_worker wid e r)) v = (if v = wid then Some e else hm_get (workers r) v)"
  by (simp_all add: put_worker_def hmap_simps)

lemma put_worker_wf [simp]: "hm_wf (workers r) \<Longrightarrow> hm_wf (workers (put_worker wid e r))"
  by (simp add: put_worker_def)

text \<open>An operation that keeps the identity and the session of an entry keeps the registry.\<close>

lemma registry_inv_put:
  assumes inv: "registry_inv r" and e: "hm_get (workers r) wid = Some e"
    and same: "we_worker_id e' = we_worker_id e" "we_session_id e' = we_session_id e"
    and ok: "status_ok e'" "breaker_ok e'"
  shows "registry_inv (put_worker wid e' r)"
proof (rule registry_invI)
  fix v d assume d: "hm_get (workers (put_worker wid e' r)) v = Some d"
  have "worker_ok wid (next_session_id r) e'"
    using registry_invD [OF inv e] same ok unfolding worker_ok_def by simp
  with d show "worker_ok v (next_session_id (put_worker wid e' r)) d"
    by (cases "v = wid") (simp_all add: registry_invD [OF inv])
next
  fix v w c d
  assume cd: "hm_get (workers (put_worker wid e' r)) v = Some c" "hm_get (workers (put_worker wid e' r)) w = Some d"
    "we_session_id c = we_session_id d"
  have "\<exists>b. hm_get (workers r) x = Some b \<and> we_session_id b = we_session_id a"
    if "hm_get (workers (put_worker wid e' r)) x = Some a" for x a
    using that e same(2) by (cases "x = wid") auto
  from this [OF cd(1)] this [OF cd(2)] cd(3) show "v = w"
    using registry_inv_unique [OF inv] by metis
qed (use inv in \<open>simp_all add: registry_inv_pos\<close>)

lemma registry_inv_del:
  assumes "registry_inv r"
  shows "registry_inv (r\<lparr>workers := hm_del wid (workers r)\<rparr>)"
  using registry_invD [OF assms] registry_inv_unique [OF assms] assms
  by (intro registry_invI) (auto simp: hmap_simps registry_inv_pos split: if_splits)

section \<open>The operations\<close>

lemma status_ok_cong:
  assumes "status_ok e" "we_status e' = we_status e" "we_active_tasks e' = we_active_tasks e"
    "we_reported_active_tasks e' = we_reported_active_tasks e"
  shows "status_ok e'"
  using assms by (simp add: status_ok_def load_status_def visible_active_tasks_def)

lemma worker_okD:
  assumes "worker_ok wid n e"
  shows "status_ok e" "breaker_ok e" "we_worker_id e = wid" "we_session_id e < n" "0 < we_session_id e"
  using assms by (simp_all add: worker_ok_def)

lemma status_ok_intros [intro]:
  "status_ok (disconnected_entry e)"
  "status_ok e \<Longrightarrow> status_ok (with_slot e)"
  "status_ok e \<Longrightarrow> status_ok (without_slot e)"
  "status_ok (e\<lparr>we_status := load_status e\<rparr>)"
  by (auto simp: status_ok_def load_status_def visible_active_tasks_def disconnected_entry_def
      with_slot_def without_slot_def Let_def max_def split: if_splits)

lemma slot_fields [simp]:
  "we_worker_id (with_slot e) = we_worker_id e" "we_session_id (with_slot e) = we_session_id e"
  "we_worker_id (without_slot e) = we_worker_id e" "we_session_id (without_slot e) = we_session_id e"
  "we_worker_id (disconnected_entry e) = we_worker_id e"
  "we_session_id (disconnected_entry e) = we_session_id e"
  "breaker_ok (with_slot e) = breaker_ok e" "breaker_ok (without_slot e) = breaker_ok e"
  "breaker_ok (disconnected_entry e) = breaker_ok e"
  by (simp_all add: with_slot_def without_slot_def disconnected_entry_def breaker_ok_def Let_def)

lemma entry_ok_new:
  "status_ok (rebound_entry env session caps features addr sender handle e)"
  "breaker_ok (rebound_entry env session caps features addr sender handle e)"
  "status_ok (fresh_entry env wid session caps features addr sender handle)"
  "breaker_ok (fresh_entry env wid session caps features addr sender handle)"
  by (simp_all add: rebound_entry_def fresh_entry_def status_ok_def load_status_def
      visible_active_tasks_def breaker_ok_def)

lemma entry_new_fields [simp]:
  "we_worker_id (rebound_entry env session caps features addr sender handle e) = we_worker_id e"
  "we_session_id (rebound_entry env session caps features addr sender handle e) = session"
  "we_worker_id (fresh_entry env wid session caps features addr sender handle) = wid"
  "we_session_id (fresh_entry env wid session caps features addr sender handle) = session"
  "we_status (rebound_entry env session caps features addr sender handle e) = Connected"
  "we_status (fresh_entry env wid session caps features addr sender handle) = Connected"
  by (simp_all add: rebound_entry_def fresh_entry_def)

lemma register_session_cases:
  assumes "registry_inv r" "register_session env wid caps features addr sender handle r = (g, ab, r')"
  obtains e where "r' = put_worker wid e (r\<lparr>next_session_id := next_session_id r + 1\<rparr>)"
    "we_worker_id e = wid" "we_session_id e = next_session_id r" "we_status e = Connected"
    "status_ok e" "breaker_ok e"
proof (cases "hm_get (workers r) wid")
  case None
  show ?thesis
    using assms(2) None
    by (intro that [of "fresh_entry env wid (next_session_id r) caps features addr sender handle"])
      (simp_all add: register_session_def Let_def entry_ok_new)
next
  case (Some e)
  have "we_worker_id e = wid" using registry_invD [OF assms(1) Some] by (simp add: worker_ok_def)
  with assms(2) Some show ?thesis
    by (intro that [of "rebound_entry env (next_session_id r) caps features addr sender handle e"])
      (simp_all add: register_session_def Let_def entry_ok_new)
qed

lemma registry_inv_register:
  assumes inv: "registry_inv r" and "register_session env wid caps features addr sender handle r = (g, ab, r')"
  shows "registry_inv r'"
proof -
  let ?n = "next_session_id r"
  obtain e where r': "r' = put_worker wid e (r\<lparr>next_session_id := ?n + 1\<rparr>)"
    and e: "we_worker_id e = wid" "we_session_id e = ?n" "status_ok e" "breaker_ok e"
    using register_session_cases [OF assms] by metis
  have old: "we_session_id d < ?n" if "hm_get (workers r) v = Some d" for v d
    using registry_invD [OF inv that] by (simp add: worker_ok_def)
  have pos: "0 < ?n" using inv by (rule registry_inv_pos)
  show ?thesis
  proof (rule registry_invI)
    fix v d assume "hm_get (workers r') v = Some d"
    then show "worker_ok v (next_session_id r') d"
      using e pos registry_invD [OF inv, of v d] by (auto simp: r' worker_ok_def split: if_splits)
  next
    fix v w c d
    assume "hm_get (workers r') v = Some c" "hm_get (workers r') w = Some d" "we_session_id c = we_session_id d"
    then show "v = w"
      using registry_inv_unique [OF inv, of v c w d] old [of v c] old [of w d] e(2)
      by (auto simp: r' split: if_splits)
  qed (use inv in \<open>simp_all add: r'\<close>)
qed

lemma registry_inv_set_rx_clock: "registry_inv r \<Longrightarrow> registry_inv (set_rx_clock wid s c r)"
  using registry_invD [of r wid]
  by (auto simp: set_rx_clock_def worker_ok_def breaker_ok_def intro!: registry_inv_put
      intro: status_ok_cong split: option.splits)

lemma registry_inv_receive: "registry_inv r \<Longrightarrow> registry_inv (receive_bytes now wid n r)"
  using registry_invD [of r wid]
  by (auto simp: receive_bytes_def worker_ok_def breaker_ok_def intro!: registry_inv_put
      intro: status_ok_cong split: option.splits)

lemma registry_inv_disconnect:
  assumes "registry_inv r" "hm_get (workers r) wid = Some e"
  shows "registry_inv (put_worker wid (disconnected_entry e) r)"
  using worker_okD [OF registry_invD [OF assms]] by (intro registry_inv_put [OF assms]) auto

lemma registry_inv_unregister:
  "registry_inv r \<Longrightarrow> unregister env wid s r = (b, ab, r') \<Longrightarrow> registry_inv r'"
  by (auto simp: unregister_def intro: registry_inv_disconnect split: option.splits if_splits)

lemma registry_inv_remove:
  "registry_inv r \<Longrightarrow> remove_worker env wid r = (i, ab, r') \<Longrightarrow> registry_inv r'"
  by (auto simp: remove_worker_def intro: registry_inv_del split: option.splits)

lemma registry_inv_remove_stale:
  "registry_inv r \<Longrightarrow> remove_stale env wids ab0 r = (ab, r') \<Longrightarrow> registry_inv r'"
  by (induction env wids ab0 r rule: remove_stale.induct)
    (auto intro: registry_inv_del split: option.splits)

lemma heartbeat_entry_fields [simp]:
  "we_worker_id (heartbeat_entry env a t c m v e) = we_worker_id e"
  "we_session_id (heartbeat_entry env a t c m v e) = we_session_id e"
  "breaker_ok (heartbeat_entry env a t c m v e) = breaker_ok e"
  "we_status (heartbeat_entry env a t c m v e) = Disconnected \<longleftrightarrow> we_status e = Disconnected \<and> \<not> v"
  by (simp_all add: heartbeat_entry_def Let_def breaker_ok_def load_status_def)

lemma heartbeat_status_ok: "status_ok (heartbeat_entry env a t c m v e)"
  by (auto simp: heartbeat_entry_def Let_def status_ok_def load_status_def visible_active_tasks_def)

lemma registry_inv_heartbeat:
  assumes inv: "registry_inv r" and op: "record_heartbeat_session env wid a t c m s r = (out, r')"
  shows "registry_inv r'"
proof (cases "hm_get (workers r) wid")
  case (Some e)
  have "registry_inv (put_worker wid (heartbeat_entry env a t c m v e) r)" for v
    using worker_okD [OF registry_invD [OF inv Some]] heartbeat_status_ok
    by (intro registry_inv_put [OF inv Some]) auto
  then show ?thesis using op Some inv
    by (auto simp: record_heartbeat_session_def Let_def split: if_splits)
qed (use op inv in \<open>simp add: record_heartbeat_session_def\<close>)

lemma registry_inv_telemetry:
  "registry_inv r \<Longrightarrow> update_mobile_telemetry wid s st r = (out, r') \<Longrightarrow> registry_inv r'"
  using registry_invD [of r wid]
  by (auto simp: update_mobile_telemetry_def Let_def worker_ok_def breaker_ok_def
      intro!: registry_inv_put intro: status_ok_cong split: option.splits if_splits)

lemma registry_inv_slot:
  assumes "registry_inv r" "hm_get (workers r) wid = Some e"
  shows "registry_inv (put_worker wid (with_slot e) r)" "registry_inv (put_worker wid (without_slot e) r)"
  using worker_okD [OF registry_invD [OF assms]] by (intro registry_inv_put [OF assms]; auto)+

lemma registry_inv_slots:
  "registry_inv r \<Longrightarrow> reserve_dispatch wid s r = (out, r') \<Longrightarrow> registry_inv r'"
  "registry_inv r \<Longrightarrow> registry_inv (release_dispatch wid s r)"
  "registry_inv r \<Longrightarrow> increment_active_tasks wid r = (out2, r') \<Longrightarrow> registry_inv r'"
  "registry_inv r \<Longrightarrow> decrement_active_tasks wid r = (out2, r') \<Longrightarrow> registry_inv r'"
  by (auto simp: reserve_dispatch_def release_dispatch_def increment_active_tasks_def
      decrement_active_tasks_def intro: registry_inv_slot split: option.splits if_splits)

lemma registry_inv_rejection:
  "registry_inv r \<Longrightarrow> record_rejection env wid s r = (out, r') \<Longrightarrow> registry_inv r'"
  using registry_invD [of r wid]
  by (auto simp: record_rejection_def Let_def worker_ok_def breaker_ok_def
      intro!: registry_inv_put intro: status_ok_cong split: option.splits if_splits)

lemma registry_inv_clear: "registry_inv r \<Longrightarrow> registry_inv (clear_rejections wid r)"
  using registry_invD [of r wid]
  by (auto simp: clear_rejections_def worker_ok_def breaker_ok_def
      intro!: registry_inv_put intro: status_ok_cong split: option.splits)

lemma registry_inv_reap_mark:
  "registry_inv r \<Longrightarrow> reap_mark env t wids rp ab r = (rp', ab', r') \<Longrightarrow> registry_inv r'"
  by (induction env t wids rp ab r rule: reap_mark.induct)
    (auto intro: registry_inv_disconnect split: option.splits if_splits)

lemma registry_inv_broadcast_loop:
  "registry_inv r \<Longrightarrow> broadcast_loop d env ws n ab r = (n', ab', r') \<Longrightarrow> registry_inv r'"
  by (induction d env ws n ab r rule: broadcast_loop.induct)
    (auto split: if_splits prod.splits intro: registry_inv_unregister)

section \<open>The step relation\<close>

inductive registry_step :: "WorkerRegistry \<Rightarrow> WorkerRegistry \<Rightarrow> bool" where
  reg_register: "register_session env wid caps features addr sender handle r = (g, ab, r') \<Longrightarrow> registry_step r r'"
| reg_clock: "registry_step r (set_rx_clock wid s c r)"
| reg_receive: "registry_step r (receive_bytes now wid n r)"
| reg_unregister: "unregister env wid os r = (b, ab, r') \<Longrightarrow> registry_step r r'"
| reg_remove: "remove_worker env wid r = (i, ab, r') \<Longrightarrow> registry_step r r'"
| reg_prune: "prune_stale_workers env t r = (n, ab, r') \<Longrightarrow> registry_step r r'"
| reg_heartbeat: "record_heartbeat_session env wid a t c m os r = (out, r') \<Longrightarrow> registry_step r r'"
| reg_telemetry: "update_mobile_telemetry wid os st r = (out2, r') \<Longrightarrow> registry_step r r'"
| reg_reserve: "reserve_dispatch wid s r = (out3, r') \<Longrightarrow> registry_step r r'"
| reg_release: "registry_step r (release_dispatch wid s r)"
| reg_increment: "increment_active_tasks wid r = (out3, r') \<Longrightarrow> registry_step r r'"
| reg_decrement: "decrement_active_tasks wid r = (out3, r') \<Longrightarrow> registry_step r r'"
| reg_rejection: "record_rejection env wid os r = (out4, r') \<Longrightarrow> registry_step r r'"
| reg_clear: "registry_step r (clear_rejections wid r)"
| reg_reap: "reap_stale_sessions now1 r1 env t r = (rp, ab, r') \<Longrightarrow> registry_step r r'"
| reg_broadcast: "broadcast d env r = (n, ab, r') \<Longrightarrow> registry_step r r'"

lemma registry_inv_prune: "registry_inv r \<Longrightarrow> prune_stale_workers env t r = (n, ab, r') \<Longrightarrow> registry_inv r'"
  by (auto simp: prune_stale_workers_def Let_def intro: registry_inv_remove_stale)

lemma registry_inv_reap:
  "registry_inv r \<Longrightarrow> reap_stale_sessions now1 r1 env t r = (rp, ab, r') \<Longrightarrow> registry_inv r'"
  by (auto simp: reap_stale_sessions_def Let_def intro: registry_inv_reap_mark split: if_splits)

lemma registry_inv_broadcast: "registry_inv r \<Longrightarrow> broadcast d env r = (n, ab, r') \<Longrightarrow> registry_inv r'"
  unfolding broadcast_def by (rule registry_inv_broadcast_loop)

lemmas registry_op_invs = registry_inv_register registry_inv_set_rx_clock registry_inv_receive
  registry_inv_unregister registry_inv_remove registry_inv_prune registry_inv_heartbeat
  registry_inv_telemetry registry_inv_slots registry_inv_rejection registry_inv_clear
  registry_inv_reap registry_inv_broadcast

lemma registry_inv_step: "registry_step r r' \<Longrightarrow> registry_inv r \<Longrightarrow> registry_inv r'"
  by (induction rule: registry_step.induct) (blast intro: registry_op_invs)+

definition registry_init :: "WorkerRegistry \<Rightarrow> bool" where
  "registry_init r \<longleftrightarrow> r = registry_new"

interpretation registry: invariant_system registry_init registry_step registry_inv
  using registry_inv_step by unfold_locales (auto simp: registry_init_def registry_inv_new)

section \<open>Sessions\<close>

text \<open>
  A worker keeps its session or gets one that was never used before; a worker that was unknown gets
  a fresh one too.
\<close>

definition sessions_grow :: "WorkerRegistry \<Rightarrow> WorkerRegistry \<Rightarrow> bool" where
  "sessions_grow r r' \<longleftrightarrow>
     next_session_id r \<le> next_session_id r'
     \<and> (\<forall>wid e'. hm_get (workers r') wid = Some e' \<longrightarrow>
          (\<exists>e. hm_get (workers r) wid = Some e \<and> we_session_id e = we_session_id e')
          \<or> next_session_id r \<le> we_session_id e')"

lemma sessions_grow_refl [simp]: "sessions_grow r r"
  by (auto simp: sessions_grow_def)

lemma sessions_grow_trans:
  assumes "sessions_grow r s" "sessions_grow s t"
  shows "sessions_grow r t"
  unfolding sessions_grow_def
proof (intro conjI allI impI)
  show "next_session_id r \<le> next_session_id t" using assms by (auto simp: sessions_grow_def)
  fix wid e assume "hm_get (workers t) wid = Some e"
  then consider d where "hm_get (workers s) wid = Some d" "we_session_id d = we_session_id e"
    | "next_session_id s \<le> we_session_id e"
    using assms(2) by (auto simp: sessions_grow_def)
  then show "(\<exists>d. hm_get (workers r) wid = Some d \<and> we_session_id d = we_session_id e) \<or> next_session_id r \<le> we_session_id e"
  proof cases
    case 1
    then show ?thesis using assms(1) by (metis sessions_grow_def)
  next
    case 2
    moreover have "next_session_id r \<le> next_session_id s" using assms(1) by (simp add: sessions_grow_def)
    ultimately show ?thesis by simp
  qed
qed

lemma sessions_grow_put:
  assumes "hm_get (workers r) wid = Some e" "we_session_id e' = we_session_id e"
  shows "sessions_grow r (put_worker wid e' r)"
  using assms by (auto simp: sessions_grow_def)

lemma sessions_grow_del: "sessions_grow r (r\<lparr>workers := hm_del wid (workers r)\<rparr>)"
  by (auto simp: sessions_grow_def hmap_simps)

lemma sessions_grow_disconnect:
  "hm_get (workers r) wid = Some e \<Longrightarrow> sessions_grow r (put_worker wid (disconnected_entry e) r)"
  by (rule sessions_grow_put) simp_all

lemma sessions_grow_unregister: "unregister env wid s r = (b, ab, r') \<Longrightarrow> sessions_grow r r'"
  by (auto simp: unregister_def intro: sessions_grow_put split: option.splits if_splits)

lemma sessions_grow_loops:
  "remove_stale env wids ab0 r = (ab, r') \<Longrightarrow> sessions_grow r r'"
  "reap_mark env t wids rp ab1 r = (rp', ab', r') \<Longrightarrow> sessions_grow r r'"
  "broadcast_loop d env ws n ab2 r = (n', ab', r') \<Longrightarrow> sessions_grow r r'"
proof -
  show "remove_stale env wids ab0 r = (ab, r') \<Longrightarrow> sessions_grow r r'"
    by (induction env wids ab0 r rule: remove_stale.induct)
      (auto intro: sessions_grow_trans [OF sessions_grow_del] split: option.splits)
  show "reap_mark env t wids rp ab1 r = (rp', ab', r') \<Longrightarrow> sessions_grow r r'"
    by (induction env t wids rp ab1 r rule: reap_mark.induct)
      (auto intro: sessions_grow_trans [OF sessions_grow_disconnect] split: option.splits if_splits)
  show "broadcast_loop d env ws n ab2 r = (n', ab', r') \<Longrightarrow> sessions_grow r r'"
    by (induction d env ws n ab2 r rule: broadcast_loop.induct)
      (auto split: if_splits prod.splits intro: sessions_grow_trans [OF sessions_grow_unregister])
qed

lemma sessions_grow_register:
  assumes "registry_inv r" "register_session env wid caps features addr sender handle r = (g, ab, r')"
  shows "sessions_grow r r'"
proof -
  obtain e where "r' = put_worker wid e (r\<lparr>next_session_id := next_session_id r + 1\<rparr>)"
    "we_session_id e = next_session_id r"
    by (rule register_session_cases [OF assms])
  then show ?thesis by (auto simp: sessions_grow_def)
qed

lemma sessions_grow_ops:
  "sessions_grow r (set_rx_clock wid s c r)"
  "sessions_grow r (receive_bytes now wid n r)"
  "record_heartbeat_session env wid a t cpu m os r = (out, r') \<Longrightarrow> sessions_grow r r'"
  "update_mobile_telemetry wid os st r = (out2, r') \<Longrightarrow> sessions_grow r r'"
  "reserve_dispatch wid s r = (out3, r') \<Longrightarrow> sessions_grow r r'"
  "sessions_grow r (release_dispatch wid s r)"
  "increment_active_tasks wid r = (out3, r') \<Longrightarrow> sessions_grow r r'"
  "decrement_active_tasks wid r = (out3, r') \<Longrightarrow> sessions_grow r r'"
  "record_rejection env wid os r = (out4, r') \<Longrightarrow> sessions_grow r r'"
  "sessions_grow r (clear_rejections wid r)"
  unfolding set_rx_clock_def receive_bytes_def record_heartbeat_session_def update_mobile_telemetry_def
    reserve_dispatch_def release_dispatch_def increment_active_tasks_def decrement_active_tasks_def
    record_rejection_def clear_rejections_def
  by (auto simp: Let_def intro!: sessions_grow_put split: option.splits if_splits)

lemma sessions_grow_step: "registry_step r r' \<Longrightarrow> registry_inv r \<Longrightarrow> sessions_grow r r'"
proof (induction rule: registry_step.induct)
  case (reg_prune env t r n ab r')
  then show ?case by (auto simp: prune_stale_workers_def Let_def intro: sessions_grow_loops(1))
next
  case (reg_reap now1 r1 env t r rp ab r')
  then show ?case by (auto simp: reap_stale_sessions_def Let_def intro: sessions_grow_loops(2) split: if_splits)
next
  case (reg_broadcast d env r n ab r')
  from reg_broadcast(1) show ?case unfolding broadcast_def by (rule sessions_grow_loops(3))
next
  case (reg_remove env wid r i ab r')
  then show ?case by (auto simp: remove_worker_def intro: sessions_grow_del split: option.splits)
qed (blast intro: sessions_grow_ops sessions_grow_register sessions_grow_unregister)+

end
