(* ===== verification/Registry_Props.thy ===== *)
theory Registry_Props
  imports Registry_Inv
begin

text \<open>
  What the worker registry promises the rest of the master: fresh session numbers, exact books,
  fencing of superseded sessions, the reaping of silent workers and the cooldown after rejections.
\<close>

abbreviation reachable_registry :: "WorkerRegistry \<Rightarrow> bool" where
  "reachable_registry \<equiv> reach registry_init registry_step"

lemma entries_mem:
  assumes "registry_inv r"
  shows "e \<in> set (entries r) \<longleftrightarrow> hm_get (workers r) (we_worker_id e) = Some e"
proof -
  have wf: "hm_wf (workers r)" using assms by simp
  have "e \<in> set (entries r) \<longleftrightarrow> (\<exists>wid. hm_get (workers r) wid = Some e)"
    by (force simp: entries_def image_iff hm_get_mem [OF wf, symmetric])
  also have "\<dots> \<longleftrightarrow> hm_get (workers r) (we_worker_id e) = Some e"
    using worker_okD(3) [OF registry_invD [OF assms]] by auto
  finally show ?thesis .
qed

section \<open>Examples\<close>

definition ex_caps :: WorkerCapabilities where
  "ex_caps = capabilities_new ''w'' 4 8192 False False None"

definition ex_renv :: "nat \<Rightarrow> reg_env" where
  "ex_renv now = \<lparr>re_now = now, re_epoch = 0, re_current = None\<rparr>"

definition ex_registry1 :: WorkerRegistry where
  "ex_registry1 = snd (snd (register_session (ex_renv 0) 7 ex_caps caps_empty ''a'' 0 None registry_new))"

definition ex_worker1 :: WorkerEntry where
  "ex_worker1 = fresh_entry (ex_renv 0) 7 1 ex_caps caps_empty ''a'' 0 None"

lemma ex_registry1_get: "hm_get (workers ex_registry1) wid = (if wid = 7 then Some ex_worker1 else None)"
  by (simp add: ex_registry1_def register_session_def registry_new_def ex_worker1_def)

lemma ex_registry1_next: "next_session_id ex_registry1 = 2"
  by (simp add: ex_registry1_def register_session_def registry_new_def Let_def)

definition ex_registry2 :: WorkerRegistry where
  "ex_registry2 = snd (snd (register_session (ex_renv 5) 8 ex_caps caps_empty ''b'' 1 None ex_registry1))"

lemma ex_registry1_reach: "reachable_registry ex_registry1"
proof -
  have "registry_step registry_new ex_registry1"
    unfolding ex_registry1_def
    by (rule reg_register [of "ex_renv 0" 7 ex_caps caps_empty "''a''" 0 None _
          "fst (register_session (ex_renv 0) 7 ex_caps caps_empty ''a'' 0 None registry_new)"
          "fst (snd (register_session (ex_renv 0) 7 ex_caps caps_empty ''a'' 0 None registry_new))"]) simp
  moreover have "reachable_registry registry_new" by (rule reach.intros) (simp add: registry_init_def)
  ultimately show ?thesis by (rule reach.intros(2) [rotated])
qed

lemma sessions_growD:
  assumes "sessions_grow r r'" "hm_get (workers r') wid = Some e'"
  shows "(\<exists>e. hm_get (workers r) wid = Some e \<and> we_session_id e = we_session_id e') \<or> next_session_id r \<le> we_session_id e'"
  using assms(2) conjunct2 [OF assms(1) [unfolded sessions_grow_def]] by (elim allE impE)

section \<open>Sessions and books\<close>

text \<open>
  C11. Session numbers.  No two workers of a reachable registry share a session number.  Whatever
  operation runs next, each worker known afterwards either keeps the session it had, or is in a
  session with a number larger than every number in use before.
\<close>

theorem registry_sessions_fresh:
  assumes "reachable_registry r" "registry_step r r'"
  shows "(\<forall>v w d e. hm_get (workers r) v = Some d \<and> hm_get (workers r) w = Some e
        \<and> we_session_id d = we_session_id e \<longrightarrow> v = w)
    \<and> (\<forall>wid e'. hm_get (workers r') wid = Some e' \<longrightarrow>
        (\<exists>e. hm_get (workers r) wid = Some e \<and> we_session_id e = we_session_id e')
        \<or> (\<forall>v d. hm_get (workers r) v = Some d \<longrightarrow> we_session_id d < we_session_id e'))"
proof -
  have inv: "registry_inv r" by (rule registry.reach_inv [OF assms(1)])
  have old: "we_session_id d < next_session_id r" if "hm_get (workers r) v = Some d" for v d
    by (rule worker_okD(4) [OF registry_invD [OF inv that]])
  have "(\<exists>e. hm_get (workers r) wid = Some e \<and> we_session_id e = we_session_id e')
        \<or> (\<forall>v d. hm_get (workers r) v = Some d \<longrightarrow> we_session_id d < we_session_id e')"
    if e': "hm_get (workers r') wid = Some e'" for wid e'
  proof (cases "next_session_id r \<le> we_session_id e'")
    case True
    have "we_session_id d < we_session_id e'" if "hm_get (workers r) v = Some d" for v d
      using old [OF that] True by simp
    then show ?thesis by simp
  next
    case False
    with sessions_growD [OF sessions_grow_step [OF assms(2) inv] e'] show ?thesis by simp
  qed
  moreover have "v = w" if "hm_get (workers r) v = Some d \<and> hm_get (workers r) w = Some e
      \<and> we_session_id d = we_session_id e" for v w d e
    using registry_inv_unique [OF inv, of v d w e] that by simp
  ultimately show ?thesis by (intro conjI allI impI)
qed

theorem registry_sessions_fresh_witness:
  "\<exists>e'. hm_get (workers ex_registry2) 8 = Some e' \<and> we_session_id ex_worker1 < we_session_id e'"
proof -
  have get: "hm_get (workers ex_registry2) 8 = Some (fresh_entry (ex_renv 5) 8 2 ex_caps caps_empty ''b'' 1 None)"
    by (simp add: ex_registry2_def register_session_def ex_registry1_get ex_registry1_next)
  have "registry_step ex_registry1 ex_registry2"
    unfolding ex_registry2_def
    by (rule reg_register [of "ex_renv 5" 8 ex_caps caps_empty "''b''" 1 None _
          "fst (register_session (ex_renv 5) 8 ex_caps caps_empty ''b'' 1 None ex_registry1)"
          "fst (snd (register_session (ex_renv 5) 8 ex_caps caps_empty ''b'' 1 None ex_registry1))"]) simp
  note fresh = conjunct2 [OF registry_sessions_fresh [OF ex_registry1_reach this], rule_format, OF get]
  have "\<not> (\<exists>e. hm_get (workers ex_registry1) 8 = Some e
      \<and> we_session_id e = we_session_id (fresh_entry (ex_renv 5) 8 2 ex_caps caps_empty ''b'' 1 None))"
    by (simp add: ex_registry1_get)
  with fresh have "\<forall>v d. hm_get (workers ex_registry1) v = Some d \<longrightarrow>
      we_session_id d < we_session_id (fresh_entry (ex_renv 5) 8 2 ex_caps caps_empty ''b'' 1 None)" by blast
  then have "we_session_id ex_worker1 < we_session_id (fresh_entry (ex_renv 5) 8 2 ex_caps caps_empty ''b'' 1 None)"
    by (simp add: ex_registry1_get)
  with get show ?thesis by blast
qed



section \<open>Fencing\<close>

text \<open>
  C13. Superseded sessions.  Once a worker is in another session, everything that still acts in the
  name of an old one (its disconnection, heartbeats, telemetry, receive clock, dispatch slots,
  rejections) changes nothing, and no channel is handed out for it.
\<close>

theorem registry_fenced:
  assumes "hm_get (workers r) wid = Some e" "we_session_id e \<noteq> s"
  shows "unregister env wid (Some s) r = (False, [], r)
    \<and> record_heartbeat_session env wid a t c m (Some s) r = (Inr StaleSession, r)
    \<and> update_mobile_telemetry wid (Some s) st r = (Inr False, r)
    \<and> set_rx_clock wid s clock r = r
    \<and> reserve_dispatch wid s r = (Inl ConnectionClosed, r)
    \<and> release_dispatch wid s r = r
    \<and> record_rejection env wid (Some s) r = (None, r)"
  using assms by (simp add: unregister_def record_heartbeat_session_def update_mobile_telemetry_def
      set_rx_clock_def reserve_dispatch_def release_dispatch_def record_rejection_def stale_session_def)

theorem registry_fenced_witness: "fst (reserve_dispatch 7 0 ex_registry1) = Inl ConnectionClosed"
proof -
  have "we_session_id ex_worker1 \<noteq> 0" by (simp add: ex_worker1_def)
  from registry_fenced [OF _ this, of ex_registry1 7] show ?thesis by (simp add: ex_registry1_get)
qed

section \<open>Reaping\<close>

text \<open>No sign of life: neither a heartbeat nor bytes within the window, or no heartbeat for too long.\<close>

definition gone_quiet :: "nat \<Rightarrow> nat \<Rightarrow> WorkerEntry \<Rightarrow> bool" where
  "gone_quiet now timeout e \<longleftrightarrow>
     we_last_heartbeat_instant e + effective_timeout e timeout < now
     \<and> (\<forall>clock. we_rx_clock e = Some clock \<longrightarrow>
          last_rx clock + effective_timeout e timeout < now
          \<or> we_last_heartbeat_instant e + dur_mul (effective_timeout e timeout) RX_LIVENESS_CEILING_FACTOR < now)"

lemma is_silent_iff: "is_silent e now timeout \<longleftrightarrow> gone_quiet now timeout e"
  by (auto simp: is_silent_def gone_quiet_def Let_def split: option.splits)

lemma gone_quiet_later: "gone_quiet now timeout e \<Longrightarrow> now \<le> later \<Longrightarrow> gone_quiet later timeout e"
  by (fastforce simp: gone_quiet_def)

lemma not_due_disconnected [simp]: "\<not> reap_due now timeout (disconnected_entry e)"
  by (simp add: reap_due_def disconnected_entry_def)

definition marked :: "reg_env \<Rightarrow> nat \<Rightarrow> uuid list \<Rightarrow> uuid \<Rightarrow> WorkerEntry \<Rightarrow> bool" where
  "marked env timeout wids w e \<longleftrightarrow> w \<in> set wids \<and> reap_due (re_now env) timeout e"

lemma reap_mark_reaped:
  assumes "reap_mark env timeout wids rp ab r = (rp', ab', r')"
  shows "set rp' = set rp \<union> {(w, s). \<exists>e. hm_get (workers r) w = Some e \<and> marked env timeout wids w e \<and> s = we_session_id e}"
  using assms
proof (induction env timeout wids rp ab r rule: reap_mark.induct)
  case (2 env timeout wid wids rp ab r)
  show ?case
  proof (cases "\<exists>e. hm_get (workers r) wid = Some e \<and> reap_due (re_now env) timeout e")
    case True
    then obtain e where e: "hm_get (workers r) wid = Some e" "reap_due (re_now env) timeout e" by blast
    with 2(2) [OF e] "2.prems" show ?thesis by (auto simp: marked_def split: if_splits)
  next
    case False
    with 2(1,3) "2.prems" show ?thesis by (auto simp: marked_def split: option.splits)
  qed
qed (simp add: marked_def)

lemma reap_mark_workers:
  assumes "reap_mark env timeout wids rp ab r = (rp', ab', r')"
  shows "hm_get (workers r') w =
    map_option (\<lambda>e. if marked env timeout wids w e then disconnected_entry e else e) (hm_get (workers r) w)"
  using assms
proof (induction env timeout wids rp ab r rule: reap_mark.induct)
  case (2 env timeout wid wids rp ab r)
  show ?case
  proof (cases "\<exists>e. hm_get (workers r) wid = Some e \<and> reap_due (re_now env) timeout e")
    case True
    then obtain e where e: "hm_get (workers r) wid = Some e" "reap_due (re_now env) timeout e" by blast
    have "reap_mark env timeout wids (rp @ [(wid, we_session_id e)])
        (ab @ abort_unless_current env (we_abort_handle e)) (put_worker wid (disconnected_entry e) r) = (rp', ab', r')"
      using "2.prems" e by simp
    from 2(2) [OF e this] e show ?thesis by (cases "hm_get (workers r) w") (auto simp: marked_def)
  next
    case False
    with "2.prems" have "reap_mark env timeout wids rp ab r = (rp', ab', r')" by (simp split: option.splits)
    with False 2(1,3) show ?thesis
      by (cases "hm_get (workers r) wid"; cases "hm_get (workers r) w") (auto simp: marked_def)
  qed
qed (simp add: marked_def option.map_ident)

lemma reap_candidates_mem:
  assumes "registry_inv r"
  shows "w \<in> set (reap_candidates now timeout r) \<longleftrightarrow> (\<exists>e. hm_get (workers r) w = Some e \<and> reap_due now timeout e)"
proof -
  have "w \<in> set (reap_candidates now timeout r) \<longleftrightarrow>
      (\<exists>e. hm_get (workers r) (we_worker_id e) = Some e \<and> reap_due now timeout e \<and> we_worker_id e = w)"
    by (auto simp: reap_candidates_def entries_mem [OF assms])
  also have "\<dots> \<longleftrightarrow> (\<exists>e. hm_get (workers r) w = Some e \<and> reap_due now timeout e)"
    using worker_okD(3) [OF registry_invD [OF assms]] by blast
  finally show ?thesis .
qed

text \<open>
  C14. The reaper.  A reaping pass over a reachable registry marks exactly the live workers that
  have gone quiet: no heartbeat within the window of the worker, and either no bytes within it or
  no heartbeat for sixty windows.  It reports each with the session it ran in, disconnects it, and
  leaves every other worker as it was.
\<close>

theorem reap_exact:
  assumes "reachable_registry r" "now1 \<le> re_now env"
    and "reap_stale_sessions now1 r env timeout r = (reaped, aborted, r')"
  shows "(\<forall>w s. (w, s) \<in> set reaped \<longleftrightarrow>
        (\<exists>e. hm_get (workers r) w = Some e \<and> we_session_id e = s \<and> we_status e \<noteq> Disconnected
           \<and> gone_quiet now1 timeout e))
    \<and> (\<forall>w. hm_get (workers r') w =
        map_option (\<lambda>e. if (w, we_session_id e) \<in> set reaped then disconnected_entry e else e)
          (hm_get (workers r) w))"
proof -
  have inv: "registry_inv r" by (rule registry.reach_inv [OF assms(1)])
  let ?c = "reap_candidates now1 timeout r"
  have due: "reap_due (re_now env) timeout e" if "reap_due now1 timeout e" for e
    using that gone_quiet_later [OF _ assms(2)] by (simp add: reap_due_def is_silent_iff)
  obtain ab where mark: "reap_mark env timeout ?c [] [] r = (reaped, ab, r')"
    using assms(3) by (auto simp: reap_stale_sessions_def Let_def split: if_splits)
  note res = reap_mark_reaped [OF mark] reap_mark_workers [OF mark]
  have mem: "(w, s) \<in> set reaped \<longleftrightarrow>
      (\<exists>e. hm_get (workers r) w = Some e \<and> we_session_id e = s \<and> reap_due now1 timeout e)" for w s
    using res(1) due by (auto simp: marked_def reap_candidates_mem [OF inv])
  have "hm_get (workers r') w =
        map_option (\<lambda>e. if (w, we_session_id e) \<in> set reaped then disconnected_entry e else e)
          (hm_get (workers r) w)" for w
    using res(2) [of w] due by (cases "hm_get (workers r) w") (auto simp: mem marked_def reap_candidates_mem [OF inv])
  with mem show ?thesis by (auto simp: reap_due_def is_silent_iff)
qed

theorem reap_exact_witness:
  "(7, 1) \<in> set (fst (reap_stale_sessions (secs 11) ex_registry1 (ex_renv (secs 11)) (secs 10) ex_registry1))"
proof -
  obtain reaped ab r' where run: "reap_stale_sessions (secs 11) ex_registry1 (ex_renv (secs 11)) (secs 10) ex_registry1
      = (reaped, ab, r')" by (rule prod_cases3)
  have le: "secs 11 \<le> re_now (ex_renv (secs 11))" by (simp add: ex_renv_def)
  have "gone_quiet (secs 11) (secs 10) ex_worker1"
    by (simp add: gone_quiet_def ex_worker1_def fresh_entry_def ex_renv_def effective_timeout_def
        mobile_interval_def ex_caps_def capabilities_new_def secs_def)
  then show ?thesis
    using reap_exact [OF ex_registry1_reach le run] run
    by (simp add: ex_registry1_get) (simp add: ex_worker1_def)
qed

section \<open>Rejections\<close>

lemma rejection_cooldown_eq: "rejection_cooldown (min (n + 1) (2 ^ 32 - 1)) = min (secs 5 * 2 ^ n) (secs 60)"
proof (cases "n < 4")
  case True
  then have "n = 0 \<or> n = 1 \<or> n = 2 \<or> n = 3" by linarith
  then show ?thesis
    by (auto simp: rejection_cooldown_def REJECTION_COOLDOWN_BASE_def REJECTION_COOLDOWN_MAX_def dur_mul_def
        secs_def duration_max_def)
next
  case False
  have "(2 :: nat) ^ 4 \<le> 2 ^ n" using False by (intro power_increasing) auto
  moreover have "(2 :: nat) ^ 4 \<le> 2 ^ min (min (n + 1) (2 ^ 32 - 1) - 1) 16"
    using False by (intro power_increasing) auto
  ultimately show ?thesis
    by (simp add: rejection_cooldown_def REJECTION_COOLDOWN_BASE_def REJECTION_COOLDOWN_MAX_def dur_mul_def
        secs_def duration_max_def min_def)
qed

lemma schedulable_iff:
  assumes "registry_inv r" "hm_get (workers r) wid = Some e"
  shows "(\<exists>i. i \<in> set (list_schedulable_workers env r) \<and> wi_worker_id i = wid) \<longleftrightarrow>
    we_status e \<noteq> Disconnected \<and> \<not> excluded (re_now env) e"
proof -
  have "(\<exists>i. i \<in> set (list_schedulable_workers env r) \<and> wi_worker_id i = wid) \<longleftrightarrow>
      (\<exists>d. hm_get (workers r) (we_worker_id d) = Some d \<and> we_status d \<noteq> Disconnected
         \<and> \<not> excluded (re_now env) d \<and> we_worker_id d = wid)"
    by (auto simp: list_schedulable_workers_def entries_mem [OF assms(1)] worker_info_def)
  also have "\<dots> \<longleftrightarrow> we_status e \<noteq> Disconnected \<and> \<not> excluded (re_now env) e"
    using assms(2) worker_okD(3) [OF registry_invD [OF assms]] by auto
  finally show ?thesis .
qed

text \<open>
  C15. The circuit breaker.  A worker that hands a task back is not offered to the scheduler for
  five seconds, doubled for every rejection in a row before, and at most for a minute; once the
  time is over, and not before, a live worker is offered again.
\<close>

theorem rejection_cools_down:
  assumes "reachable_registry r" "hm_get (workers r) wid = Some e"
    and "record_rejection env wid (Some (we_session_id e)) r = (out, r')"
  shows "let cooldown = min (secs 5 * 2 ^ we_consecutive_rejections e) (secs 60) in
    out = Some cooldown
    \<and> ((\<exists>i. i \<in> set (list_schedulable_workers later r') \<and> wi_worker_id i = wid) \<longleftrightarrow>
         we_status e \<noteq> Disconnected \<and> re_now env + cooldown \<le> re_now later)"
proof -
  have inv': "registry_inv r'"
    using registry.reach_inv [OF assms(1)] assms(3) by (rule registry_inv_rejection)
  let ?c = "min (secs 5 * 2 ^ we_consecutive_rejections e) (secs 60)"
  let ?e = "e\<lparr>we_consecutive_rejections := min (we_consecutive_rejections e + 1) (2 ^ 32 - 1),
      we_excluded_until := Some (re_now env + ?c)\<rparr>"
  have run: "out = Some ?c" "r' = put_worker wid ?e r"
    using assms(2,3) rejection_cooldown_eq [of "we_consecutive_rejections e"]
    by (simp_all add: record_rejection_def stale_session_def Let_def)
  have "hm_get (workers r') wid = Some ?e" by (simp add: run(2))
  from schedulable_iff [OF inv' this, of later] run(1) show ?thesis
    by (simp add: Let_def excluded_def not_less)
qed

theorem rejection_cools_down_witness:
  "\<not> (\<exists>i. i \<in> set (list_schedulable_workers (ex_renv (secs 4)) (snd (record_rejection (ex_renv 0) 7 (Some 1) ex_registry1)))
       \<and> wi_worker_id i = 7)"
proof -
  obtain out r' where run: "record_rejection (ex_renv 0) 7 (Some (we_session_id ex_worker1)) ex_registry1 = (out, r')"
    by fastforce
  have get: "hm_get (workers ex_registry1) 7 = Some ex_worker1" by (simp add: ex_registry1_get)
  have s: "we_session_id ex_worker1 = 1" "we_consecutive_rejections ex_worker1 = 0"
    by (simp_all add: ex_worker1_def fresh_entry_def)
  from rejection_cools_down [OF ex_registry1_reach get run, of "ex_renv (secs 4)"] run s show ?thesis
    by (simp add: Let_def ex_renv_def secs_def)
qed

section \<open>Keepalive intervals\<close>

text \<open>
  C16. The short keepalive interval of a worker on a cellular link does not survive: telemetry sets
  it to ten or twenty-five seconds, but the next heartbeat sets it to a minute, because the
  registered capabilities it is computed from never carry the network type.
\<close>

theorem heartbeat_resets_interval:
  assumes "hm_get (workers r) wid = Some e" "s = we_session_id e"
    and "update_mobile_telemetry wid (Some s) status r = (out, r1)"
    and "record_heartbeat_session env wid active timestamp cpu ram (Some s) r1 = (out', r2)"
  shows "(\<exists>e1. hm_get (workers r1) wid = Some e1
        \<and> we_heartbeat_interval e1 = Some (recommended_keepalive_interval status (we_active_tasks e)))
    \<and> (\<exists>e2. hm_get (workers r2) wid = Some e2 \<and> we_heartbeat_interval e2 = Some (secs 60))"
proof -
  let ?e1 = "e\<lparr>we_heartbeat_interval := Some (recommended_keepalive_interval status (we_active_tasks e)),
      we_capabilities := (we_capabilities e)\<lparr>wc_mobile := Some (live_mobile (we_capabilities e) status)\<rparr>\<rparr>"
  have r1: "r1 = put_worker wid ?e1 r"
    using assms by (simp add: update_mobile_telemetry_def stale_session_def Let_def)
  have "recommended_keepalive_interval status (we_active_tasks e) \<le> secs 60"
    by (simp add: recommended_keepalive_interval_def secs_def)
  moreover have "heartbeat_interval_after f = Some (secs 60)"
    if "wc_mobile (we_capabilities f) = Some m" "we_heartbeat_interval f = Some d" "d \<le> secs 60" for f m d
    using that by (simp add: heartbeat_interval_after_def Let_def live_status_def net_is_cellular_def
        recommended_keepalive_interval_def)
  moreover have "r2 = put_worker wid (heartbeat_entry env active timestamp cpu ram
      (we_status ?e1 = Disconnected) ?e1) r1"
    using assms(2,4) by (simp add: r1 record_heartbeat_session_def stale_session_def Let_def)
  ultimately show ?thesis by (simp add: r1 heartbeat_entry_def Let_def)
qed

theorem heartbeat_resets_interval_witness:
  "\<exists>e2. hm_get (workers (snd (record_heartbeat_session (ex_renv 9) 7 0 0 (Fin 0) 0 (Some 1)
      (snd (update_mobile_telemetry 7 (Some 1)
        ((live_status mobile_default)\<lparr>ls_network_type := Some ''LTE''\<rparr>) ex_registry1))))) 7 = Some e2
     \<and> we_heartbeat_interval e2 = Some (secs 60)"
proof -
  let ?st = "(live_status mobile_default)\<lparr>ls_network_type := Some ''LTE''\<rparr>"
  obtain out r1 where t: "update_mobile_telemetry 7 (Some 1) ?st ex_registry1 = (out, r1)" by fastforce
  obtain out' r2 where h: "record_heartbeat_session (ex_renv 9) 7 0 0 (Fin 0) 0 (Some 1) r1 = (out', r2)" by fastforce
  have get: "hm_get (workers ex_registry1) 7 = Some ex_worker1" by (simp add: ex_registry1_get)
  have "1 = we_session_id ex_worker1" by (simp add: ex_worker1_def)
  from heartbeat_resets_interval [OF get this t h] show ?thesis by (simp add: t h del: One_nat_def)
qed

end
