(* ===== verification/Scheduler_Contract.thy ===== *)
theory Scheduler_Contract
  imports Scheduler_Props Registry_Props "HOL-Library.Multiset"
begin

text \<open>
  The contract of the scheduler, stated over the model of the engine and of a pass, with the
  example worker and queue of the other components as concrete inputs.
\<close>

section \<open>Examples\<close>

definition ex_senv :: sched_env where
  "ex_senv = \<lparr>se_parse_uuid = (\<lambda>_. None), se_round = Fin\<rparr>"

definition ex_info :: WorkerInfo where
  "ex_info = worker_info_new 7 1 ex_caps Connected 0 0 0 ''a''"

definition ex_view :: TaskView where
  "ex_view = view_of (ex_task 1)"

abbreviation ex_cfg :: SchedulerConfig where
  "ex_cfg \<equiv> scheduler_config_default"

lemma ex_view_fields [simp]:
  "tv_task_id ex_view = 1" "tv_requirements ex_view = requirements_default" "tv_requires_gpu ex_view = False"
  "tv_heavy ex_view = False" "tv_avoid ex_view = []" "tv_placement ex_view = Inr placement_default"
  "tv_required_features ex_view = caps_empty"
proof -
  have "from_task_tags [] = Inr placement_default" by code_simp
  then show "tv_placement ex_view = Inr placement_default"
    by (simp add: ex_view_def view_of_def task_placement_def ex_task_def task_new_def)
  show "tv_required_features ex_view = caps_empty" unfolding ex_view_def by code_simp
qed (simp_all add: ex_view_def view_of_def ex_task_def task_new_def new_command_def requirements_default_def)

lemma ex_info_fields [simp]:
  "wi_worker_id ex_info = 7" "wi_session_id ex_info = 1" "wi_capabilities ex_info = ex_caps"
  "wi_status ex_info = Connected" "wi_cpu_usage_pct ex_info = Fin 0" "wi_features ex_info = caps_empty"
  "wi_ram_available_mb ex_info = 8192" "wi_active_tasks ex_info = 0"
  by (simp_all add: ex_info_def worker_info_new_def ex_caps_def capabilities_new_def)

lemma ex_caps_fields [simp]:
  "wc_cpu_cores ex_caps = 4" "wc_ram_mb ex_caps = 8192" "wc_mobile ex_caps = None" "wc_tags ex_caps = []"
  "wc_has_gpu ex_caps = False" "wc_is_simulated_gpu ex_caps = False"
  by (simp_all add: ex_caps_def capabilities_new_def)

definition ex_engine :: Engine where
  "ex_engine = engine_new ex_senv ex_cfg [ex_info] None False False"

lemma ex_capacity: "effective_max_concurrency ex_senv ex_cfg ex_info = 4" "effective_max_tasks ex_senv ex_cfg ex_info = 4"
proof -
  have "advertised_slots [] = None" by code_simp
  moreover show "effective_max_concurrency ex_senv ex_cfg ex_info = 4"
    by (simp add: effective_max_concurrency_def ex_senv_def scheduler_config_default_def cap_at_def f_of_nat_def
        usize_max_def Let_def)
  ultimately show "effective_max_tasks ex_senv ex_cfg ex_info = 4"
    by (simp add: effective_max_tasks_def scheduler_config_default_def cap_at_def)
qed

lemma ex_engine_fields [simp]:
  "en_seats ex_engine = [\<lparr>st_worker = ex_info, st_max_slots = 4, st_max_tasks = 4,
     st_base = load_default, st_placed = load_default\<rparr>]"
  "en_reserved ex_engine = [False]" "en_dead ex_engine = []" "en_rr_cursor ex_engine = 0"
  "en_gpu_waiting ex_engine = False" "en_gpu_recent ex_engine = False"
  by (simp_all add: ex_engine_def engine_new_def new_seat_def ex_capacity base_load_def load_default_def Let_def)

lemma ex_engine_reach: "engine_reach ex_senv ex_cfg [ex_info] None ex_engine"
proof -
  have "ex_engine = (engine_new ex_senv ex_cfg [ex_info] None False False)\<lparr>en_rr_cursor := 0\<rparr>"
    by (simp add: ex_engine_def engine_new_def Let_def)
  then have "engine_init ex_senv ex_cfg [ex_info] None ex_engine" using engine_init.new by metis
  then show ?thesis by (rule reach_init)
qed

lemma ex_admits: "seat_admits ex_senv ex_cfg ex_view [] (en_seats ex_engine ! 0)"
proof -
  have "placement_matches (\<lambda>_. None) placement_default 7 (wc_name ex_caps) []" "caps_contains caps_empty caps_empty"
    by code_simp+
  then show ?thesis
    by (simp add: seat_admits_def view_fits_def statically_fits_def placement_admits_def ram_free_def tags_allow_def
        requirements_default_def scheduler_config_default_def ex_senv_def load_default_def Let_def)
qed

lemma ex_candidates: "find_candidates ex_senv ex_cfg ex_engine ex_view = ([0], [])"
  using ex_admits
  by (simp add: find_candidates_def candidates_def open_seats_def saturated_def used_slots_def seat_load_def
      load_default_def preserve_gpu_def prefer_real_gpu_def Let_def)

lemma ex_place: "place ex_senv ex_cfg ex_view ex_engine = (Placed 0, take_seat ex_view 0 ex_engine)"
proof -
  have "unfulfillable ex_senv ex_cfg ex_engine ex_view placement_default = None"
    by (simp add: unfulfillable_def scheduler_config_default_def)
  moreover have "rank ex_senv ex_cfg ex_engine ex_view [0] = (0, ex_engine)"
    by (simp add: rank_def scheduler_config_default_def)
  ultimately show ?thesis by (simp add: place_def ex_candidates Let_def)
qed

section \<open>Placement\<close>




lemma ex_dead_engine:
  "engine_reach ex_senv ex_cfg [] None (engine_new ex_senv ex_cfg [] None False False)"
proof -
  have "engine_new ex_senv ex_cfg [] None False False =
      (engine_new ex_senv ex_cfg [] None False False)\<lparr>en_rr_cursor := 0\<rparr>"
    by (simp add: engine_new_def Let_def)
  then show ?thesis using engine_init.new reach_init by metis
qed


section \<open>Ranking\<close>

text \<open>What the ranking relies on of \<open>f64\<close> rounding: it yields numbers, keeps the sign, and does not
  lose an integer of machine size to zero or to infinity.\<close>

definition sane_rounding :: "rounding \<Rightarrow> bool" where
  "sane_rounding r \<longleftrightarrow>
     (\<forall>x. r x \<noteq> NaN) \<and> (\<forall>x \<ge> 0. \<not> f_less (r x) (Fin 0))
     \<and> (\<forall>n \<le> usize_max. \<exists>x. r (of_nat n) = Fin x \<and> (if n = 0 then x = 0 else 0 < x))"

lemma f_nonneg_cases: "\<not> f_less x (Fin 0) \<Longrightarrow> x \<noteq> NaN \<Longrightarrow> x = PosInf \<or> (\<exists>r \<ge> 0. x = Fin r)"
  by (cases x) (auto simp: not_less)

lemma f_add_nonneg:
  assumes r: "sane_rounding r" and x: "\<not> f_less x (Fin 0)" "x \<noteq> NaN" and y: "\<not> f_less y (Fin 0)" "y \<noteq> NaN"
  shows "f_add r x y \<noteq> NaN"
  using f_nonneg_cases [OF x] f_nonneg_cases [OF y] r by (auto simp: sane_rounding_def)

lemma f_div_pos:
  assumes r: "sane_rounding r" and x: "\<not> f_less x (Fin 0)" "x \<noteq> NaN" and b: "0 < b"
  shows "\<not> f_less (f_div r x (Fin b)) (Fin 0)" "f_div r x (Fin b) \<noteq> NaN"
  using f_nonneg_cases [OF x] r b by (auto simp: sane_rounding_def inf_of_sign_def)

lemma f_half_nonneg:
  assumes r: "sane_rounding r" and x: "\<not> f_less x (Fin 0)" "x \<noteq> NaN"
  shows "\<not> f_less (f_mul r (Fin (1 / 2)) x) (Fin 0)" "f_mul r (Fin (1 / 2)) x \<noteq> NaN"
  using f_nonneg_cases [OF x] r by (auto simp: sane_rounding_def inf_of_sign_def)

lemma load_ratio_number:
  assumes r: "sane_rounding (se_round env)"
    and size: "seat_load s \<le> usize_max" "wc_cpu_cores (wi_capabilities (st_worker s)) \<le> usize_max"
  shows "load_ratio env s \<noteq> NaN"
proof -
  let ?r = "se_round env" and ?cores = "max (wc_cpu_cores (wi_capabilities (st_worker s))) 1"
  have "?cores \<le> usize_max" "?cores \<noteq> 0" using size(2) by (auto simp: usize_max_def)
  then obtain b where b: "?r (of_nat ?cores) = Fin b" "0 < b" using r unfolding sane_rounding_def by metis
  obtain a where a: "?r (of_nat (seat_load s)) = Fin a" using r size(1) unfolding sane_rounding_def by metis
  have "\<not> f_less (Fin a) (Fin 0)" using r a of_nat_0_le_iff unfolding sane_rounding_def by metis
  then have left: "\<not> f_less (f_div ?r (Fin a) (Fin b)) (Fin 0)" "f_div ?r (Fin a) (Fin b) \<noteq> NaN"
    using f_div_pos [OF r _ _ b(2), of "Fin a"] by auto
  have "\<not> f_less (f_div ?r (f_max (wi_cpu_usage_pct (st_worker s)) (Fin 0)) (Fin 100)) (Fin 0)"
    "f_div ?r (f_max (wi_cpu_usage_pct (st_worker s)) (Fin 0)) (Fin 100) \<noteq> NaN"
    using f_div_pos [OF r f_max_zero_nonneg, of 100] by auto
  note right = f_half_nonneg [OF r this]
  show ?thesis unfolding load_ratio_def Let_def f_of_nat_def a b by (rule f_add_nonneg [OF r left right])
qed

lemma seat_order_total:
  assumes "sc_policy cfg = WeightedLeastLoaded \<Longrightarrow> (\<And>i. i \<in> A \<Longrightarrow> load_ratio env (f i) \<noteq> NaN)"
    and "sc_policy cfg \<noteq> RoundRobin"
  shows "total_cmp_on A (\<lambda>a b. seat_order env cfg v (f a) (f b))"
proof -
  have gpu: "total_cmp_on A (\<lambda>a b. gpu_pref cfg v (f a) (f b))"
    unfolding gpu_pref_def
    by (cases "sc_preserve_gpu_for_gpu_tasks cfg \<and> \<not> tv_requires_gpu v"; cases "tv_requires_gpu v")
       (simp_all add: total_cmp_on_cmp total_cmp_on_flip total_cmp_on_const)
  have tie: "total_cmp_on A (\<lambda>a b. tie_break cfg v (f a) (f b))"
    unfolding tie_break_def by (intro total_cmp_on_then gpu total_cmp_on_cmp total_cmp_on_flip)
  show ?thesis
    using assms by (cases "sc_policy cfg")
      (auto simp: seat_order_def intro!: total_cmp_on_then tie total_cmp_on_cmp total_cmp_on_f_cmp)
qed

text \<open>
  C21. The policies.  With the least-loaded policy the engine picks a candidate that no other candidate
  beats on the number of tasks, with the weighted policy one that none beats on the weighted load;
  ties are decided by the preference for or against GPU workers, then by cores, then by the worker
  id, so that no candidate comes before the chosen one in the order of the policy.
\<close>

theorem policy_respected:
  assumes place: "place env cfg v en = (Placed i, en')" and policy: "sc_policy cfg \<noteq> RoundRobin"
    and rounding: "sane_rounding (se_round env)"
    and size: "\<forall>s\<in>set (en_seats en). seat_load s \<le> usize_max \<and> wc_cpu_cores (wi_capabilities (st_worker s)) \<le> usize_max"
    and j: "j \<in> set (fst (find_candidates env cfg en v))"
  shows "seat_order env cfg v (en_seats en ! i) (en_seats en ! j) \<noteq> Greater
    \<and> (sc_policy cfg = LeastLoaded \<longrightarrow> seat_load (en_seats en ! i) \<le> seat_load (en_seats en ! j))
    \<and> (sc_policy cfg = WeightedLeastLoaded \<longrightarrow>
         \<not> f_less (load_ratio env (en_seats en ! j)) (load_ratio env (en_seats en ! i)))"
proof -
  let ?ord = "\<lambda>a b. seat_order env cfg v (en_seats en ! a) (en_seats en ! b)"
  obtain p cands full en1 where find: "find_candidates env cfg en v = (cands, full)" "cands \<noteq> []"
    and rank: "rank env cfg en v cands = (i, en1)"
    using place by (rule place_Placed)
  obtain avoided where "candidates env cfg en v avoided = (cands, full)"
    using find(1) by (rule find_candidates_cases)
  then have "k < length (en_seats en)" if "k \<in> set cands" for k
    using candidates_may_take [of env cfg en v avoided cands full k] that by (simp add: may_take_def)
  then have number: "load_ratio env (en_seats en ! k) \<noteq> NaN" if "k \<in> set cands" for k
    using load_ratio_number [OF rounding, of "en_seats en ! k"] size that by simp
  have "total_cmp_on (set cands) ?ord" by (rule seat_order_total [OF number policy])
  moreover have "i = hd (sort_by ?ord cands)" using rank policy by (cases "sc_policy cfg") (auto simp: rank_def)
  ultimately have least: "?ord i j \<noteq> Greater"
    using sort_by_hd_least [of cands ?ord j] find j by simp
  have "seat_load (en_seats en ! i) \<le> seat_load (en_seats en ! j)" if "sc_policy cfg = LeastLoaded"
    using least that by (simp add: seat_order_def then_with_iff cmp_def split: if_splits)
  moreover have "\<not> f_less (load_ratio env (en_seats en ! j)) (load_ratio env (en_seats en ! i))"
    if "sc_policy cfg = WeightedLeastLoaded"
    using least that by (simp add: seat_order_def then_with_iff f_cmp_iff)
  ultimately show ?thesis using least by simp
qed

theorem policy_respected_witness:
  "\<not> f_less (load_ratio ex_senv (en_seats ex_engine ! 0)) (load_ratio ex_senv (en_seats ex_engine ! 0))"
proof -
  have "sane_rounding (se_round ex_senv)" by (auto simp: sane_rounding_def ex_senv_def)
  moreover have "sc_policy ex_cfg = WeightedLeastLoaded" by (simp add: scheduler_config_default_def)
  moreover have "\<forall>s\<in>set (en_seats ex_engine). seat_load s \<le> usize_max
      \<and> wc_cpu_cores (wi_capabilities (st_worker s)) \<le> usize_max"
    by (simp add: seat_load_def load_default_def usize_max_def)
  ultimately show ?thesis using policy_respected [OF ex_place, of 0] ex_candidates by simp
qed

section \<open>A pass and the queue\<close>

lemma triples_map_of:
  "map_of (map (\<lambda>(t, w, s). (t, w, Some s)) ts) tid = Some (w, s) \<Longrightarrow> \<exists>n. s = Some n \<and> (tid, w, n) \<in> set ts"
proof (induction ts)
  case (Cons t ts)
  then show ?case by (cases t) (simp split: if_splits, blast+)
qed simp

text \<open>The rows a pass commits.\<close>

definition pass_triples ::
  "sched_env \<Rightarrow> SchedulerConfig \<Rightarrow> nat \<Rightarrow> pass_input \<Rightarrow> scheduler_state \<Rightarrow> (uuid \<times> uuid \<times> nat) list" where
  "pass_triples env cfg mb inp ss =
     (let wk = walk_queue env cfg mb inp ss in map (placement_triple (wk_engine wk)) (wk_placements wk))"

definition pass_rows ::
  "sched_env \<Rightarrow> SchedulerConfig \<Rightarrow> nat \<Rightarrow> pass_input \<Rightarrow> scheduler_state \<Rightarrow> (uuid \<times> uuid \<times> nat option) list" where
  "pass_rows env cfg mb inp ss = map (\<lambda>(t, w, s). (t, w, Some s)) (pass_triples env cfg mb inp ss)"

lemma pass_exact:
  assumes "schedule_batch env cfg cenv mb inp ss q = (rep, ss', q')" "pi_workers inp \<noteq> []"
  shows "hm_get (tasks q') tid = (case batch_takes (pass_rows env cfg mb inp ss) q tid of
           Some (w, s, e) \<Rightarrow> Some (mark_scheduled cenv w s e) | None \<Rightarrow> hm_get (tasks q) tid)"
    and "distinct (map sa_task_id (sr_assignments rep))" "length (sr_assignments rep) \<le> mb"
    and "a \<in> set (sr_assignments rep) \<longleftrightarrow> (\<exists>e. batch_takes (pass_rows env cfg mb inp ss) q (sa_task_id a) =
           Some (sa_worker_id a, Some (sa_session_id a), e) \<and> sa_task a = te_task e)"
proof -
  let ?wk = "walk_queue env cfg mb inp ss"
  have commit: "commit_walk cenv ?wk q = (rep, q')"
    using assms by (auto simp: schedule_batch_def Let_def split: prod.splits)
  have ok: "placed_ok ?wk" and len: "length (wk_placements ?wk) \<le> mb"
    using walk_queue_ok [OF refl, of env cfg inp mb ss] by (auto simp: walk_ok_def)
  note exact = commit_walk_exact [OF commit ok]
  show "hm_get (tasks q') tid = (case batch_takes (pass_rows env cfg mb inp ss) q tid of
      Some (w, s, e) \<Rightarrow> Some (mark_scheduled cenv w s e) | None \<Rightarrow> hm_get (tasks q) tid)"
    "distinct (map sa_task_id (sr_assignments rep))"
    "a \<in> set (sr_assignments rep) \<longleftrightarrow> (\<exists>e. batch_takes (pass_rows env cfg mb inp ss) q (sa_task_id a) =
       Some (sa_worker_id a, Some (sa_session_id a), e) \<and> sa_task a = te_task e)"
    unfolding pass_rows_def pass_triples_def Let_def by (rule exact(1,2,4))+
  show "length (sr_assignments rep) \<le> mb" using exact(3) len by simp
qed

lemma pass_triples_worker:
  assumes "(tid, v, n) \<in> set (pass_triples env cfg mb inp ss)"
  shows "\<exists>w \<in> set (pi_workers inp). v = wi_worker_id w \<and> n = wi_session_id w"
proof -
  let ?wk = "walk_queue env cfg mb inp ss"
  obtain p where p: "p \<in> set (wk_placements ?wk)" "(tid, v, n) = placement_triple (wk_engine ?wk) p"
    using assms unfolding pass_triples_def Let_def set_map by blast
  note ok = conjunct1 [OF walk_queue_ok [OF refl, of env cfg inp mb ss]]
  note worker = walk_worker [OF ok p(1)]
  have "by_worker_id (pi_workers inp) ! snd p \<in> set (pi_workers inp)" using nth_mem [OF worker(1)] by simp
  moreover have "v = wi_worker_id (by_worker_id (pi_workers inp) ! snd p)"
    "n = wi_session_id (by_worker_id (pi_workers inp) ! snd p)"
    using p(2) worker(2) by (simp_all add: placement_triple_def Let_def)
  ultimately show ?thesis by blast
qed

lemma pass_row:
  assumes "batch_takes (pass_rows env cfg mb inp ss) q tid = Some (w, s, e)"
  shows "\<exists>n. s = Some n \<and> (tid, w, n) \<in> set (pass_triples env cfg mb inp ss)"
    and "hm_get (tasks q) tid = Some e" "te_state e = Queued"
proof -
  have "map_of (pass_rows env cfg mb inp ss) tid = Some (w, s)" and e: "hm_get (tasks q) tid = Some e" "te_state e = Queued"
    using assms by (auto simp: batch_takes_def split: option.splits if_splits)
  then show "\<exists>n. s = Some n \<and> (tid, w, n) \<in> set (pass_triples env cfg mb inp ss)"
    unfolding pass_rows_def by (intro triples_map_of)
  show "hm_get (tasks q) tid = Some e" "te_state e = Queued" by (fact e)+
qed

lemma pass_kept:
  assumes run: "schedule_batch env cfg cenv mb inp ss q = (rep, ss', q')" "pi_workers inp \<noteq> []"
    and out: "tid \<notin> sa_task_id ` set (sr_assignments rep)"
  shows "hm_get (tasks q') tid = hm_get (tasks q) tid"
proof (cases "batch_takes (pass_rows env cfg mb inp ss) q tid")
  case (Some x)
  obtain w s e where x: "x = (w, s, e)" by (cases x)
  obtain n where "s = Some n" using pass_row(1) [OF Some [unfolded x]] by blast
  then have "\<lparr>sa_task_id = tid, sa_worker_id = w, sa_session_id = n, sa_task = te_task e\<rparr> \<in> set (sr_assignments rep)"
    unfolding pass_exact(4) [OF run] using Some x by simp
  then show ?thesis using out by force
qed (simp add: pass_exact(1) [OF run])

lemma pass_assignment:
  assumes run: "schedule_batch env cfg cenv mb inp ss q = (rep, ss', q')" "pi_workers inp \<noteq> []"
    and a: "a \<in> set (sr_assignments rep)"
  shows "(\<exists>w \<in> set (pi_workers inp). sa_worker_id a = wi_worker_id w \<and> sa_session_id a = wi_session_id w)
    \<and> (\<exists>e. hm_get (tasks q) (sa_task_id a) = Some e \<and> te_state e = Queued \<and> sa_task a = te_task e
        \<and> hm_get (tasks q') (sa_task_id a) = Some (mark_scheduled cenv (sa_worker_id a) (Some (sa_session_id a)) e))"
proof -
  obtain e where e: "batch_takes (pass_rows env cfg mb inp ss) q (sa_task_id a) =
      Some (sa_worker_id a, Some (sa_session_id a), e)" "sa_task a = te_task e"
    using a pass_exact(4) [OF run, of a] by blast
  show ?thesis
    using pass_row [OF e(1)] e pass_exact(1) [OF run, of "sa_task_id a"] pass_triples_worker by auto
qed

text \<open>
  C19. The commit of a pass.  Every assignment a pass reports is of a task that was queued when the
  pass committed, goes to one of the workers the pass was given, in the session that worker had, and
  is recorded in the queue exactly so; no task is assigned twice, no more than the batch size are
  assigned, and every task that is not among the assignments is left as it was.
\<close>

theorem pass_commits:
  assumes "schedule_batch env cfg cenv mb inp ss q = (rep, ss', q')"
  shows "(\<forall>a \<in> set (sr_assignments rep). (\<exists>w \<in> set (pi_workers inp).
             sa_worker_id a = wi_worker_id w \<and> sa_session_id a = wi_session_id w)
           \<and> (\<exists>e. hm_get (tasks q) (sa_task_id a) = Some e \<and> te_state e = Queued \<and> sa_task a = te_task e
               \<and> hm_get (tasks q') (sa_task_id a) =
                   Some (mark_scheduled cenv (sa_worker_id a) (Some (sa_session_id a)) e)))
    \<and> distinct (map sa_task_id (sr_assignments rep)) \<and> length (sr_assignments rep) \<le> mb
    \<and> (\<forall>tid. tid \<notin> sa_task_id ` set (sr_assignments rep) \<longrightarrow> hm_get (tasks q') tid = hm_get (tasks q) tid)"
proof (cases "pi_workers inp = []")
  case True
  then show ?thesis using assms by (auto simp: schedule_batch_def report_default_def)
next
  case False
  note run = assms False
  show ?thesis
    by (intro conjI ballI allI impI pass_assignment [OF run, THEN conjunct1] pass_assignment [OF run, THEN conjunct2]
        pass_exact(2,3) [OF run] pass_kept [OF run])
qed

text \<open>A pass over the example queue with the example worker.\<close>

definition ex_input :: pass_input where
  "ex_input = \<lparr>pi_workers = [ex_info], pi_books = ex_queue1, pi_probe = ex_queue1, pi_page = (\<lambda>_. ex_queue1),
               pi_now = 0, pi_clock = (\<lambda>_. 0)\<rparr>"

lemma ex_start:
  "start_walk ex_senv ex_cfg ex_input [ex_info] scheduler_new =
     \<lparr>wk_engine = ex_engine, wk_report = report_default, wk_placements = [], wk_demand = demand_default\<rparr>"
proof -
  have loads: "assigned_loads ex_queue1 = []"
    by (simp add: assigned_loads_def ex_queue1_def ex_queue0_def with_retention_limits_def)
  have "new_seat ex_senv ex_cfg (Some []) ex_info = new_seat ex_senv ex_cfg None ex_info"
    by (simp add: new_seat_def base_load_def unwrap_or_def load_default_def hm_get_def Let_def)
  then show ?thesis
    by (simp add: start_walk_def gpu_demand_def can_execute_gpu_def ex_input_def scheduler_new_def loads
        ex_engine_def engine_new_def scheduler_config_default_def Let_def)
qed

lemma ex_views: "ready_views ex_queue1 None n = (if n \<le> 1 then ([ex_view], Some (OrderKey 5 1 1)) else ([ex_view], None))"
  by (simp add: ready_views_def keys_after_def ex_queue1_def queued_entry_def hm_get_def ex_entry_def new_entry_def
      ex_view_def view_of_def Let_def)

definition ex_pass_state :: "ScheduleReport \<times> scheduler_state \<times> TaskQueueInner" where
  "ex_pass_state = schedule_batch ex_senv ex_cfg ex_env 128 ex_input scheduler_new ex_queue1"

lemma ex_walk: "wk_placements (walk_queue ex_senv ex_cfg 128 ex_input scheduler_new) = [(1, 0)]"
  "st_worker (en_seats (wk_engine (walk_queue ex_senv ex_cfg 128 ex_input scheduler_new)) ! 0) = ex_info"
  "wk_report (walk_queue ex_senv ex_cfg 128 ex_input scheduler_new) = report_default"
proof -
  have free: "en_free_slots ex_engine = 4" "en_free_slots (take_seat ex_view 0 ex_engine) = 3"
    by (simp_all add: take_seat_def seat_take_def remaining_slots_def seat_load_def used_slots_def weight_of_def
        load_default_def requirements_default_def Let_def)
      (simp_all add: ex_engine_def engine_new_def new_seat_def ex_capacity base_load_def remaining_slots_def
        seat_load_def used_slots_def load_default_def Let_def)
  let ?wk = "\<lparr>wk_engine = ex_engine, wk_report = report_default, wk_placements = [], wk_demand = demand_default\<rparr>"
  have page: "note_page ex_senv ex_cfg 0 [ex_info] [ex_view] ?wk = ?wk"
    by (simp add: note_page_def placeable_gpu_view_def)
  have inp: "pi_workers ex_input = [ex_info]" "pi_page ex_input n = ex_queue1" "pi_clock ex_input n = 0" for n
    by (simp_all add: ex_input_def)
  have views: "place_views ex_senv ex_cfg 128 0 [ex_view] ?wk =
      (False, note_placed 0 ex_view 0 (take_seat ex_view 0 ex_engine) ?wk)"
    by (simp add: ex_place free note_placed_def Let_def)
  have "scan ex_senv ex_cfg 128 ex_input [ex_info] 20000 0 None 0 ?wk =
      note_placed 0 ex_view 0 (take_seat ex_view 0 ex_engine) ?wk"
    by (subst scan.simps) (simp add: SCAN_PAGE_def inp ex_views page views Let_def del: place_views.simps)
  moreover have "sc_max_scan_per_pass ex_cfg = 20000" by (simp add: scheduler_config_default_def)
  ultimately have "walk_queue ex_senv ex_cfg 128 ex_input scheduler_new =
      note_placed 0 ex_view 0 (take_seat ex_view 0 ex_engine) ?wk"
    by (simp add: walk_queue_def by_worker_id_def inp ex_start free)
  then show "wk_placements (walk_queue ex_senv ex_cfg 128 ex_input scheduler_new) = [(1, 0)]"
    "st_worker (en_seats (wk_engine (walk_queue ex_senv ex_cfg 128 ex_input scheduler_new)) ! 0) = ex_info"
    "wk_report (walk_queue ex_senv ex_cfg 128 ex_input scheduler_new) = report_default"
    by (simp_all add: note_placed_def take_seat_def seat_take_def Let_def)
qed

lemma ex_pass:
  "pi_workers ex_input = [ex_info]" "pi_books ex_input = ex_queue1"
  "pass_rows ex_senv ex_cfg 128 ex_input scheduler_new = [(1, 7, Some 1)]"
  by (simp add: ex_input_def, simp add: ex_input_def)
     (simp add: pass_rows_def pass_triples_def placement_triple_def ex_walk Let_def)

lemma ex_pass_taken:
  "batch_takes (pass_rows ex_senv ex_cfg 128 ex_input scheduler_new) ex_queue1 1 = Some (7, Some 1, ex_entry 1 5 1)"
  by (simp add: ex_pass batch_takes_def ex_queue1_def hm_get_def ex_entry_def new_entry_def)

theorem pass_commits_witness:
  "\<exists>a. a \<in> set (sr_assignments (fst ex_pass_state)) \<and> sa_task_id a = 1
     \<and> (\<exists>e. hm_get (tasks (snd (snd ex_pass_state))) 1 = Some (mark_scheduled ex_env (sa_worker_id a) (Some (sa_session_id a)) e))"
proof -
  have run: "schedule_batch ex_senv ex_cfg ex_env 128 ex_input scheduler_new ex_queue1 =
      (fst ex_pass_state, fst (snd ex_pass_state), snd (snd ex_pass_state))" by (simp add: ex_pass_state_def)
  let ?a = "\<lparr>sa_task_id = 1, sa_worker_id = 7, sa_session_id = 1, sa_task = te_task (ex_entry 1 5 1)\<rparr>"
  have "?a \<in> set (sr_assignments (fst ex_pass_state))"
    using pass_exact(4) [OF run, of ?a] ex_pass_taken by (simp add: ex_pass(1))
  then show ?thesis using bspec [OF conjunct1 [OF pass_commits [OF run]], of ?a] by force
qed

section \<open>No over-commitment\<close>

lemma carried_finite: "finite (carried q w)"
proof -
  have "carried q w \<subseteq> fst ` set (tasks q)"
    by (auto simp: carried_def hm_get_def dest!: map_of_SomeD intro: rev_image_eqI)
  then show ?thesis by (rule finite_subset) simp
qed

lemma calm_carried: "calm q q' \<Longrightarrow> carried q' w \<subseteq> carried q w"
proof
  fix tid assume calm: "calm q q'" and "tid \<in> carried q' w"
  then obtain e' where e': "hm_get (tasks q') tid = Some e'" "carries e' w" by (auto simp: carried_def)
  have "life (calm_step (retry_policy q)) (hm_get (tasks q) tid) (hm_get (tasks q') tid)"
    using calm by (simp add: lives_by_def)
  then show "tid \<in> carried q w"
    using e' by cases (auto simp: carried_def carries_def calm_step_def held_def)
qed

lemma calms_carried: "calm\<^sup>*\<^sup>* q q' \<Longrightarrow> carried q' w \<subseteq> carried q w"
  by (induction rule: rtranclp_induct) (auto dest: calm_carried)

lemma by_worker_id_distinct:
  assumes "distinct (map wi_worker_id ws)"
  shows "distinct (map wi_worker_id (by_worker_id ws))"
proof (rule card_distinct)
  have "card (set (map wi_worker_id (by_worker_id ws))) = card (set (map wi_worker_id ws))" by simp
  then show "card (set (map wi_worker_id (by_worker_id ws))) = length (map wi_worker_id (by_worker_id ws))"
    using distinct_card [OF assms] by simp
qed

text \<open>The seat of a worker after the walk of a pass.\<close>

lemma pass_seat:
  assumes i: "i < length (pi_workers inp)" and wk: "wk = walk_queue env cfg mb inp ss"
    and w: "w = by_worker_id (pi_workers inp) ! i"
    and some: "0 < count_list (map snd (wk_placements wk)) i"
  shows "al_tasks (base_load (Some (assigned_loads (pi_books inp))) w) + count_list (map snd (wk_placements wk)) i
    \<le> effective_max_tasks env cfg w"
proof -
  let ?ws = "by_worker_id (pi_workers inp)" and ?loads = "Some (assigned_loads (pi_books inp))"
  have ok: "walk_ok env cfg ?ws ?loads wk" using walk_queue_ok [OF wk] by blast
  then have reach: "engine_reach env cfg ?ws ?loads (wk_engine wk)" by (simp add: walk_ok_def)
  have i': "i < length ?ws" using i by simp
  let ?s = "en_seats (wk_engine wk) ! i"
  have le: "seat_le (new_seat env cfg ?loads w) ?s" unfolding w by (rule engine_reach_seats(2) [OF reach i'])
  have mem: "?s \<in> set (en_seats (wk_engine wk))" using i' engine_reach_seats(1) [OF reach] by simp
  have "seat_ok ?s" using engine.reach_inv [OF reach] mem by (simp add: engine_inv_def)
  moreover have placed: "al_tasks (st_placed ?s) = count_list (map snd (wk_placements wk)) i"
    using ok i' engine_reach_seats(1) [OF reach] by (simp add: walk_ok_def placed_ok_def)
  ultimately have "seat_load ?s \<le> st_max_tasks ?s" using some by (simp add: seat_ok_def)
  moreover have "st_max_tasks ?s \<le> effective_max_tasks env cfg w" "st_base ?s = base_load ?loads w"
    using le by (auto simp: seat_le_def new_seat_def Let_def split: option.splits)
  ultimately show ?thesis using placed by (simp add: seat_load_def)
qed

lemma count_list_filter: "count_list xs x = length (filter (\<lambda>y. y = x) xs)"
  by (induction xs) auto

lemma card_fst_count: "card (fst ` {p \<in> set ps. snd p = i}) \<le> count_list (map snd ps) i"
proof -
  have "{p \<in> set ps. snd p = i} = set (filter (\<lambda>p. snd p = i) ps)" by auto
  then have "card (fst ` {p \<in> set ps. snd p = i}) \<le> length (filter (\<lambda>p. snd p = i) ps)"
    using card_image_le [of "{p \<in> set ps. snd p = i}" fst] card_length [of "filter (\<lambda>p. snd p = i) ps"] by simp
  also have "\<dots> = count_list (map snd ps) i" by (simp add: count_list_filter filter_map o_def)
  finally show ?thesis .
qed

text \<open>How many rows of a pass name a worker.\<close>

lemma pass_rows_of_seat:
  assumes dist: "distinct (map wi_worker_id (pi_workers inp))"
    and i: "i < length (pi_workers inp)" "by_worker_id (pi_workers inp) ! i = w"
    and row: "(tid, wi_worker_id w, n) \<in> set (pass_triples env cfg mb inp ss)"
  shows "tid \<in> fst ` {p \<in> set (wk_placements (walk_queue env cfg mb inp ss)). snd p = i}"
proof -
  let ?wk = "walk_queue env cfg mb inp ss" and ?ws = "by_worker_id (pi_workers inp)"
  obtain p where p: "p \<in> set (wk_placements ?wk)" "(tid, wi_worker_id w, n) = placement_triple (wk_engine ?wk) p"
    using row unfolding pass_triples_def Let_def set_map by blast
  note worker = walk_worker [OF conjunct1 [OF walk_queue_ok [OF refl, of env cfg inp mb ss]] p(1)]
  have same: "wi_worker_id (?ws ! snd p) = wi_worker_id (?ws ! i)" and tid: "tid = fst p"
    using p(2) worker(2) i(2) by (simp_all add: placement_triple_def Let_def)
  have "snd p = i"
    using nth_eq_iff_index_eq [OF by_worker_id_distinct [OF dist], of "snd p" i] worker(1) i(1) same by simp
  then show ?thesis unfolding tid using p(1) by (intro imageI) simp
qed

lemma pass_worker_rows:
  assumes dist: "distinct (map wi_worker_id (pi_workers inp))" and w: "w \<in> set (pi_workers inp)"
    and N: "N = {tid. \<exists>n. (tid, wi_worker_id w, n) \<in> set (pass_triples env cfg mb inp ss)}"
  shows "finite N"
    and "N \<noteq> {} \<Longrightarrow> al_tasks (base_load (Some (assigned_loads (pi_books inp))) w) + card N \<le> effective_max_tasks env cfg w"
proof -
  let ?wk = "walk_queue env cfg mb inp ss"
  have "w \<in> set (by_worker_id (pi_workers inp))" using w by simp
  then obtain i where i: "i < length (pi_workers inp)" "by_worker_id (pi_workers inp) ! i = w"
    unfolding in_set_conv_nth by auto
  have sub: "N \<subseteq> fst ` {p \<in> set (wk_placements ?wk). snd p = i}"
  proof
    fix tid assume "tid \<in> N"
    then obtain n where "(tid, wi_worker_id w, n) \<in> set (pass_triples env cfg mb inp ss)" unfolding N by blast
    then show "tid \<in> fst ` {p \<in> set (wk_placements ?wk). snd p = i}" by (rule pass_rows_of_seat [OF dist i])
  qed
  show fin: "finite N" by (rule finite_subset [OF sub]) simp
  have "card N \<le> card (fst ` {p \<in> set (wk_placements ?wk). snd p = i})" by (rule card_mono [OF _ sub]) simp
  then have card: "card N \<le> count_list (map snd (wk_placements ?wk)) i" by (rule order_trans [OF _ card_fst_count])
  assume "N \<noteq> {}"
  then have "0 < card N" using fin by (simp add: card_gt_0_iff)
  then have pos: "0 < count_list (map snd (wk_placements ?wk)) i" using card by (rule less_le_trans)
  show "al_tasks (base_load (Some (assigned_loads (pi_books inp))) w) + card N \<le> effective_max_tasks env cfg w"
    by (rule order_trans [OF add_left_mono [OF card] pass_seat [OF i(1) refl i(2) [symmetric] pos]])
qed

lemma books_carried:
  assumes "reachable q"
  shows "al_tasks (base_load (Some (assigned_loads q)) w) = card (carried q (wi_worker_id w))"
  by (simp add: base_load_def assigned_loads_get [OF assms] load_default_def unwrap_or_def)



section \<open>Matchmaking\<close>

definition report_ids :: "ScheduleReport \<Rightarrow> uuid multiset" where
  "report_ids rep = mset (map sa_task_id (sr_assignments rep) @ map fst (sr_skipped rep) @ map fst (sr_unfulfillable rep))"

lemma report_ids_add [simp]:
  "report_ids (rep\<lparr>sr_assignments := sr_assignments rep @ [a]\<rparr>) = add_mset (sa_task_id a) (report_ids rep)"
  "report_ids (rep\<lparr>sr_skipped := sr_skipped rep @ [x]\<rparr>) = add_mset (fst x) (report_ids rep)"
  "report_ids (rep\<lparr>sr_unfulfillable := sr_unfulfillable rep @ [y]\<rparr>) = add_mset (fst y) (report_ids rep)"
  by (simp_all add: report_ids_def)

lemma match_tasks_ids:
  "report_ids (match_tasks env cfg tvs en rep) = report_ids rep + mset (map (t_id \<circ> fst) tvs)"
proof (induction env cfg tvs en rep rule: match_tasks.induct)
  case (2 env cfg t v rest en rep)
  obtain verdict en' where place: "place env cfg v en = (verdict, en')" by fastforce
  show ?case using "2.IH" [OF place [symmetric]] by (cases verdict) (simp_all add: place assignment_on_def)
qed simp

text \<open>
  C29. Matchmaking accounts for every task.  The report of the pure matchmaking function lists each
  task it was given exactly once: as assigned, as skipped, or as impossible to fulfil.
\<close>

theorem matchmake_partition: "report_ids (matchmake_with_avoid env cfg ts ws avoid) = mset (map t_id ts)"
proof (cases "ts = [] \<or> ws = []")
  case True
  then show ?thesis by (auto simp: matchmake_with_avoid_def report_ids_def report_default_def o_def)
next
  case False
  have "map (t_id \<circ> fst) (zip ts (map f ts)) = map t_id ts" for f :: "Task \<Rightarrow> TaskView"
    by (induction ts) auto
  moreover have "report_ids report_default = {#}" by (simp add: report_ids_def report_default_def)
  ultimately show ?thesis using False by (simp add: matchmake_with_avoid_def Let_def match_tasks_ids)
qed

end
