(* ===== verification/Spec2Isabelle.thy ===== *)
theory Spec2Isabelle
  imports Output_Pattern Placement Sandbox_Path Task_Model Grid_Error Protocol_Caps Queue_Contract Queue_Views Scheduler_Contract
begin

text \<open>
  A verification library for OxideSwarm, a distributed task runner in Rust
  (\<^verbatim>\<open>src/crates\<close>): a master accepts tasks, queues them by priority, places them on workers,
  follows their progress, fails them over when a worker disappears, and keeps finished tasks for
  a while; workers run the tasks in sandboxes and move files through a content-addressed store.
\<close>

end
